(* ===== verification/Prelude.thy ===== *)
theory Prelude
  imports Main "HOL-Library.Word" "HOL-Library.Sublist"
begin

text \<open>
  Shared vocabulary of the development: the byte view of Go strings, error values with
  wrapping, results as sums, the option pointers of the source, the theorem collections that
  carry the component proofs, and a few generic list facts.

  A Go \<open>string\<close> is an immutable sequence of bytes; a HOL \<open>char\<close> is a byte, so
  \<open>string\<close> (a \<open>char list\<close>) is used for it and \<open>length\<close> is Go's \<open>len\<close>.
  A pointer to a value that the code only tests for nil and reads (\<open>*string\<close>,
  \<open>*uint64\<close>) is an \<open>option\<close>.
\<close>

section \<open>Collections\<close>

named_theorems rune_simps "facts about decoding and encoding runes"
named_theorems str_simps "facts about the string operations of the Go library"
named_theorems handler_simps "unfolding of tool handlers on their branches"
named_theorems limiter_simps "unfolding of the rate limiter's operations"

section \<open>Names\<close>

type_synonym gostring = string
type_synonym go_int = "64 word"
type_synonym rune = nat

abbreviation byte_val :: "char \<Rightarrow> nat" where
  "byte_val c \<equiv> of_char c"

section \<open>Errors\<close>

text \<open>
  Error values. The sentinels are the package variables the source compares against;
  \<open>ErrMaxBytes\<close> is \<open>*http.MaxBytesError\<close>; an error of a library or of a service is \<open>ErrText\<close> with its message; \<open>fmt.Errorf\<close> with a trailing
  \<open>%w\<close> is \<open>ErrWrap\<close> (every use in the source ends in \<open>%w\<close>).
\<close>

datatype err =
    ErrSearchFailed
  | ErrQueryTooLong
  | ErrPageTooLarge
  | ErrInvalidQuery
  | ErrAPIClient
  | ErrMaxBytes
  | ErrText string
  | ErrWrap string err

type_synonym 'a result = "err + 'a"

fun err_msg :: "err \<Rightarrow> string" where
  "err_msg ErrSearchFailed = ''search failed''"
| "err_msg ErrQueryTooLong = ''query exceeds maximum length''"
| "err_msg ErrPageTooLarge = ''page number exceeds maximum''"
| "err_msg ErrInvalidQuery = ''query contains invalid characters''"
| "err_msg ErrAPIClient = ''API error''"
| "err_msg ErrMaxBytes = ''http: request body too large''"
| "err_msg (ErrText m) = m"
| "err_msg (ErrWrap p e) = p @ err_msg e"

text \<open>\<open>errors.Is\<close>: the error itself or one it wraps.\<close>

fun err_is :: "err \<Rightarrow> err \<Rightarrow> bool" where
  "err_is (ErrWrap p e) t = (ErrWrap p e = t \<or> err_is e t)"
| "err_is e t = (e = t)"

lemma err_is_refl [simp]: "err_is e e"
  by (cases e) auto

section \<open>Generic facts\<close>

lemma of_char_inject_simps [simp]: "(of_char c :: nat) = of_char d \<longleftrightarrow> c = d"
  by (metis char_of_char)

lemma byte_val_less: "byte_val c < 256"
  by simp

lemma char_of_of_char_map [simp]: "map char_of (map (of_char :: char \<Rightarrow> nat) s) = s"
  by (induction s) auto

lemma of_char_char_of_map: "\<forall>n \<in> set ns. n < 256 \<Longrightarrow> map of_char (map char_of ns) = (ns :: nat list)"
  by (induction ns) (auto simp: of_char_of)

lemma takeWhile_neq_append: "c \<notin> set xs \<Longrightarrow> takeWhile (\<lambda>x. x \<noteq> c) (xs @ c # ys) = xs"
  by (induction xs) auto

lemma dropWhile_neq_append: "c \<notin> set xs \<Longrightarrow> dropWhile (\<lambda>x. x \<noteq> c) (xs @ c # ys) = c # ys"
  by (induction xs) auto

lemma takeWhile_neq_id: "c \<notin> set xs \<Longrightarrow> takeWhile (\<lambda>x. x \<noteq> c) xs = xs"
  by (induction xs) auto

lemma dropWhile_neq_Nil: "c \<notin> set xs \<Longrightarrow> dropWhile (\<lambda>x. x \<noteq> c) xs = []"
  by (induction xs) auto

text \<open>A loop on fuel whose steps consume its argument: with fuel for the whole argument, more changes nothing.\<close>

lemma enough_fuel:
  assumes "\<And>n s. length s \<le> n \<Longrightarrow> f (Suc n) s = f n s" "length s \<le> n"
  shows "f n s = f (length s) s"
  using assms(2) by (induction rule: dec_induct) (auto simp: assms(1))

end
