(* ===== verification/Utf8.thy ===== *)
theory Utf8
  imports Prelude
begin

text \<open>
  The part of Go's \<open>unicode/utf8\<close> and \<open>strings\<close> packages that the sanitizers rest on:
  decoding a byte string into runes (an invalid byte is U+FFFD of width 1, as in a
  \<open>for range\<close> loop), encoding a rune, and \<open>strings.Map\<close>. The lemmas show that encoding
  and decoding are inverse on valid runes and that \<open>strings.Map\<close> with a filter commutes with
  decoding, which is what the locale \<open>rune_sanitizer\<close> of the theory \<open>Sanitize\<close> rests on.
\<close>

section \<open>Decoding\<close>

definition rune_error :: rune where
  "rune_error = 0xFFFD"

definition cont :: "nat \<Rightarrow> bool" where
  "cont b \<longleftrightarrow> 0x80 \<le> b \<and> b \<le> 0xBF"

definition valid_rune :: "rune \<Rightarrow> bool" where
  "valid_rune r \<longleftrightarrow> r < 0xD800 \<or> (0xE000 \<le> r \<and> r \<le> 0x10FFFF)"

text \<open>The accepted range of the second byte depends on the first (no overlong forms, no
  surrogates, nothing above U+10FFFF).\<close>

definition second_lo :: "nat \<Rightarrow> nat" where
  "second_lo b0 = (if b0 = 0xE0 then 0xA0 else if b0 = 0xF0 then 0x90 else 0x80)"

definition second_hi :: "nat \<Rightarrow> nat" where
  "second_hi b0 = (if b0 = 0xED then 0x9F else if b0 = 0xF4 then 0x8F else 0xBF)"

definition second_ok :: "nat \<Rightarrow> nat \<Rightarrow> bool" where
  "second_ok b0 b1 \<longleftrightarrow> second_lo b0 \<le> b1 \<and> b1 \<le> second_hi b0"

fun decode_tail2 :: "nat \<Rightarrow> nat list \<Rightarrow> nat \<times> nat" where
  "decode_tail2 b0 (b1 # _) =
     (if cont b1 then ((b0 - 0xC0) * 64 + (b1 - 0x80), 2) else (rune_error, 1))"
| "decode_tail2 b0 [] = (rune_error, 1)"

fun decode_tail3 :: "nat \<Rightarrow> nat list \<Rightarrow> nat \<times> nat" where
  "decode_tail3 b0 (b1 # b2 # _) =
     (if second_ok b0 b1 \<and> cont b2
      then ((b0 - 0xE0) * 4096 + (b1 - 0x80) * 64 + (b2 - 0x80), 3) else (rune_error, 1))"
| "decode_tail3 b0 _ = (rune_error, 1)"

fun decode_tail4 :: "nat \<Rightarrow> nat list \<Rightarrow> nat \<times> nat" where
  "decode_tail4 b0 (b1 # b2 # b3 # _) =
     (if second_ok b0 b1 \<and> cont b2 \<and> cont b3
      then ((b0 - 0xF0) * 262144 + (b1 - 0x80) * 4096 + (b2 - 0x80) * 64 + (b3 - 0x80), 4)
      else (rune_error, 1))"
| "decode_tail4 b0 _ = (rune_error, 1)"

fun decode_bytes :: "nat list \<Rightarrow> nat \<times> nat" where
  "decode_bytes [] = (rune_error, 0)"
| "decode_bytes (b0 # bs) =
     (if b0 < 0x80 then (b0, 1)
      else if b0 < 0xC2 then (rune_error, 1)
      else if b0 < 0xE0 then decode_tail2 b0 bs
      else if b0 < 0xF0 then decode_tail3 b0 bs
      else if b0 < 0xF5 then decode_tail4 b0 bs
      else (rune_error, 1))"

text \<open>\<open>utf8.DecodeRuneInString\<close>: the first rune and its width.\<close>

declare decode_bytes.simps(2) [simp del]

definition decode_rune :: "string \<Rightarrow> rune \<times> nat" where
  "decode_rune s = decode_bytes (map of_char s)"

text \<open>The runes a \<open>for range\<close> loop visits. The width is at least 1, so the loop advances.\<close>

fun bytes_runes :: "nat list \<Rightarrow> rune list" where
  "bytes_runes [] = []"
| "bytes_runes (b # bs) =
     fst (decode_bytes (b # bs)) # bytes_runes (drop (snd (decode_bytes (b # bs)) - 1) bs)"

definition runes :: "string \<Rightarrow> rune list" where
  "runes s = bytes_runes (map of_char s)"

section \<open>Encoding\<close>

fun encode_bytes :: "rune \<Rightarrow> nat list" where
  "encode_bytes r =
     (if r < 0x80 then [r]
      else if r < 0x800 then [0xC0 + r div 64, 0x80 + r mod 64]
      else if \<not> valid_rune r then [0xEF, 0xBF, 0xBD]
      else if r < 0x10000 then [0xE0 + r div 4096, 0x80 + r div 64 mod 64, 0x80 + r mod 64]
      else [0xF0 + r div 262144, 0x80 + r div 4096 mod 64, 0x80 + r div 64 mod 64,
            0x80 + r mod 64])"

declare encode_bytes.simps [simp del]

text \<open>\<open>utf8.AppendRune\<close> onto the empty string, and the string of a list of runes.\<close>

definition encode_rune :: "rune \<Rightarrow> string" where
  "encode_rune r = map char_of (encode_bytes r)"

definition string_of_runes :: "rune list \<Rightarrow> string" where
  "string_of_runes rs = concat (map encode_rune rs)"

text \<open>
  \<open>strings.Map\<close>: every rune of the string is replaced by the mapping's result, or dropped when
  the mapping returns a negative rune (\<open>None\<close>). An invalid byte is visited as U+FFFD and, if
  kept, written as the three bytes of U+FFFD.
\<close>

definition strings_Map :: "(rune \<Rightarrow> rune option) \<Rightarrow> string \<Rightarrow> string" where
  "strings_Map f s = string_of_runes (List.map_filter f (runes s))"

definition utf8_valid :: "string \<Rightarrow> bool" where
  "utf8_valid s \<longleftrightarrow> string_of_runes (runes s) = s"

section \<open>Decoding inverts encoding\<close>

lemma cont_simp: "n < 64 \<Longrightarrow> cont (0x80 + n)"
  by (simp add: cont_def)

lemma base64_2: "(r :: nat) div 64 * 64 + r mod 64 = r"
  by simp

lemma base64_3: "(r :: nat) div 4096 * 4096 + r div 64 mod 64 * 64 + r mod 64 = r"
proof -
  have "r div 64 div 64 * 64 + r div 64 mod 64 = r div 64" by simp
  then have "r div 4096 * 64 + r div 64 mod 64 = r div 64"
    by (simp add: div_mult2_eq [symmetric])
  then show ?thesis
    using div_mult_mod_eq [of r 64] by linarith
qed

lemma base64_4:
  "(r :: nat) div 262144 * 262144 + r div 4096 mod 64 * 4096 + r div 64 mod 64 * 64 + r mod 64 = r"
proof -
  have "r div 4096 div 64 * 64 + r div 4096 mod 64 = r div 4096" by simp
  then have "r div 262144 * 64 + r div 4096 mod 64 = r div 4096"
    by (simp add: div_mult2_eq [symmetric])
  then show ?thesis
    using base64_3 [of r] by linarith
qed

lemma decode_encode_2:
  assumes "0x80 \<le> r" "r < 0x800"
  shows "decode_bytes ([0xC0 + r div 64, 0x80 + r mod 64] @ bs) = (r, 2)"
proof -
  have "2 \<le> r div 64" "r div 64 < 32" using assms by auto
  then show ?thesis using base64_2 [of r] by (simp add: cont_simp decode_bytes.simps)
qed

lemma decode_encode_3:
  assumes "0x800 \<le> r" "r < 0x10000" "valid_rune r"
  shows "decode_bytes ([0xE0 + r div 4096, 0x80 + r div 64 mod 64, 0x80 + r mod 64] @ bs) = (r, 3)"
proof -
  have q: "r div 4096 < 16" using assms by auto
  have "second_ok (0xE0 + r div 4096) (0x80 + r div 64 mod 64)"
  proof -
    have "32 \<le> r div 64 mod 64" if "r div 4096 = 0"
      using that assms base64_3 [of r] by auto
    moreover have "r div 64 mod 64 \<le> 31" if "r div 4096 = 13"
    proof -
      have "r < 0xD800 \<or> 0xE000 \<le> r" using assms(3) by (auto simp: valid_rune_def)
      with that have "r < 0xD800" by auto
      with that show ?thesis using base64_3 [of r] by auto
    qed
    moreover have "r div 64 mod 64 < 64" by simp
    ultimately show ?thesis using q
      by (auto simp: second_ok_def second_lo_def second_hi_def)
  qed
  then show ?thesis using q base64_3 [of r] by (simp add: cont_simp decode_bytes.simps)
qed

lemma decode_encode_4:
  assumes "0x10000 \<le> r" "valid_rune r"
  shows "decode_bytes ([0xF0 + r div 262144, 0x80 + r div 4096 mod 64, 0x80 + r div 64 mod 64,
           0x80 + r mod 64] @ bs) = (r, 4)"
proof -
  have b: "r \<le> 0x10FFFF" using assms by (auto simp: valid_rune_def)
  then have q: "r div 262144 < 5" by auto
  have "second_ok (0xF0 + r div 262144) (0x80 + r div 4096 mod 64)"
  proof -
    have "16 \<le> r div 4096 mod 64" if "r div 262144 = 0"
      using that assms base64_4 [of r] by auto
    moreover have "r div 4096 mod 64 \<le> 15" if "r div 262144 = 4"
      using that b base64_4 [of r] by auto
    moreover have "r div 4096 mod 64 < 64" by simp
    ultimately show ?thesis using q
      by (auto simp: second_ok_def second_lo_def second_hi_def)
  qed
  then show ?thesis using q base64_4 [of r] by (simp add: cont_simp decode_bytes.simps)
qed

lemma decode_encode:
  assumes "valid_rune r"
  shows "decode_bytes (encode_bytes r @ bs) = (r, length (encode_bytes r))"
proof -
  consider "r < 0x80" | "0x80 \<le> r \<and> r < 0x800" | "0x800 \<le> r \<and> r < 0x10000" | "0x10000 \<le> r"
    by linarith
  then show ?thesis
  proof cases
    case 1
    then show ?thesis by (simp add: encode_bytes.simps decode_bytes.simps)
  next
    case 2
    then show ?thesis using decode_encode_2 [of r bs] by (simp add: encode_bytes.simps)
  next
    case 3
    then show ?thesis using decode_encode_3 [of r bs] assms by (simp add: encode_bytes.simps)
  next
    case 4
    then show ?thesis using decode_encode_4 [of r bs] assms by (simp add: encode_bytes.simps)
  qed
qed

lemma encode_bytes_nonempty: "encode_bytes r \<noteq> []"
  by (simp add: encode_bytes.simps)

lemma bytes_runes_encode:
  assumes "valid_rune r"
  shows "bytes_runes (encode_bytes r @ bs) = r # bytes_runes bs"
proof -
  obtain b cs where e: "encode_bytes r = b # cs"
    using encode_bytes_nonempty by (cases "encode_bytes r") auto
  have "decode_bytes (b # cs @ bs) = (r, Suc (length cs))"
    using decode_encode [OF assms, of bs] by (simp add: e)
  then show ?thesis by (simp add: e)
qed

lemma bytes_runes_concat:
  "\<forall>r \<in> set rs. valid_rune r \<Longrightarrow> bytes_runes (concat (map encode_bytes rs)) = rs"
  by (induction rs) (auto simp: bytes_runes_encode simp del: bytes_runes.simps(2))

lemma encode_bytes_less: "\<forall>b \<in> set (encode_bytes r). b < 256"
proof -
  have "r div 262144 < 5" if "valid_rune r" using that by (auto simp: valid_rune_def)
  moreover have "r div 64 mod 64 < 64" "r div 4096 mod 64 < 64" "r mod 64 < 64" by simp_all
  ultimately show ?thesis by (auto simp: encode_bytes.simps)
qed

lemma map_of_char_encode [rune_simps]: "map of_char (encode_rune r) = encode_bytes r"
  unfolding encode_rune_def by (rule of_char_char_of_map) (rule encode_bytes_less)

lemma map_of_char_string_of_runes [rune_simps]:
  "map of_char (string_of_runes rs) = concat (map encode_bytes rs)"
  by (induction rs) (auto simp: string_of_runes_def rune_simps)

lemma runes_string_of_runes: "\<forall>r \<in> set rs. valid_rune r \<Longrightarrow> runes (string_of_runes rs) = rs"
  by (simp add: runes_def map_of_char_string_of_runes bytes_runes_concat)

section \<open>Decoded runes are valid\<close>

lemma valid_rune_error [simp]: "valid_rune rune_error"
  by (simp add: valid_rune_def rune_error_def)

lemma decode_tail2_valid: "b0 < 0xE0 \<Longrightarrow> valid_rune (fst (decode_tail2 b0 bs))"
  by (cases bs) (auto simp: valid_rune_def cont_def rune_error_def)

lemma decode_tail3_valid:
  assumes "0xE0 \<le> b0" "b0 < 0xF0"
  shows "valid_rune (fst (decode_tail3 b0 bs))"
proof (cases "(b0, bs)" rule: decode_tail3.cases)
  case (1 c b1 b2 cs)
  have "valid_rune ((b0 - 0xE0) * 4096 + (b1 - 0x80) * 64 + (b2 - 0x80))"
    if "second_ok b0 b1" "cont b2"
  proof (cases "b0 = 0xED")
    case True
    then show ?thesis using that
      by (auto simp: valid_rune_def second_ok_def second_lo_def second_hi_def cont_def)
  next
    case False
    with assms have "b0 - 0xE0 \<le> 12 \<or> 14 \<le> b0 - 0xE0" "b0 - 0xE0 \<le> 15" by auto
    then show ?thesis using that
      by (auto simp: valid_rune_def second_ok_def second_lo_def second_hi_def cont_def
          split: if_splits)
  qed
  with 1 show ?thesis by auto
qed auto

lemma decode_tail4_valid:
  assumes "0xF0 \<le> b0" "b0 < 0xF5"
  shows "valid_rune (fst (decode_tail4 b0 bs))"
proof (cases "(b0, bs)" rule: decode_tail4.cases)
  case (1 c b1 b2 b3 cs)
  have "valid_rune ((b0 - 0xF0) * 262144 + (b1 - 0x80) * 4096 + (b2 - 0x80) * 64 + (b3 - 0x80))"
    if "second_ok b0 b1" "cont b2" "cont b3"
    using that assms
    by (auto simp: valid_rune_def second_ok_def second_lo_def second_hi_def cont_def
        split: if_splits)
  with 1 show ?thesis by auto
qed auto

lemma decode_bytes_valid: "valid_rune (fst (decode_bytes bs))"
proof (cases bs)
  case Nil
  then show ?thesis by simp
next
  case (Cons b cs)
  then show ?thesis
    by (auto simp: decode_bytes.simps decode_tail2_valid decode_tail3_valid decode_tail4_valid)
      (simp add: valid_rune_def)
qed

lemma bytes_runes_valid: "r \<in> set (bytes_runes bs) \<Longrightarrow> valid_rune r"
  by (induction bs rule: bytes_runes.induct)
    (auto simp: decode_bytes_valid)

lemma runes_valid: "r \<in> set (runes s) \<Longrightarrow> valid_rune r"
  by (auto simp: runes_def intro: bytes_runes_valid)

lemma utf8_valid_string_of_runes: "\<forall>r \<in> set rs. valid_rune r \<Longrightarrow> utf8_valid (string_of_runes rs)"
  by (simp add: utf8_valid_def runes_string_of_runes)

section \<open>ASCII\<close>

lemma bytes_runes_ascii: "\<forall>b \<in> set bs. b < 0x80 \<Longrightarrow> bytes_runes bs = bs"
  by (induction bs) (auto simp: decode_bytes.simps)

lemma runes_ascii: "\<forall>c \<in> set s. byte_val c < 0x80 \<Longrightarrow> runes s = map of_char s"
  by (simp add: runes_def bytes_runes_ascii)

lemma encode_rune_ascii: "r < 0x80 \<Longrightarrow> encode_rune r = [char_of r]"
  by (simp add: encode_rune_def encode_bytes.simps)

lemma string_of_runes_ascii:
  "\<forall>r \<in> set rs. r < 0x80 \<Longrightarrow> string_of_runes rs = map char_of rs"
  by (induction rs) (auto simp: string_of_runes_def encode_rune_ascii)

text \<open>A byte below 0x80 of an encoded rune is the rune itself.\<close>

lemma encode_bytes_low:
  "b \<in> set (encode_bytes r) \<Longrightarrow> b < 0x80 \<Longrightarrow> b = r"
  by (auto simp: encode_bytes.simps split: if_splits)

lemma string_of_runes_low:
  assumes "c \<in> set (string_of_runes rs)" "byte_val c < 0x80"
  shows "byte_val c \<in> set rs"
proof -
  have "byte_val c \<in> set (map of_char (string_of_runes rs))" using assms(1) by simp
  then obtain r where "r \<in> set rs" "byte_val c \<in> set (encode_bytes r)"
    by (auto simp: map_of_char_string_of_runes)
  with assms(2) show ?thesis using encode_bytes_low by metis
qed

section \<open>Filters\<close>

definition rune_filter :: "(rune \<Rightarrow> bool) \<Rightarrow> string \<Rightarrow> string" where
  "rune_filter keep s = strings_Map (\<lambda>r. if keep r then Some r else None) s"

lemma map_filter_guard: "List.map_filter (\<lambda>r. if p r then Some r else None) xs = filter p xs"
  by (induction xs) auto

lemma rune_filter_eq: "rune_filter keep s = string_of_runes (filter keep (runes s))"
  by (simp add: rune_filter_def strings_Map_def map_filter_guard)

lemma runes_rune_filter: "runes (rune_filter keep s) = filter keep (runes s)"
  unfolding rune_filter_eq
  by (rule runes_string_of_runes) (auto intro: runes_valid)

section \<open>Concatenation\<close>

text \<open>An ASCII byte ends whatever sequence was open, so decoding distributes over a concatenation
  whose second part begins with one.\<close>

definition ascii_head :: "string \<Rightarrow> bool" where
  "ascii_head s \<longleftrightarrow> s = [] \<or> byte_val (hd s) < 0x80"

lemma not_cont_low: "b < 0x80 \<Longrightarrow> \<not> cont b \<and> \<not> second_ok b0 b"
  by (auto simp: cont_def second_ok_def second_lo_def)

lemma decode_tails_append:
  assumes "b < 0x80"
  shows "decode_tail2 b0 (bs @ b # cs) = decode_tail2 b0 bs"
    "decode_tail3 b0 (bs @ b # cs) = decode_tail3 b0 bs"
    "decode_tail4 b0 (bs @ b # cs) = decode_tail4 b0 bs"
  using not_cont_low [OF assms]
  by (cases bs rule: list.exhaust; cases "tl bs"; cases "tl (tl bs)"; cases cs; cases "tl cs"; auto)+

lemma decode_bytes_append:
  assumes "bs \<noteq> []" "b < 0x80"
  shows "decode_bytes (bs @ b # cs) = decode_bytes bs"
  using assms decode_tails_append by (cases bs) (auto simp: decode_bytes.simps)

lemma decode_tails_width:
  "snd (decode_tail2 b0 bs) \<le> Suc (length bs)" "snd (decode_tail3 b0 bs) \<le> Suc (length bs)"
  "snd (decode_tail4 b0 bs) \<le> Suc (length bs)"
  by (cases bs; cases "tl bs"; cases "tl (tl bs)"; auto)+

lemma decode_bytes_width: "snd (decode_bytes bs) \<le> length bs"
  by (cases bs) (auto simp: decode_bytes.simps decode_tails_width)

lemma bytes_runes_append: "b < 0x80 \<Longrightarrow> bytes_runes (bs @ b # cs) = bytes_runes bs @ bytes_runes (b # cs)"
proof (induction bs rule: bytes_runes.induct)
  case (2 a as)
  have d: "decode_bytes (a # as @ b # cs) = decode_bytes (a # as)"
    using decode_bytes_append [of "a # as" b cs] 2(2) by simp
  have "snd (decode_bytes (a # as)) - 1 \<le> length as" using decode_bytes_width [of "a # as"] by simp
  then show ?case using 2 by (simp add: d)
qed simp

lemma runes_append: "ascii_head b \<Longrightarrow> runes (a @ b) = runes a @ runes b"
  by (cases b) (auto simp: runes_def ascii_head_def bytes_runes_append)

lemma rune_filter_append: "ascii_head b \<Longrightarrow> rune_filter keep (a @ b) = rune_filter keep a @ rune_filter keep b"
  by (simp add: rune_filter_eq runes_append string_of_runes_def)

text \<open>Decoding looks at no more bytes than it takes.\<close>

lemma decode_bytes_local:
  assumes "decode_bytes bs = (r, n)" "1 < n"
  shows "decode_bytes (take n bs @ cs) = (r, n)"
proof (cases bs)
  case (Cons b0 tl0)
  have 2: "decode_tail2 b0 tl0 = (r, n) \<Longrightarrow> decode_tail2 b0 (take (n - 1) tl0 @ cs) = (r, n)"
    using assms(2) by (cases tl0) (auto split: if_splits)
  have 3: "decode_tail3 b0 tl0 = (r, n) \<Longrightarrow> decode_tail3 b0 (take (n - 1) tl0 @ cs) = (r, n)"
    using assms(2) by (cases "(b0, tl0)" rule: decode_tail3.cases) (auto split: if_splits)
  have 4: "decode_tail4 b0 tl0 = (r, n) \<Longrightarrow> decode_tail4 b0 (take (n - 1) tl0 @ cs) = (r, n)"
    using assms(2) by (cases "(b0, tl0)" rule: decode_tail4.cases) (auto split: if_splits)
  show ?thesis using assms Cons 2 3 4 by (cases n) (auto simp: decode_bytes.simps split: if_splits)
qed (use assms in simp)

section \<open>Evaluation\<close>

text \<open>Facts with which \<open>simp\<close> evaluates the functions above on literal strings.\<close>

lemma bit_Suc_0_0: "bit (Suc 0) 0"
  by (simp add: bit_0)

lemmas utf8_eval = strings_Map_def runes_def decode_bytes.simps rune_error_def cont_def
  second_ok_def second_lo_def second_hi_def string_of_runes_def encode_rune_def encode_bytes.simps
  valid_rune_def List.map_filter_def char_of_def bit_Suc_0_0

section \<open>Decoding advances\<close>

lemma decode_tails_step: 
  "1 \<le> snd (decode_tail2 b0 bs)" "1 \<le> snd (decode_tail3 b0 bs)" "1 \<le> snd (decode_tail4 b0 bs)"
  by (cases bs; cases "tl bs"; cases "tl (tl bs)"; auto)+

lemma decode_bytes_step: "bs \<noteq> [] \<Longrightarrow> 1 \<le> snd (decode_bytes bs)"
  using decode_tails_step by (cases bs) (auto simp: decode_bytes.simps)

end
