(* ===== verification/GoStrings.thy ===== *)
theory GoStrings
  imports Utf8
begin

text \<open>
  What the source uses of Go's \<open>strings\<close>, \<open>strconv\<close>, \<open>net\<close> and \<open>net/textproto\<close> packages:
  byte searches, cutting at a separator, trimming white space, lower-casing, decimal numbers,
  \<open>net.SplitHostPort\<close> and the lookup of an HTTP header. All of them are executable.
\<close>

section \<open>Searching and cutting\<close>

fun index_byte :: "char \<Rightarrow> string \<Rightarrow> nat option" where
  "index_byte c [] = None"
| "index_byte c (x # xs) = (if x = c then Some 0 else map_option Suc (index_byte c xs))"

definition last_index_byte :: "char \<Rightarrow> string \<Rightarrow> nat option" where
  "last_index_byte c s =
     (case index_byte c (rev s) of None \<Rightarrow> None | Some i \<Rightarrow> Some (length s - 1 - i))"

definition has_prefix :: "string \<Rightarrow> string \<Rightarrow> bool" where
  "has_prefix s p \<longleftrightarrow> take (length p) s = p"

definition contains_byte :: "string \<Rightarrow> char \<Rightarrow> bool" where
  "contains_byte s c \<longleftrightarrow> c \<in> set s"

text \<open>\<open>strings.Cut\<close> at a one-byte separator: the parts before and after its first occurrence.\<close>

definition cut_byte :: "char \<Rightarrow> string \<Rightarrow> string \<times> string" where
  "cut_byte c s = (takeWhile (\<lambda>x. x \<noteq> c) s, drop 1 (dropWhile (\<lambda>x. x \<noteq> c) s))"

lemma index_byte_None [str_simps]: "index_byte c s = None \<longleftrightarrow> c \<notin> set s"
  by (induction s) auto

lemma index_byte_append [str_simps]: "c \<notin> set xs \<Longrightarrow> index_byte c (xs @ c # ys) = Some (length xs)"
  by (induction xs) auto

lemma index_byte_takeWhile: "index_byte c s = Some i \<Longrightarrow> take i s = takeWhile (\<lambda>x. x \<noteq> c) s"
  by (induction s arbitrary: i) (auto split: if_splits)

lemma last_index_byte_None [str_simps]: "last_index_byte c s = None \<longleftrightarrow> c \<notin> set s"
  using index_byte_None [of c "rev s"] by (auto simp: last_index_byte_def split: option.split)

lemma last_index_byte_append [str_simps]:
  "c \<notin> set ys \<Longrightarrow> last_index_byte c (xs @ c # ys) = Some (length xs)"
  using index_byte_append [of c "rev ys" "rev xs"] by (simp add: last_index_byte_def)

lemma cut_byte_append [str_simps]: "c \<notin> set xs \<Longrightarrow> cut_byte c (xs @ c # ys) = (xs, ys)"
  by (simp add: cut_byte_def takeWhile_neq_append dropWhile_neq_append)

lemma cut_byte_none [str_simps]: "c \<notin> set xs \<Longrightarrow> cut_byte c xs = (xs, [])"
  by (simp add: cut_byte_def takeWhile_neq_id dropWhile_neq_Nil)

lemma has_prefix_append [str_simps]: "has_prefix (p @ s) p"
  by (simp add: has_prefix_def)

lemma has_prefixD: "has_prefix s p \<Longrightarrow> \<exists>t. s = p @ t"
  unfolding has_prefix_def by (metis append_take_drop_id)

section \<open>White space\<close>

text \<open>\<open>unicode.IsSpace\<close>.\<close>

definition space_runes :: "rune list" where
  "space_runes = [0x09, 0x0A, 0x0B, 0x0C, 0x0D, 0x20, 0x85, 0xA0, 0x1680, 0x2000, 0x2001, 0x2002,
     0x2003, 0x2004, 0x2005, 0x2006, 0x2007, 0x2008, 0x2009, 0x200A, 0x2028, 0x2029, 0x202F,
     0x205F, 0x3000]"

definition is_space :: "rune \<Rightarrow> bool" where
  "is_space r \<longleftrightarrow> r \<in> set space_runes"

text \<open>
  \<open>strings.TrimSpace\<close>. On the left, whole leading runes that are spaces go. On the right, the
  last rune of a string is a space exactly when the string ends with the encoding of one (UTF-8
  is self-synchronizing), so such endings go.
\<close>

fun trim_left_n :: "nat \<Rightarrow> string \<Rightarrow> string" where
  "trim_left_n 0 s = s"
| "trim_left_n (Suc n) s =
     (if s \<noteq> [] \<and> is_space (fst (decode_rune s))
      then trim_left_n n (drop (snd (decode_rune s)) s) else s)"

definition trim_left :: "string \<Rightarrow> string" where
  "trim_left s = trim_left_n (length s) s"

definition ends_with_space :: "string \<Rightarrow> string option" where
  "ends_with_space s = List.find (\<lambda>e. suffix e s) (map encode_rune space_runes)"

fun trim_right_n :: "nat \<Rightarrow> string \<Rightarrow> string" where
  "trim_right_n 0 s = s"
| "trim_right_n (Suc n) s =
     (case ends_with_space s of
        None \<Rightarrow> s
      | Some e \<Rightarrow> trim_right_n n (take (length s - length e) s))"

definition trim_right :: "string \<Rightarrow> string" where
  "trim_right s = trim_right_n (length s) s"

definition TrimSpace :: "string \<Rightarrow> string" where
  "TrimSpace s = trim_right (trim_left s)"

text \<open>Graphic ASCII bytes are what the addresses of the program consist of; trimming keeps a
  string of them, and removes the blanks around it.\<close>

definition graphic :: "char \<Rightarrow> bool" where
  "graphic c \<longleftrightarrow> 0x21 \<le> byte_val c \<and> byte_val c \<le> 0x7E"

lemma decode_rune_ascii [rune_simps]: "byte_val c < 0x80 \<Longrightarrow> decode_rune (c # cs) = (byte_val c, 1)"
  by (simp add: decode_rune_def decode_bytes.simps)

lemma graphic_not_space: "graphic c \<Longrightarrow> \<not> is_space (byte_val c)"
  by (auto simp: graphic_def is_space_def space_runes_def)

lemma trim_left_graphic [str_simps]: "s = [] \<or> graphic (hd s) \<Longrightarrow> trim_left s = s"
proof -
  assume s: "s = [] \<or> graphic (hd s)"
  show "trim_left s = s"
  proof (cases s)
    case Nil
    then show ?thesis by (simp add: trim_left_def)
  next
    case (Cons c cs)
    with s have "graphic c" by simp
    then have "byte_val c < 0x80" "\<not> is_space (byte_val c)"
      by (auto simp: graphic_not_space) (simp add: graphic_def)
    then show ?thesis using Cons by (simp add: trim_left_def decode_rune_ascii)
  qed
qed

lemma encode_space_last:
  assumes "r \<in> set space_runes"
  shows "encode_rune r \<noteq> []" "\<not> graphic (last (encode_rune r))"
proof -
  show ne: "encode_rune r \<noteq> []" by (simp add: encode_rune_def encode_bytes_nonempty)
  have "byte_val (last (encode_rune r)) = last (map of_char (encode_rune r))"
    using ne by (simp add: last_map)
  also have "\<dots> = last (encode_bytes r)" by (simp add: map_of_char_encode)
  finally have b: "byte_val (last (encode_rune r)) = last (encode_bytes r)" .
  have "r \<notin> {0x21..0x7E}" using assms by (auto simp: space_runes_def)
  then have "last (encode_bytes r) \<notin> {0x21..0x7E}"
    by (auto simp: encode_bytes.simps split: if_splits)
  with b show "\<not> graphic (last (encode_rune r))" by (simp add: graphic_def)
qed

lemma ends_with_space_graphic: "s = [] \<or> graphic (last s) \<Longrightarrow> ends_with_space s = None"
proof -
  assume s: "s = [] \<or> graphic (last s)"
  have "\<not> suffix (encode_rune r) s" if "r \<in> set space_runes" for r
  proof
    assume "suffix (encode_rune r) s"
    then obtain t where "s = t @ encode_rune r" by (auto simp: suffix_def)
    with encode_space_last [OF that] s show False by auto
  qed
  then show ?thesis by (auto simp: ends_with_space_def find_None_iff)
qed

lemma trim_right_graphic [str_simps]: "s = [] \<or> graphic (last s) \<Longrightarrow> trim_right s = s"
  by (cases "length s") (auto simp: trim_right_def ends_with_space_graphic)

lemma TrimSpace_graphic [str_simps]:
  "s = [] \<or> (graphic (hd s) \<and> graphic (last s)) \<Longrightarrow> TrimSpace s = s"
  by (auto simp: TrimSpace_def trim_left_graphic trim_right_graphic)

section \<open>Lower case\<close>

text \<open>
  \<open>strings.ToLower\<close>. The two non-ASCII runes that Unicode maps into ASCII are U+0130 and the
  Kelvin sign U+212A; every other non-ASCII rune maps to a non-ASCII one. The program only
  compares the result with ASCII words, for which it is immaterial which one: the model leaves
  it as it is.
\<close>

definition lower_rune :: "rune \<Rightarrow> rune" where
  "lower_rune r =
     (if 0x41 \<le> r \<and> r \<le> 0x5A then r + 0x20
      else if r = 0x130 then 0x69
      else if r = 0x212A then 0x6B
      else r)"

definition ToLower :: "string \<Rightarrow> string" where
  "ToLower s = strings_Map (\<lambda>r. Some (lower_rune r)) s"

definition lower_char :: "char \<Rightarrow> char" where
  "lower_char c = (if 0x41 \<le> byte_val c \<and> byte_val c \<le> 0x5A then char_of (byte_val c + 0x20) else c)"

lemma map_filter_Some: "List.map_filter (\<lambda>r. Some (f r)) xs = map f xs"
  by (induction xs) auto

lemma ToLower_ascii [str_simps]:
  assumes "\<forall>c \<in> set s. byte_val c < 0x80"
  shows "ToLower s = map lower_char s"
proof -
  have "\<forall>r \<in> set (map lower_rune (map of_char s)). r < 0x80"
    using assms by (auto simp: lower_rune_def)
  then have "ToLower s = map char_of (map lower_rune (map of_char s))"
    using assms by (simp add: ToLower_def strings_Map_def map_filter_Some runes_ascii
        string_of_runes_ascii del: map_map)
  also have "\<dots> = map lower_char s"
    using assms by (auto simp: lower_rune_def lower_char_def)
  finally show ?thesis .
qed

section \<open>Decimal numbers\<close>

definition digit_char :: "nat \<Rightarrow> char" where
  "digit_char d = char_of (0x30 + d)"

fun nat_digits :: "nat \<Rightarrow> string" where
  "nat_digits n = (if n < 10 then [digit_char n] else nat_digits (n div 10) @ [digit_char (n mod 10)])"

declare nat_digits.simps [simp del]

text \<open>\<open>strconv.Itoa\<close>.\<close>

definition Itoa :: "int \<Rightarrow> string" where
  "Itoa n = (if n < 0 then ''-'' @ nat_digits (nat (- n)) else nat_digits (nat n))"

definition is_digit :: "char \<Rightarrow> bool" where
  "is_digit c \<longleftrightarrow> 0x30 \<le> byte_val c \<and> byte_val c \<le> 0x39"

definition digit_val :: "char \<Rightarrow> nat" where
  "digit_val c = byte_val c - 0x30"

definition digits_val :: "string \<Rightarrow> nat" where
  "digits_val s = foldl (\<lambda>n c. 10 * n + digit_val c) 0 s"

lemma byte_val_digit_char [str_simps]: "d < 10 \<Longrightarrow> byte_val (digit_char d) = 0x30 + d"
  by (simp add: digit_char_def of_char_of)

lemma is_digit_digit_char [simp]: "d < 10 \<Longrightarrow> is_digit (digit_char d)"
  by (simp add: is_digit_def byte_val_digit_char)

lemma digit_val_digit_char [simp]: "d < 10 \<Longrightarrow> digit_val (digit_char d) = d"
  by (simp add: digit_val_def byte_val_digit_char)

lemma nat_digits_nonempty [simp]: "nat_digits n \<noteq> []"
  by (subst nat_digits.simps) simp

lemma nat_digits_all_digits: "c \<in> set (nat_digits n) \<Longrightarrow> is_digit c"
proof (induction n rule: nat_digits.induct)
  case (1 n)
  then show ?case
    by (cases "n < 10") (auto simp: nat_digits.simps [of n])
qed

lemma digits_val_nat_digits [simp]: "digits_val (nat_digits n) = n"
proof (induction n rule: nat_digits.induct)
  case (1 n)
  show ?case
  proof (cases "n < 10")
    case True
    then show ?thesis by (simp add: nat_digits.simps [of n] digits_val_def)
  next
    case False
    with 1 have "foldl (\<lambda>n c. 10 * n + digit_val c) 0 (nat_digits (n div 10)) = n div 10"
      by (simp add: digits_val_def)
    with False show ?thesis by (simp add: nat_digits.simps [of n] digits_val_def)
  qed
qed

section \<open>Host and port\<close>

text \<open>
  \<open>net.SplitHostPort\<close>: \<open>host:port\<close> or \<open>[host]:port\<close>. \<open>None\<close> stands for its errors, whose
  text the program does not look at.
\<close>

definition SplitHostPort :: "string \<Rightarrow> (string \<times> string) option" where
  "SplitHostPort hp =
     (case last_index_byte (CHR '':'') hp of
        None \<Rightarrow> None
      | Some i \<Rightarrow>
          let port = drop (i + 1) hp in
          if hd hp = CHR ''['' then
            (case index_byte (CHR '']'') hp of
               None \<Rightarrow> None
             | Some end \<Rightarrow>
                 if end + 1 \<noteq> i then None
                 else if CHR ''['' \<in> set (drop 1 hp) \<or> CHR '']'' \<in> set (drop (end + 1) hp) then None
                 else Some (drop 1 (take end hp), port))
          else if CHR '':'' \<in> set (take i hp) then None
          else if CHR ''['' \<in> set hp \<or> CHR '']'' \<in> set hp then None
          else Some (take i hp, port))"

definition plain_host :: "string \<Rightarrow> bool" where
  "plain_host h \<longleftrightarrow> CHR '':'' \<notin> set h \<and> CHR ''['' \<notin> set h \<and> CHR '']'' \<notin> set h"

lemma SplitHostPort_plain [str_simps]:
  assumes "plain_host h" "plain_host p"
  shows "SplitHostPort (h @ CHR '':'' # p) = Some (h, p)"
proof -
  have "hd (h @ CHR '':'' # p) \<noteq> CHR ''[''"
    using assms by (cases h) (auto simp: plain_host_def)
  then show ?thesis
    using assms by (auto simp: SplitHostPort_def plain_host_def last_index_byte_append)
qed

lemma SplitHostPort_bracket [str_simps]:
  assumes "CHR ''['' \<notin> set h" "CHR '']'' \<notin> set h" "plain_host p"
  shows "SplitHostPort (CHR ''['' # h @ CHR '']'' # CHR '':'' # p) = Some (h, p)"
proof -
  have l: "last_index_byte (CHR '':'') (CHR ''['' # h @ CHR '']'' # CHR '':'' # p)
      = Some (length h + 2)"
    using last_index_byte_append [of "CHR '':''" p "CHR ''['' # h @ [CHR '']'']"] assms(3)
    by (simp add: plain_host_def)
  have i: "index_byte (CHR '']'') (CHR ''['' # h @ CHR '']'' # CHR '':'' # p) = Some (length h + 1)"
    using index_byte_append [of "CHR '']''" "CHR ''['' # h" "CHR '':'' # p"] assms(2) by simp
  show ?thesis
    unfolding SplitHostPort_def l i using assms by (simp add: plain_host_def Let_def)
qed

lemma SplitHostPort_no_colon [str_simps]: "CHR '':'' \<notin> set h \<Longrightarrow> SplitHostPort h = None"
  by (simp add: SplitHostPort_def last_index_byte_None [THEN iffD2])

section \<open>HTTP headers\<close>

text \<open>
  \<open>http.Header\<close> maps canonical names to lists of values. \<open>Get\<close> canonicalizes the name it is
  given (first letter and letters after a hyphen in upper case, the others in lower case; a name
  with a byte that is not a token byte is left alone) and returns the first value, or \<open>""\<close>.
\<close>

type_synonym header = "string \<Rightarrow> string list"

definition upper_char :: "char \<Rightarrow> char" where
  "upper_char c = (if 0x61 \<le> byte_val c \<and> byte_val c \<le> 0x7A then char_of (byte_val c - 0x20) else c)"

definition is_letter :: "char \<Rightarrow> bool" where
  "is_letter c \<longleftrightarrow> (0x61 \<le> byte_val c \<and> byte_val c \<le> 0x7A) \<or> (0x41 \<le> byte_val c \<and> byte_val c \<le> 0x5A)"

definition token_byte :: "char \<Rightarrow> bool" where
  "token_byte c \<longleftrightarrow> is_letter c \<or> is_digit c \<or> c \<in> set ''!#$%&*+-.^_`|~'' \<or> c = CHR 0x27"

fun canonical_bytes :: "bool \<Rightarrow> string \<Rightarrow> string" where
  "canonical_bytes up [] = []"
| "canonical_bytes up (c # cs) =
     (if up then upper_char c else lower_char c) # canonical_bytes (c = CHR ''-'') cs"

definition CanonicalHeaderKey :: "string \<Rightarrow> string" where
  "CanonicalHeaderKey k = (if list_all token_byte k then canonical_bytes True k else k)"

definition header_get :: "header \<Rightarrow> string \<Rightarrow> string" where
  "header_get h k = (case h (CanonicalHeaderKey k) of [] \<Rightarrow> '''' | v # _ \<Rightarrow> v)"

section \<open>Trimming has fuel enough\<close>

lemma trim_left_fuel: "length s \<le> n \<Longrightarrow> trim_left_n n s = trim_left s"
  unfolding trim_left_def
proof (rule enough_fuel)
  show "length s \<le> n \<Longrightarrow> trim_left_n (Suc n) s = trim_left_n n s" for n s
  proof (induction n arbitrary: s)
    case (Suc n)
    show ?case
    proof (cases "s \<noteq> [] \<and> is_space (fst (decode_rune s))")
      case True
      then have "1 \<le> snd (decode_rune s)" using decode_bytes_step by (simp add: decode_rune_def)
      then have "trim_left_n (Suc n) (drop (snd (decode_rune s)) s) = trim_left_n n (drop (snd (decode_rune s)) s)"
        using Suc.prems by (intro Suc.IH) simp
      then show ?thesis unfolding trim_left_n.simps(2) [of "Suc n" s] trim_left_n.simps(2) [of n s] by simp
    next
      case False
      then show ?thesis unfolding trim_left_n.simps(2) [of "Suc n" s] trim_left_n.simps(2) [of n s] by (simp only: if_False)
    qed
  qed simp
qed

lemma encode_rune_nonempty: "encode_rune r \<noteq> []"
  by (auto simp: encode_rune_def encode_bytes.simps Let_def)

lemma ends_with_space_Some: "ends_with_space s = Some e \<Longrightarrow> e \<noteq> [] \<and> length e \<le> length s"
proof -
  assume "ends_with_space s = Some e"
  then obtain i where i: "i < length (map encode_rune space_runes)" "e = map encode_rune space_runes ! i" "suffix e s"
    unfolding ends_with_space_def find_Some_iff by blast
  have "e \<noteq> []" using i(1) encode_rune_nonempty unfolding i(2) by (simp only: length_map nth_map) simp
  then show ?thesis using suffix_length_le [OF i(3)] by blast
qed

lemma trim_right_fuel: "length s \<le> n \<Longrightarrow> trim_right_n n s = trim_right s"
  unfolding trim_right_def
proof (rule enough_fuel)
  show "length s \<le> n \<Longrightarrow> trim_right_n (Suc n) s = trim_right_n n s" for n s
  proof (induction n arbitrary: s)
    case 0
    then show ?case using ends_with_space_Some [of s] by (cases "ends_with_space s") auto
  next
    case (Suc n)
    show ?case
    proof (cases "ends_with_space s")
      case None
      then show ?thesis unfolding trim_right_n.simps(2) [of "Suc n" s] trim_right_n.simps(2) [of n s] by simp
    next
      case (Some e)
      then have "0 < length e" "length e \<le> length s" using ends_with_space_Some by auto
      then have "trim_right_n (Suc n) (take (length s - length e) s) = trim_right_n n (take (length s - length e) s)"
        using Suc.prems by (intro Suc.IH, unfold length_take) linarith
      then show ?thesis unfolding trim_right_n.simps(2) [of "Suc n" s] trim_right_n.simps(2) [of n s] Some by simp
    qed
  qed
qed

end
