(* ===== verification/GoUrl.thy ===== *)
theory GoUrl
  imports GoStrings
begin

text \<open>
  What the source uses of Go's \<open>net/url\<close>: \<open>url.Parse\<close>, \<open>URL.String\<close>,
  percent-encoding and decoding. The validation and decoding of a \<open>host[:port]\<close> differs between
  Go releases (IPv6 literals, stray colons), so it is a parameter: every definition that parses
  takes a function \<open>hp\<close> from the raw host to the decoded one, or \<open>None\<close> when the release
  rejects it. \<open>None\<close> stands for an error, whose text the program only prints.

  The lemmas show that a rendered URL starts with its scheme, that rendering never emits a control
  byte, and how the parser treats the authority of an \<open>http\<close> URL.
\<close>

section \<open>Percent-encoding\<close>

datatype encoding = encodePath | encodeHost | encodeUserPassword | encodeQueryComponent | encodeFragment

definition is_alnum :: "char \<Rightarrow> bool" where
  "is_alnum c \<longleftrightarrow> is_letter c \<or> is_digit c"

definition shouldEscape :: "char \<Rightarrow> encoding \<Rightarrow> bool" where
  "shouldEscape c mode =
     (if is_alnum c then False
      else if mode = encodeHost \<and> (c \<in> set ''!$&()*+,;=:[]<>'' \<or> c = CHR 0x27 \<or> c = CHR 0x22) then False
      else if c \<in> set ''-_.~'' then False
      else if c \<in> set ''$&+,/:;=?@'' \<and> mode \<noteq> encodeHost then
        (case mode of
           encodePath \<Rightarrow> c = CHR ''?''
         | encodeUserPassword \<Rightarrow> c \<in> set ''@/?:''
         | encodeQueryComponent \<Rightarrow> True
         | _ \<Rightarrow> False)
      else if mode = encodeFragment \<and> c \<in> set ''!()*'' then False
      else True)"

definition hex_char :: "nat \<Rightarrow> char" where
  "hex_char n = (if n < 10 then char_of (0x30 + n) else char_of (0x37 + n))"

definition pct :: "char \<Rightarrow> string" where
  "pct c = [CHR ''%'', hex_char (byte_val c div 16), hex_char (byte_val c mod 16)]"

definition escape_char :: "encoding \<Rightarrow> char \<Rightarrow> string" where
  "escape_char mode c =
     (if shouldEscape c mode
      then (if c = CHR '' '' \<and> mode = encodeQueryComponent then ''+'' else pct c)
      else [c])"

definition url_escape :: "string \<Rightarrow> encoding \<Rightarrow> string" where
  "url_escape s mode = concat (map (escape_char mode) s)"

definition hex_val :: "char \<Rightarrow> nat option" where
  "hex_val c =
     (let b = byte_val c in
      if 0x30 \<le> b \<and> b \<le> 0x39 then Some (b - 0x30)
      else if 0x61 \<le> b \<and> b \<le> 0x66 then Some (b - 0x61 + 10)
      else if 0x41 \<le> b \<and> b \<le> 0x46 then Some (b - 0x41 + 10)
      else None)"

text \<open>\<open>unescape\<close> outside the host: \<open>None\<close> for a percent sign that two hexadecimal digits do not
  follow; a plus sign is a space in a query component.\<close>

fun url_unescape :: "string \<Rightarrow> encoding \<Rightarrow> string option" where
  "url_unescape [] mode = Some []"
| "url_unescape (c # cs) mode =
     (if c = CHR ''%'' then
        (case cs of
           h # l # rest \<Rightarrow>
             (case (hex_val h, hex_val l) of
                (Some a, Some b) \<Rightarrow> map_option ((#) (char_of (a * 16 + b))) (url_unescape rest mode)
              | _ \<Rightarrow> None)
         | _ \<Rightarrow> None)
      else map_option ((#) (if c = CHR ''+'' \<and> mode = encodeQueryComponent then CHR '' '' else c))
             (url_unescape cs mode))"

definition validEncoded :: "string \<Rightarrow> encoding \<Rightarrow> bool" where
  "validEncoded s mode =
     list_all (\<lambda>c. c \<in> set ''!$&()*+,;=:@[]%'' \<or> c = CHR 0x27 \<or> \<not> shouldEscape c mode) s"

section \<open>The URL value\<close>

record url =
  Scheme :: string
  Opaque :: string
  User :: "(string \<times> string option) option"
  Host :: string
  Path :: string
  RawPath :: string
  OmitHost :: bool
  ForceQuery :: bool
  RawQuery :: string
  Fragment :: string
  RawFragment :: string

definition empty_url :: url where
  "empty_url = \<lparr>Scheme = [], Opaque = [], User = None, Host = [], Path = [], RawPath = [],
     OmitHost = False, ForceQuery = False, RawQuery = [], Fragment = [], RawFragment = []\<rparr>"

section \<open>Parsing\<close>

definition ctl_byte :: "char \<Rightarrow> bool" where
  "ctl_byte c \<longleftrightarrow> byte_val c < 0x20 \<or> byte_val c = 0x7F"

text \<open>\<open>getScheme\<close>: \<open>None\<close> for a leading colon, otherwise the scheme (possibly empty) and the
  rest. The first argument is the part already read.\<close>

fun getScheme_from :: "string \<Rightarrow> string \<Rightarrow> (string \<times> string) option" where
  "getScheme_from acc [] = Some ([], acc)"
| "getScheme_from acc (c # cs) =
     (if is_letter c then getScheme_from (acc @ [c]) cs
      else if is_digit c \<or> c \<in> set ''+-.'' then
        (if acc = [] then Some ([], c # cs) else getScheme_from (acc @ [c]) cs)
      else if c = CHR '':'' then (if acc = [] then None else Some (acc, cs))
      else Some ([], acc @ c # cs))"

definition getScheme :: "string \<Rightarrow> (string \<times> string) option" where
  "getScheme s = getScheme_from [] s"

definition validUserinfo :: "string \<Rightarrow> bool" where
  "validUserinfo s = list_all (\<lambda>c. is_alnum c \<or> c \<in> set ''-._:~!$&()*+,;=%@'' \<or> c = CHR 0x27) s"

definition parseUserinfo :: "string \<Rightarrow> (string \<times> string option) option" where
  "parseUserinfo ui =
     (if \<not> validUserinfo ui then None
      else if \<not> contains_byte ui (CHR '':'') then
        map_option (\<lambda>u. (u, None)) (url_unescape ui encodeUserPassword)
      else
        (let (n, p) = cut_byte (CHR '':'') ui in
         case (url_unescape n encodeUserPassword, url_unescape p encodeUserPassword) of
           (Some n', Some p') \<Rightarrow> Some (n', Some p')
         | _ \<Rightarrow> None))"

definition parseAuthority ::
  "(string \<Rightarrow> string option) \<Rightarrow> string \<Rightarrow> ((string \<times> string option) option \<times> string) option" where
  "parseAuthority hp a =
     (case last_index_byte (CHR ''@'') a of
        None \<Rightarrow> map_option (\<lambda>h. (None, h)) (hp a)
      | Some i \<Rightarrow>
          (case hp (drop (i + 1) a) of
             None \<Rightarrow> None
           | Some h \<Rightarrow> map_option (\<lambda>u. (Some u, h)) (parseUserinfo (take i a))))"

definition setPath :: "url \<Rightarrow> string \<Rightarrow> url option" where
  "setPath u p =
     (case url_unescape p encodePath of
        None \<Rightarrow> None
      | Some path \<Rightarrow>
          Some (u\<lparr>Path := path, RawPath := (if p = url_escape path encodePath then [] else p)\<rparr>))"

definition setFragment :: "url \<Rightarrow> string \<Rightarrow> url option" where
  "setFragment u f =
     (case url_unescape f encodeFragment of
        None \<Rightarrow> None
      | Some frag \<Rightarrow>
          Some (u\<lparr>Fragment := frag,
                  RawFragment := (if f = url_escape frag encodeFragment then [] else f)\<rparr>))"

text \<open>The split of the query: a single question mark at the very end only forces an empty one.\<close>

definition split_query :: "string \<Rightarrow> string \<times> string \<times> bool" where
  "split_query rest =
     (if rest \<noteq> [] \<and> last rest = CHR ''?'' \<and> count_list rest (CHR ''?'') = 1
      then (butlast rest, [], True)
      else (let (r, q) = cut_byte (CHR ''?'') rest in (r, q, False)))"

text \<open>The part of \<open>parse\<close> after scheme and query: authority, path.\<close>

definition parse_hier :: "(string \<Rightarrow> string option) \<Rightarrow> url \<Rightarrow> string \<Rightarrow> url option" where
  "parse_hier hp u rest =
     (if (Scheme u \<noteq> [] \<or> \<not> has_prefix rest ''///'') \<and> has_prefix rest ''//'' then
        (let a = drop 2 rest;
             auth = takeWhile (\<lambda>c. c \<noteq> CHR ''/'') a;
             path = dropWhile (\<lambda>c. c \<noteq> CHR ''/'') a
         in case parseAuthority hp auth of
              None \<Rightarrow> None
            | Some (usr, h) \<Rightarrow> setPath (u\<lparr>User := usr, Host := h\<rparr>) path)
      else if Scheme u \<noteq> [] \<and> has_prefix rest ''/'' then setPath (u\<lparr>OmitHost := True\<rparr>) rest
      else setPath u rest)"

definition parse_core :: "(string \<Rightarrow> string option) \<Rightarrow> string \<Rightarrow> url option" where
  "parse_core hp s =
     (if list_ex ctl_byte s then None
      else if s = ''*'' then Some (empty_url\<lparr>Path := ''*''\<rparr>)
      else
        (case getScheme s of
           None \<Rightarrow> None
         | Some (sch, rest0) \<Rightarrow>
             (let scheme = ToLower sch;
                  (rest, query, force) = split_query rest0;
                  u = empty_url\<lparr>Scheme := scheme, RawQuery := query, ForceQuery := force\<rparr>
              in if \<not> has_prefix rest ''/'' \<and> scheme \<noteq> [] then Some (u\<lparr>Opaque := rest\<rparr>)
                 else if \<not> has_prefix rest ''/''
                         \<and> contains_byte (fst (cut_byte (CHR ''/'') rest)) (CHR '':'') then None
                 else parse_hier hp u rest)))"

text \<open>\<open>url.Parse\<close>. The fragment is cut off before anything else is checked.\<close>

definition url_Parse :: "(string \<Rightarrow> string option) \<Rightarrow> string \<Rightarrow> url option" where
  "url_Parse hp s =
     (let (u, frag) = cut_byte (CHR ''#'') s in
      case parse_core hp u of
        None \<Rightarrow> None
      | Some v \<Rightarrow> if frag = [] then Some v else setFragment v frag)"

section \<open>Rendering\<close>

definition EscapedPath :: "url \<Rightarrow> string" where
  "EscapedPath u =
     (if RawPath u \<noteq> [] \<and> validEncoded (RawPath u) encodePath
           \<and> url_unescape (RawPath u) encodePath = Some (Path u)
      then RawPath u
      else if Path u = ''*'' then ''*''
      else url_escape (Path u) encodePath)"

definition EscapedFragment :: "url \<Rightarrow> string" where
  "EscapedFragment u =
     (if RawFragment u \<noteq> [] \<and> validEncoded (RawFragment u) encodeFragment
           \<and> url_unescape (RawFragment u) encodeFragment = Some (Fragment u)
      then RawFragment u
      else url_escape (Fragment u) encodeFragment)"

fun userinfo_String :: "string \<times> string option \<Rightarrow> string" where
  "userinfo_String (n, Some p) =
     url_escape n encodeUserPassword @ '':'' @ url_escape p encodeUserPassword"
| "userinfo_String (n, None) = url_escape n encodeUserPassword"

definition render_authority :: "url \<Rightarrow> string" where
  "render_authority u =
     (if Scheme u \<noteq> [] \<or> Host u \<noteq> [] \<or> User u \<noteq> None then
        (if OmitHost u \<and> Host u = [] \<and> User u = None then []
         else (if Host u \<noteq> [] \<or> Path u \<noteq> [] \<or> User u \<noteq> None then ''//'' else [])
              @ (case User u of None \<Rightarrow> [] | Some ui \<Rightarrow> userinfo_String ui @ ''@'')
              @ (if Host u \<noteq> [] then url_escape (Host u) encodeHost else []))
      else [])"

definition render_scheme :: "url \<Rightarrow> string" where
  "render_scheme u = (if Scheme u \<noteq> [] then Scheme u @ '':'' else [])"

definition render_path :: "url \<Rightarrow> string" where
  "render_path u =
     (let p = EscapedPath u;
          before = render_scheme u @ render_authority u;
          slash = (if p \<noteq> [] \<and> hd p \<noteq> CHR ''/'' \<and> Host u \<noteq> [] then ''/'' else []);
          dot = (if before @ slash = [] \<and> contains_byte (fst (cut_byte (CHR ''/'') p)) (CHR '':'')
                 then ''./'' else [])
      in slash @ dot @ p)"

text \<open>\<open>URL.String\<close>.\<close>

definition url_String :: "url \<Rightarrow> string" where
  "url_String u =
     render_scheme u
     @ (if Opaque u \<noteq> [] then Opaque u else render_authority u @ render_path u)
     @ (if ForceQuery u \<or> RawQuery u \<noteq> [] then ''?'' @ RawQuery u else [])
     @ (if Fragment u \<noteq> [] then ''#'' @ EscapedFragment u else [])"

text \<open>
  A concrete host function for evaluations: a registered name or an IPv4 address in lower-case
  letters, digits, dots and hyphens, with an optional numeric port.
\<close>

definition simple_host :: "string \<Rightarrow> string option" where
  "simple_host h =
     (let (n, p) = cut_byte (CHR '':'') h in
      if list_all (\<lambda>c. is_alnum c \<or> c \<in> set ''.-'') n \<and> list_all is_digit p then Some h else None)"

section \<open>The rendered URL starts with its scheme\<close>

lemma has_prefix_scheme: "Scheme u \<noteq> [] \<Longrightarrow> has_prefix (url_String u) (Scheme u @ '':'')"
  by (simp add: has_prefix_def url_String_def render_scheme_def)

lemma getScheme_from_letters:
  "getScheme_from acc s = Some (sch, rest) \<Longrightarrow> sch \<noteq> [] \<Longrightarrow> acc @ s = sch @ CHR '':'' # rest"
  by (induction acc s rule: getScheme_from.induct) (auto split: if_splits)

lemma getScheme_from_http: 
  "list_all is_letter s \<Longrightarrow> acc @ s \<noteq> [] \<Longrightarrow> getScheme_from acc (s @ CHR '':'' # t) = Some (acc @ s, t)"
  by (induction s arbitrary: acc) (auto simp: is_letter_def is_digit_def)

section \<open>Rendering emits no control byte\<close>

text \<open>Bytes an escaped string can consist of.\<close>

definition noctl :: "string \<Rightarrow> bool" where
  "noctl s \<longleftrightarrow> list_all (\<lambda>c. \<not> ctl_byte c) s"

lemma noctl_append [simp]: "noctl (s @ t) \<longleftrightarrow> noctl s \<and> noctl t"
  by (simp add: noctl_def)

lemma noctl_Nil [simp]: "noctl []"
  by (simp add: noctl_def)

lemma noctl_Cons: "noctl (c # s) \<longleftrightarrow> \<not> ctl_byte c \<and> noctl s"
  by (simp add: noctl_def)

lemma noctl_iff: "noctl s \<longleftrightarrow> \<not> list_ex ctl_byte s"
  by (simp add: noctl_def list_all_iff list_ex_iff)

lemma noctl_literals:
  "noctl ''!$&()*+,;=:[]<>''" "noctl ''-_.~''" "noctl ''$&+,/:;=?@''" "noctl ''!()*''"
  "noctl ''!$&()*+,;=:@[]%''" "noctl ''*''"
  by (simp_all add: noctl_def ctl_byte_def)

lemma noctl_not_in: "noctl s \<Longrightarrow> ctl_byte c \<Longrightarrow> c \<notin> set s"
  by (auto simp: noctl_def list_all_iff)

lemma ctl_not_alnum: "ctl_byte c \<Longrightarrow> \<not> is_alnum c"
  by (auto simp: ctl_byte_def is_alnum_def is_letter_def is_digit_def)

lemma ctl_not_quote: "ctl_byte c \<Longrightarrow> c \<noteq> CHR 0x27" "ctl_byte c \<Longrightarrow> c \<noteq> CHR 0x22"
  "ctl_byte c \<Longrightarrow> c \<noteq> CHR '' ''"
  by (auto simp: ctl_byte_def)

lemma ctl_shouldEscape:
  assumes "ctl_byte c"
  shows "shouldEscape c mode"
proof -
  note out = noctl_literals [THEN noctl_not_in, OF assms]
  show ?thesis
    unfolding shouldEscape_def
    by (simp only: out ctl_not_alnum [OF assms] ctl_not_quote [OF assms] if_False simp_thms if_cancel)
qed

lemma hex_char_noctl: "n < 16 \<Longrightarrow> \<not> ctl_byte (hex_char n)"
  by (auto simp: hex_char_def ctl_byte_def of_char_of)

lemma escape_char_noctl: "noctl (escape_char mode c)"
proof -
  have "byte_val c div 16 < 16" using byte_val_less [of c] by linarith
  then have "noctl (pct c)"
    by (simp add: pct_def noctl_Cons hex_char_noctl) (simp add: ctl_byte_def)
  then show ?thesis
    using ctl_shouldEscape [of c mode] by (auto simp: escape_char_def noctl_Cons ctl_byte_def)
qed

lemma url_escape_noctl [simp]: "noctl (url_escape s mode)"
proof -
  have "noctl (concat (map (escape_char mode) s))"
    by (induction s) (auto simp: escape_char_noctl)
  then show ?thesis by (simp add: url_escape_def)
qed

lemma validEncoded_noctl: "validEncoded s mode \<Longrightarrow> noctl s"
  unfolding validEncoded_def noctl_def list_all_iff
  using ctl_shouldEscape noctl_not_in [OF noctl_literals(5)] ctl_not_quote(1) by blast

lemma EscapedPath_noctl: "noctl (EscapedPath u)"
  by (auto simp: EscapedPath_def noctl_literals dest: validEncoded_noctl)

lemma EscapedFragment_noctl: "noctl (EscapedFragment u)"
  by (auto simp: EscapedFragment_def dest: validEncoded_noctl)

lemma userinfo_String_noctl: "noctl (userinfo_String ui)"
  by (cases ui rule: userinfo_String.cases) (auto simp: noctl_Cons ctl_byte_def)

lemma render_noctl: "noctl (Scheme u) \<Longrightarrow> noctl (render_scheme u)"
  "noctl (render_authority u)" "noctl (render_path u)"
  by (auto simp: render_scheme_def render_authority_def render_path_def Let_def noctl_Cons
      EscapedPath_noctl userinfo_String_noctl ctl_byte_def split: option.split)

lemma url_String_noctl:
  "noctl (Scheme u) \<Longrightarrow> noctl (Opaque u) \<Longrightarrow> noctl (RawQuery u) \<Longrightarrow> noctl (url_String u)"
  by (auto simp: url_String_def render_noctl noctl_Cons EscapedFragment_noctl)
    (auto simp: ctl_byte_def)

section \<open>What a parsed URL is made of\<close>

definition scheme_char :: "char \<Rightarrow> bool" where
  "scheme_char c \<longleftrightarrow> is_alnum c \<or> c \<in> set ''+-.''"

lemma getScheme_from_chars:
  "getScheme_from acc s = Some (sch, rest) \<Longrightarrow> list_all scheme_char acc
     \<Longrightarrow> list_all scheme_char sch \<and> set rest \<subseteq> set acc \<union> set s"
  by (induction acc s rule: getScheme_from.induct)
    (auto simp: scheme_char_def is_alnum_def split: if_splits)

lemma getScheme_parts:
  "getScheme s = Some (sch, rest) \<Longrightarrow> list_all scheme_char sch \<and> set rest \<subseteq> set s"
  using getScheme_from_chars [of "[]" s sch rest] by (simp add: getScheme_def)

lemma scheme_char_ascii: "scheme_char c \<Longrightarrow> byte_val c < 0x80 \<and> \<not> ctl_byte c"
  by (auto simp: scheme_char_def is_alnum_def is_letter_def is_digit_def ctl_byte_def)

lemma lower_char_noctl: "\<not> ctl_byte c \<Longrightarrow> \<not> ctl_byte (lower_char c)"
  by (auto simp: lower_char_def ctl_byte_def of_char_of)

lemma ToLower_scheme_noctl: "list_all scheme_char sch \<Longrightarrow> noctl (ToLower sch)"
  using scheme_char_ascii lower_char_noctl
  by (simp add: ToLower_ascii noctl_def list_all_iff)

lemma set_cut_byte: "set (fst (cut_byte c s)) \<subseteq> set s" "set (snd (cut_byte c s)) \<subseteq> set s"
  by (auto simp: cut_byte_def dest: set_takeWhileD set_dropWhileD in_set_dropD)

lemma split_query_parts:
  "split_query rest = (r, q, f) \<Longrightarrow> set r \<subseteq> set rest \<and> set q \<subseteq> set rest"
  using set_cut_byte [of "CHR ''?''" rest]
  by (auto simp: split_query_def Let_def split: if_splits prod.splits dest: in_set_butlastD)

lemma setPath_frame:
  "setPath u p = Some v \<Longrightarrow> Scheme v = Scheme u \<and> Opaque v = Opaque u \<and> RawQuery v = RawQuery u
     \<and> ForceQuery v = ForceQuery u \<and> User v = User u \<and> Host v = Host u"
  by (auto simp: setPath_def split: option.splits)

lemma setFragment_frame:
  "setFragment u p = Some v \<Longrightarrow> Scheme v = Scheme u \<and> Opaque v = Opaque u \<and> RawQuery v = RawQuery u
     \<and> ForceQuery v = ForceQuery u \<and> User v = User u \<and> Host v = Host u"
  by (auto simp: setFragment_def split: option.splits)

lemma parse_hier_frame:
  "parse_hier hp u rest = Some v \<Longrightarrow> Scheme v = Scheme u \<and> Opaque v = Opaque u \<and> RawQuery v = RawQuery u"
  by (auto simp: parse_hier_def Let_def split: if_splits option.splits dest: setPath_frame)

lemma parse_core_parts:
  assumes "parse_core hp s = Some u"
  shows "noctl (Scheme u) \<and> set (Opaque u) \<subseteq> set s \<and> set (RawQuery u) \<subseteq> set s \<and> noctl s"
proof (cases "s = ''*''")
  case True
  then show ?thesis using assms
    by (auto simp: parse_core_def empty_url_def noctl_iff split: if_splits)
next
  case False
  obtain sch rest0 where g: "getScheme s = Some (sch, rest0)"
    using assms False by (auto simp: parse_core_def split: option.splits if_splits)
  obtain rest q f where sq: "split_query rest0 = (rest, q, f)" by (cases "split_query rest0")
  have parts: "set rest \<subseteq> set s" "set q \<subseteq> set s"
    using getScheme_parts [OF g] split_query_parts [OF sq] by auto
  have sn: "noctl (ToLower sch)" using getScheme_parts [OF g] by (simp add: ToLower_scheme_noctl)
  have ns: "noctl s" using assms by (auto simp: parse_core_def noctl_iff split: if_splits)
  show ?thesis
    using assms False sn ns parts
    by (auto simp: parse_core_def g sq Let_def empty_url_def split: if_splits dest!: parse_hier_frame)
qed

lemma noctl_subset: "noctl s \<Longrightarrow> set t \<subseteq> set s \<Longrightarrow> noctl t"
  by (auto simp: noctl_def list_all_iff)

lemma url_Parse_parts:
  assumes "url_Parse hp s = Some u"
  shows "noctl (Scheme u) \<and> noctl (Opaque u) \<and> noctl (RawQuery u)"
proof -
  obtain v where v: "parse_core hp (fst (cut_byte (CHR ''#'') s)) = Some v"
    and fr: "Scheme u = Scheme v \<and> Opaque u = Opaque v \<and> RawQuery u = RawQuery v"
    using assms
    by (auto simp: url_Parse_def Let_def split: prod.splits option.splits if_splits
        dest!: setFragment_frame)
  show ?thesis
    using parse_core_parts [OF v] fr by (auto intro: noctl_subset)
qed

text \<open>Hence no parsed URL renders with a control byte.\<close>

lemma url_String_parsed_noctl: "url_Parse hp s = Some u \<Longrightarrow> noctl (url_String u)"
  using url_Parse_parts by (blast intro: url_String_noctl)

section \<open>The authority of a URL with a scheme\<close>

text \<open>
  A string of the form \<open>scheme://authority tail\<close>, where the authority has no slash, question
  mark or hash sign and the tail is empty or starts with one of these: how it is parsed depends on
  the authority only through \<open>parseAuthority\<close>.
\<close>

definition authority_chars :: "string \<Rightarrow> bool" where
  "authority_chars a \<longleftrightarrow> CHR ''/'' \<notin> set a \<and> CHR ''?'' \<notin> set a \<and> CHR ''#'' \<notin> set a"

definition url_tail :: "string \<Rightarrow> bool" where
  "url_tail t \<longleftrightarrow> t = [] \<or> hd t \<in> {CHR ''/'', CHR ''?'', CHR ''#''}"

definition path_or_query :: "string \<Rightarrow> bool" where
  "path_or_query t \<longleftrightarrow> t = [] \<or> hd t \<in> {CHR ''/'', CHR ''?''}"

lemma split_query_prefix:
  assumes "CHR ''?'' \<notin> set a" "split_query t = (p, q, f)"
  shows "split_query (a @ t) = (a @ p, q, f)"
proof (cases "t = []")
  case True
  then show ?thesis using assms last_in_set [of a]
    by (auto simp: split_query_def Let_def cut_byte_none)
next
  case False
  have "count_list a (CHR ''?'') = 0" using assms(1) by (simp add: count_list_0_iff)
  moreover have "cut_byte (CHR ''?'') (a @ t) = (a @ fst (cut_byte (CHR ''?'') t), snd (cut_byte (CHR ''?'') t))"
    using assms(1) by (simp add: cut_byte_def takeWhile_append dropWhile_append)
  ultimately show ?thesis using assms False
    by (auto simp: split_query_def Let_def butlast_append split: if_splits prod.splits)
qed

lemma split_query_path:
  assumes "path_or_query t" "split_query t = (p, q, f)"
  shows "p = [] \<or> hd p = CHR ''/''"
proof (cases t)
  case Nil
  then show ?thesis using assms by (auto simp: split_query_def cut_byte_none)
next
  case (Cons c cs)
  then show ?thesis using assms last_in_set [of cs]
    by (cases "c = CHR ''?''")
      (auto simp: split_query_def path_or_query_def cut_byte_def count_list_0_iff split: if_splits,
       metis last_in_set)
qed

lemma parse_hier_authority:
  assumes "Scheme u \<noteq> []" "authority_chars a" "p = [] \<or> hd p = CHR ''/''"
  shows "parse_hier hp u (''//'' @ a @ p) =
    (case parseAuthority hp a of
       None \<Rightarrow> None | Some (usr, h) \<Rightarrow> setPath (u\<lparr>User := usr, Host := h\<rparr>) p)"
proof -
  have tw: "takeWhile (\<lambda>c. c \<noteq> CHR ''/'') (a @ p) = a" "dropWhile (\<lambda>c. c \<noteq> CHR ''/'') (a @ p) = p"
    using assms(2,3)
    by (cases p; auto simp: authority_chars_def takeWhile_neq_append dropWhile_neq_append
        takeWhile_neq_id dropWhile_neq_Nil)+
  have pre: "has_prefix (''//'' @ a @ p) ''//''" "drop 2 (''//'' @ a @ p) = a @ p"
    by (simp_all add: has_prefix_def)
  show ?thesis
    by (simp only: parse_hier_def Let_def pre tw assms(1) simp_thms if_True not_False_eq_True)
qed

definition http_scheme :: "string \<Rightarrow> bool" where
  "http_scheme sch \<longleftrightarrow> sch = ''http'' \<or> sch = ''https''"

lemma http_scheme_letters: "http_scheme sch \<Longrightarrow> list_all is_letter sch \<and> sch \<noteq> [] \<and> ToLower sch = sch"
  by (auto simp: http_scheme_def is_letter_def ToLower_ascii lower_char_def)

lemma parse_core_authority:
  assumes "http_scheme sch" "authority_chars a" "path_or_query t" "split_query t = (p, q, f)"
  shows "parse_core hp (sch @ ''://'' @ a @ t) =
    (if list_ex ctl_byte a \<or> list_ex ctl_byte t then None
     else case parseAuthority hp a of
            None \<Rightarrow> None
          | Some (usr, h) \<Rightarrow>
              setPath (empty_url\<lparr>Scheme := sch, RawQuery := q, ForceQuery := f, User := usr, Host := h\<rparr>) p)"
proof -
  let ?s = "sch @ ''://'' @ a @ t"
  note sch = http_scheme_letters [OF assms(1)]
  have g: "getScheme ?s = Some (sch, ''//'' @ a @ t)"
    using getScheme_from_http [of sch "[]" "''//'' @ a @ t"] sch by (simp add: getScheme_def)
  have sq: "split_query (''//'' @ a @ t) = (''//'' @ a @ p, q, f)"
    using split_query_prefix [of "''//'' @ a", OF _ assms(4)] assms(2) by (simp add: authority_chars_def)
  have c: "list_ex ctl_byte ?s \<longleftrightarrow> list_ex ctl_byte a \<or> list_ex ctl_byte t"
    using assms(1) by (auto simp: http_scheme_def ctl_byte_def)
  have star: "?s \<noteq> ''*''" using assms(1) by (auto simp: http_scheme_def)
  have pre: "has_prefix (''//'' @ a @ p) ''/''" by (simp add: has_prefix_def)
  have ph: "p = [] \<or> hd p = CHR ''/''" by (rule split_query_path [OF assms(3,4)])
  show ?thesis
    using star pre sch
    by (simp only: parse_core_def g c option.case prod.case sq Let_def if_False not_True_eq_False simp_thms
        parse_hier_authority [OF _ assms(2) ph] url.simps empty_url_def)
qed

end
