(* ===== verification/GoTime.thy ===== *)
theory GoTime
  imports GoStrings "HOL-Library.Monad_Syntax"
begin

text \<open>
  What the source uses of Go's \<open>time\<close> package: \<open>time.Parse\<close> for layouts made of a four-digit
  year, two-digit month and day, hour, minute, second and a zone, and \<open>Time.Format\<close> with the
  layout \<open>2 Jan 2006\<close>. A parsed time is kept as its civil date: \<open>Format\<close> prints the date in
  the zone that was parsed (or in the local zone when it has the same offset), so the instant and
  the zone do not influence the result. The lemmas relate parsing to printing.
\<close>

section \<open>Calendar\<close>

definition isLeap :: "nat \<Rightarrow> bool" where
  "isLeap y \<longleftrightarrow> y mod 4 = 0 \<and> (y mod 100 \<noteq> 0 \<or> y mod 400 = 0)"

definition daysIn :: "nat \<Rightarrow> nat \<Rightarrow> nat" where
  "daysIn m y = (if m = 2 then (if isLeap y then 29 else 28) else 30 + (m + m div 8) mod 2)"

record civil_date =
  c_year :: nat
  c_month :: nat
  c_day :: nat

definition valid_date :: "civil_date \<Rightarrow> bool" where
  "valid_date d \<longleftrightarrow> c_year d < 10000 \<and> 1 \<le> c_month d \<and> c_month d \<le> 12
     \<and> 1 \<le> c_day d \<and> c_day d \<le> daysIn (c_month d) (c_year d)"

lemma daysIn_le: "1 \<le> m \<Longrightarrow> m \<le> 12 \<Longrightarrow> daysIn m y \<le> 31"
  using mod_less_divisor [of 2 "m + m div 8"]
  by (auto simp: daysIn_def simp del: mod_less_divisor)

section \<open>Layouts and parsing\<close>

datatype layout_elem = Lit char | LongYear | ZeroMonth | ZeroDay | Hour24 | ZeroMinute
  | ZeroSecond | ISO8601ColonTZ

text \<open>\<open>getnum\<close>: one or two digits, exactly two when \<open>fixed\<close>.\<close>

fun getnum :: "bool \<Rightarrow> string \<Rightarrow> (nat \<times> string) option" where
  "getnum fixed [] = None"
| "getnum fixed (a # s) =
     (if \<not> is_digit a then None
      else case s of
             b # r \<Rightarrow> if is_digit b then Some (digit_val a * 10 + digit_val b, r)
                      else if fixed then None else Some (digit_val a, s)
           | [] \<Rightarrow> if fixed then None else Some (digit_val a, []))"

text \<open>A fraction that the layout does not mention is skipped after the seconds.\<close>

definition skip_fraction :: "string \<Rightarrow> string" where
  "skip_fraction s =
     (case s of
        c # d # r \<Rightarrow> if (c = CHR ''.'' \<or> c = CHR '','') \<and> is_digit d then dropWhile is_digit r else s
      | _ \<Rightarrow> s)"

definition parse_zone :: "string \<Rightarrow> string option" where
  "parse_zone s =
     (if s \<noteq> [] \<and> hd s = CHR ''Z'' then Some (tl s)
      else (case s of
              sg # h1 # h2 # c # m1 # m2 # r \<Rightarrow>
                if c = CHR '':'' \<and> (sg = CHR ''+'' \<or> sg = CHR ''-'')
                   \<and> is_digit h1 \<and> is_digit h2 \<and> is_digit m1 \<and> is_digit m2
                   \<and> digit_val h1 * 10 + digit_val h2 \<le> 24 \<and> digit_val m1 * 10 + digit_val m2 \<le> 60
                then Some r else None
            | _ \<Rightarrow> None))"

fun parse_elem :: "layout_elem \<Rightarrow> civil_date \<times> string \<Rightarrow> (civil_date \<times> string) option" where
  "parse_elem (Lit c) (d, s) = (case s of x # r \<Rightarrow> if x = c then Some (d, r) else None | [] \<Rightarrow> None)"
| "parse_elem LongYear (d, s) =
     (if 4 \<le> length s \<and> list_all is_digit (take 4 s)
      then Some (d\<lparr>c_year := digits_val (take 4 s)\<rparr>, drop 4 s) else None)"
| "parse_elem ZeroMonth (d, s) =
     do { (m, r) \<leftarrow> getnum True s; if 1 \<le> m \<and> m \<le> 12 then Some (d\<lparr>c_month := m\<rparr>, r) else None }"
| "parse_elem ZeroDay (d, s) = do { (n, r) \<leftarrow> getnum True s; Some (d\<lparr>c_day := n\<rparr>, r) }"
| "parse_elem Hour24 (d, s) = do { (n, r) \<leftarrow> getnum False s; if n < 24 then Some (d, r) else None }"
| "parse_elem ZeroMinute (d, s) = do { (n, r) \<leftarrow> getnum True s; if n < 60 then Some (d, r) else None }"
| "parse_elem ZeroSecond (d, s) =
     do { (n, r) \<leftarrow> getnum True s; if n < 60 then Some (d, skip_fraction r) else None }"
| "parse_elem ISO8601ColonTZ (d, s) = map_option (Pair d) (parse_zone s)"

fun parse_elems :: "layout_elem list \<Rightarrow> civil_date \<times> string \<Rightarrow> (civil_date \<times> string) option" where
  "parse_elems [] p = Some p"
| "parse_elems (e # es) p = Option.bind (parse_elem e p) (parse_elems es)"

text \<open>\<open>time.Parse\<close>: the whole value is consumed and the day exists in its month.\<close>

definition time_Parse :: "layout_elem list \<Rightarrow> string \<Rightarrow> civil_date option" where
  "time_Parse layout s =
     (case parse_elems layout (\<lparr>c_year = 0, c_month = 1, c_day = 1\<rparr>, s) of
        Some (d, []) \<Rightarrow> if 1 \<le> c_day d \<and> c_day d \<le> daysIn (c_month d) (c_year d) then Some d else None
      | _ \<Rightarrow> None)"

definition layout_DateOnly :: "layout_elem list" where
  "layout_DateOnly = [LongYear, Lit (CHR ''-''), ZeroMonth, Lit (CHR ''-''), ZeroDay]"

definition layout_clock :: "layout_elem list" where
  "layout_clock = [Lit (CHR ''T''), Hour24, Lit (CHR '':''), ZeroMinute, Lit (CHR '':''), ZeroSecond]"

definition layout_DateTime :: "layout_elem list" where
  "layout_DateTime = layout_DateOnly @ layout_clock"

definition layout_RFC3339 :: "layout_elem list" where
  "layout_RFC3339 = layout_DateTime @ [ISO8601ColonTZ]"

section \<open>Printing\<close>

definition month_names :: "string list" where
  "month_names = [''Jan'', ''Feb'', ''Mar'', ''Apr'', ''May'', ''Jun'', ''Jul'', ''Aug'', ''Sep'',
     ''Oct'', ''Nov'', ''Dec'']"

definition pad2 :: "nat \<Rightarrow> string" where
  "pad2 n = [digit_char (n div 10), digit_char (n mod 10)]"

definition pad4 :: "nat \<Rightarrow> string" where
  "pad4 n = [digit_char (n div 1000), digit_char (n div 100 mod 10), digit_char (n div 10 mod 10),
     digit_char (n mod 10)]"

text \<open>\<open>Time.Format\<close> with the layout \<open>2 Jan 2006\<close>.\<close>

definition format_date :: "civil_date \<Rightarrow> string" where
  "format_date d = nat_digits (c_day d) @ '' '' @ month_names ! (c_month d - 1) @ '' '' @ pad4 (c_year d)"

text \<open>The ISO 8601 form of a date, as the specification of what is parsed.\<close>

definition iso_date :: "civil_date \<Rightarrow> string" where
  "iso_date d = pad4 (c_year d) @ ''-'' @ pad2 (c_month d) @ ''-'' @ pad2 (c_day d)"

section \<open>Parsing what was printed\<close>

lemma getnum_pad2 [str_simps]: "n < 100 \<Longrightarrow> getnum f (pad2 n @ s) = Some (n, s)"
  by (simp add: pad2_def)

lemma digits_val_pad4: "n < 10000 \<Longrightarrow> digits_val (pad4 n) = n"
proof -
  assume n: "n < 10000"
  have "n div 100 = n div 1000 * 10 + n div 100 mod 10"
    using div_mult2_eq [of n 100 10] div_mult_mod_eq [of "n div 100" 10] by simp
  moreover have "n div 10 = n div 100 * 10 + n div 10 mod 10"
    using div_mult2_eq [of n 10 10] div_mult_mod_eq [of "n div 10" 10] by simp
  moreover have "n = n div 10 * 10 + n mod 10" by simp
  ultimately have "((n div 1000 * 10 + n div 100 mod 10) * 10 + n div 10 mod 10) * 10 + n mod 10 = n"
    by simp
  with n show ?thesis by (simp add: digits_val_def pad4_def algebra_simps)
qed

lemma parse_year [str_simps]:
  "n < 10000 \<Longrightarrow> parse_elem LongYear (d, pad4 n @ s) = Some (d\<lparr>c_year := n\<rparr>, s)"
proof -
  assume n: "n < 10000"
  have "take 4 (pad4 n @ s) = pad4 n" "drop 4 (pad4 n @ s) = s" "4 \<le> length (pad4 n @ s)"
    by (simp_all add: pad4_def)
  moreover have "list_all is_digit (pad4 n)" using n by (simp add: pad4_def)
  ultimately show ?thesis using digits_val_pad4 [OF n] by simp
qed

lemma parse_elems_append:
  "parse_elems (as @ bs) p = Option.bind (parse_elems as p) (parse_elems bs)"
proof (induction as arbitrary: p)
  case Nil
  then show ?case by simp
next
  case (Cons a as)
  then show ?case by (cases "parse_elem a p") auto
qed

lemma valid_date_bounds:
  "valid_date d \<Longrightarrow> c_year d < 10000 \<and> c_month d < 100 \<and> c_day d < 100 \<and> 1 \<le> c_month d \<and> c_month d \<le> 12"
  using daysIn_le [of "c_month d" "c_year d"] by (auto simp: valid_date_def)

lemma parse_iso_date:
  assumes "valid_date d"
  shows "parse_elems layout_DateOnly (e, iso_date d @ s)
    = Some (e\<lparr>c_year := c_year d, c_month := c_month d, c_day := c_day d\<rparr>, s)"
proof -
  note b = valid_date_bounds [OF assms]
  have "parse_elem LongYear (e, iso_date d @ s)
      = Some (e\<lparr>c_year := c_year d\<rparr>, ''-'' @ pad2 (c_month d) @ ''-'' @ pad2 (c_day d) @ s)"
    using parse_year [of "c_year d"] b by (simp add: iso_date_def del: parse_elem.simps)
  then show ?thesis
    using b by (simp add: layout_DateOnly_def getnum_pad2 del: parse_elem.simps(2))
qed

lemma date_eta: "\<lparr>c_year = c_year d, c_month = c_month d, c_day = c_day d\<rparr> = (d :: civil_date)"
  by simp

lemma time_Parse_DateOnly:
  assumes "valid_date d"
  shows "time_Parse layout_DateOnly (iso_date d) = Some d"
  using parse_iso_date [OF assms, of _ "[]"] assms
  by (simp add: time_Parse_def valid_date_def)

definition clock_string :: "nat \<Rightarrow> nat \<Rightarrow> nat \<Rightarrow> string" where
  "clock_string h m s = ''T'' @ pad2 h @ '':'' @ pad2 m @ '':'' @ pad2 s"

lemma parse_clock:
  assumes "h < 24" "m < 60" "s < 60" "skip_fraction r = r"
  shows "parse_elems layout_clock (d, clock_string h m s @ r) = Some (d, r)"
  using assms by (simp add: layout_clock_def clock_string_def getnum_pad2)

section \<open>What a successful parse has read\<close>

lemma digit_char_val: "is_digit c \<Longrightarrow> digit_char (digit_val c) = c \<and> digit_val c < 10"
  by (auto simp: is_digit_def digit_char_def digit_val_def)

lemma getnum_fixed_pad2:
  assumes "getnum True s = Some (n, r)"
  shows "s = pad2 n @ r \<and> n < 100"
proof -
  obtain a b where s: "s = a # b # r" "is_digit a" "is_digit b" and n: "n = digit_val a * 10 + digit_val b"
    using assms by (auto split: if_splits list.splits elim!: getnum.elims)
  note d = digit_char_val [OF s(2)] digit_char_val [OF s(3)]
  then have "n div 10 = digit_val a" "n mod 10 = digit_val b" "n < 100" by (simp_all add: n)
  with d show ?thesis by (simp add: s pad2_def)
qed

lemma mod10: "d < 10 \<Longrightarrow> (10 * k + d) mod 10 = (d :: nat)"
  by simp

lemma take4_pad4:
  assumes "list_all is_digit (take 4 s)" "4 \<le> length s"
  shows "take 4 s = pad4 (digits_val (take 4 s)) \<and> digits_val (take 4 s) < 10000"
proof -
  obtain a b c d r where s: "s = a # b # c # d # r"
    using assms(2) by (auto simp: numeral_eq_Suc Suc_le_length_iff)
  have "is_digit a" "is_digit b" "is_digit c" "is_digit d" using assms(1) s by auto
  then obtain v: "digit_val a < 10" "digit_val b < 10" "digit_val c < 10" "digit_val d < 10"
    and e: "a = digit_char (digit_val a)" "b = digit_char (digit_val b)"
      "c = digit_char (digit_val c)" "d = digit_char (digit_val d)"
    using digit_char_val by metis
  have n: "digits_val (take 4 s)
      = 1000 * digit_val a + 100 * digit_val b + 10 * digit_val c + digit_val d"
    by (simp add: s digits_val_def)
  let ?n = "1000 * digit_val a + 100 * digit_val b + 10 * digit_val c + digit_val d"
  have "?n div 1000 = digit_val a" "?n div 100 = 10 * digit_val a + digit_val b"
    "?n div 10 = 100 * digit_val a + 10 * digit_val b + digit_val c"
    using v by (simp_all add: div_nat_eqI)
  then have "?n div 1000 = digit_val a" "?n div 100 mod 10 = digit_val b"
    "?n div 10 mod 10 = digit_val c" "?n mod 10 = digit_val d"
    using v mod10 [of "digit_val c" "10 * digit_val a + digit_val b"]
      mod10 [of "digit_val d" "100 * digit_val a + 10 * digit_val b + digit_val c"]
    by (simp_all add: algebra_simps)
  then have "pad4 (digits_val (take 4 s)) = [a, b, c, d]"
    using e by (simp add: n pad4_def)
  then show ?thesis using v by (simp add: n) (simp add: s)
qed

lemma parse_Lit_inv: "parse_elem (Lit c) (e, s) = Some (d, r) \<Longrightarrow> d = e \<and> s = c # r"
  by (auto split: list.splits if_splits)

lemma parse_LongYear_inv:
  "parse_elem LongYear (e, s) = Some (d, r) \<Longrightarrow>
     s = pad4 (c_year d) @ r \<and> c_year d < 10000"
  using take4_pad4 [of s] append_take_drop_id [of 4 s]
  by (auto split: if_splits simp del: append_take_drop_id)

lemma parse_ZeroMonth_inv:
  "parse_elem ZeroMonth (e, s) = Some (d, r) \<Longrightarrow>
     c_year d = c_year e \<and> s = pad2 (c_month d) @ r \<and> 1 \<le> c_month d \<and> c_month d \<le> 12"
  by (auto simp: bind_eq_Some_conv split: if_splits dest: getnum_fixed_pad2)

lemma parse_ZeroDay_inv:
  "parse_elem ZeroDay (e, s) = Some (d, r) \<Longrightarrow>
     c_year d = c_year e \<and> c_month d = c_month e \<and> s = pad2 (c_day d) @ r"
  by (auto simp: bind_eq_Some_conv dest: getnum_fixed_pad2)

lemma parse_Cons_inv:
  "parse_elems (x # xs) p = Some q \<Longrightarrow> \<exists>d r. parse_elem x p = Some (d, r) \<and> parse_elems xs (d, r) = Some q"
  by (auto simp: bind_eq_Some_conv)

lemma parse_DateOnly_inv:
  assumes "parse_elems layout_DateOnly (e, s) = Some (d, r)"
  shows "s = iso_date d @ r \<and> c_year d < 10000 \<and> 1 \<le> c_month d \<and> c_month d \<le> 12"
proof -
  let ?m = "Lit (CHR ''-'')"
  obtain d1 s1 where 1: "parse_elem LongYear (e, s) = Some (d1, s1)"
    and r1: "parse_elems [?m, ZeroMonth, ?m, ZeroDay] (d1, s1) = Some (d, r)"
    using parse_Cons_inv [OF assms [unfolded layout_DateOnly_def]] by blast
  obtain d2 s2 where 2: "parse_elem ?m (d1, s1) = Some (d2, s2)"
    and r2: "parse_elems [ZeroMonth, ?m, ZeroDay] (d2, s2) = Some (d, r)"
    using parse_Cons_inv [OF r1] by blast
  obtain d3 s3 where 3: "parse_elem ZeroMonth (d2, s2) = Some (d3, s3)"
    and r3: "parse_elems [?m, ZeroDay] (d3, s3) = Some (d, r)"
    using parse_Cons_inv [OF r2] by blast
  obtain d4 s4 where 4: "parse_elem ?m (d3, s3) = Some (d4, s4)"
    and r4: "parse_elems [ZeroDay] (d4, s4) = Some (d, r)"
    using parse_Cons_inv [OF r3] by blast
  have 5: "parse_elem ZeroDay (d4, s4) = Some (d, r)"
    using parse_Cons_inv [OF r4] by auto
  note parse_LongYear_inv [OF 1] parse_Lit_inv [OF 2] parse_ZeroMonth_inv [OF 3]
    parse_Lit_inv [OF 4] parse_ZeroDay_inv [OF 5]
  then show ?thesis by (simp add: iso_date_def)
qed

definition date_elem :: "layout_elem \<Rightarrow> bool" where
  "date_elem e \<longleftrightarrow> e = LongYear \<or> e = ZeroMonth \<or> e = ZeroDay"

lemma parse_elem_frame: "\<not> date_elem e \<Longrightarrow> parse_elem e p = Some q \<Longrightarrow> fst q = fst p"
  by (cases p; cases e) (auto simp: date_elem_def bind_eq_Some_conv split: list.splits if_splits)

lemma parse_elems_frame:
  "\<forall>e \<in> set es. \<not> date_elem e \<Longrightarrow> parse_elems es p = Some q \<Longrightarrow> fst q = fst p"
proof (induction es arbitrary: p)
  case Nil
  then show ?case by simp
next
  case (Cons e es)
  then obtain p' where "parse_elem e p = Some p'" "parse_elems es p' = Some q"
    by (auto simp: bind_eq_Some_conv)
  then show ?case using Cons parse_elem_frame by (metis list.set_intros)
qed

text \<open>A value parsed with a layout that starts with the date starts with a date that exists, and
  that date is the result.\<close>

lemma time_Parse_prefix:
  assumes "time_Parse (layout_DateOnly @ es) s = Some d" and "\<forall>e \<in> set es. \<not> date_elem e"
  shows "valid_date d \<and> (\<exists>r. s = iso_date d @ r)"
proof -
  obtain e where pe: "parse_elems (layout_DateOnly @ es) (e, s) = Some (d, [])"
    and day: "1 \<le> c_day d" "c_day d \<le> daysIn (c_month d) (c_year d)"
    using assms(1) by (auto simp: time_Parse_def split: option.splits list.splits if_splits)
  obtain d' r where 1: "parse_elems layout_DateOnly (e, s) = Some (d', r)"
    and 2: "parse_elems es (d', r) = Some (d, [])"
    using pe by (auto simp: parse_elems_append bind_eq_Some_conv)
  have "d = d'" using parse_elems_frame [OF assms(2) 2] by simp
  with parse_DateOnly_inv [OF 1] day show ?thesis by (auto simp: valid_date_def)
qed

lemma clock_not_date: "\<forall>e \<in> set layout_clock. \<not> date_elem e"
  "\<forall>e \<in> set (layout_clock @ [ISO8601ColonTZ]). \<not> date_elem e"
  by (simp_all add: layout_clock_def date_elem_def)

end
