(* ===== verification/Logging.thy ===== *)
theory Logging
  imports GoStrings
begin

text \<open>
  \<open>logging/logging.go\<close>: log levels and formats read from the configuration, and the
  construction of the logger. \<open>logrus\<close> is third-party; what the code relies on is its level
  order (\<open>Panic\<close> is the most severe) and that a logger emits an entry when its own level is at
  least the entry's. Opening the log file is the environment's answer, a parameter of \<open>New\<close>.
\<close>

section \<open>Levels and formats\<close>

datatype level = PanicLevel | FatalLevel | ErrorLevel | WarnLevel | InfoLevel | DebugLevel | TraceLevel

fun level_num :: "level \<Rightarrow> nat" where
  "level_num PanicLevel = 0"
| "level_num FatalLevel = 1"
| "level_num ErrorLevel = 2"
| "level_num WarnLevel = 3"
| "level_num InfoLevel = 4"
| "level_num DebugLevel = 5"
| "level_num TraceLevel = 6"

lemma level_num_inject: "level_num a = level_num b \<longleftrightarrow> a = b"
  by (cases a; cases b) auto

instantiation level :: linorder
begin

definition less_eq_level :: "level \<Rightarrow> level \<Rightarrow> bool" where
  "less_eq_level a b \<longleftrightarrow> level_num a \<le> level_num b"

definition less_level :: "level \<Rightarrow> level \<Rightarrow> bool" where
  "less_level a b \<longleftrightarrow> level_num a < level_num b"

instance
  by standard (auto simp: less_eq_level_def less_level_def level_num_inject)

end

datatype formatter = TextFormatter | JSONFormatter

datatype logger_error = InvalidLogLevel string | InvalidLogFormat string | OpenLogFile string

definition ParseLevel :: "string \<Rightarrow> logger_error + level" where
  "ParseLevel s =
     (let l = ToLower s in
      if l = ''debug'' then Inr DebugLevel
      else if l = ''info'' then Inr InfoLevel
      else if l = ''warn'' \<or> l = ''warning'' then Inr WarnLevel
      else if l = ''error'' then Inr ErrorLevel
      else if l = ''fatal'' then Inr FatalLevel
      else if l = ''panic'' then Inr PanicLevel
      else Inl (InvalidLogLevel s))"

definition ParseFormat :: "string \<Rightarrow> logger_error + formatter" where
  "ParseFormat s =
     (let l = ToLower s in
      if l = ''text'' \<or> l = '''' then Inr TextFormatter
      else if l = ''json'' then Inr JSONFormatter
      else Inl (InvalidLogFormat s))"

section \<open>The logger\<close>

datatype log_output = Stdout | Discard | LogFile string

record logger =
  lg_output :: log_output
  lg_formatter :: formatter
  lg_level :: level

text \<open>\<open>logrus.New()\<close>: text to standard error at \<open>InfoLevel\<close>; only its formatter survives in
  the loggers built here, the output and the level are always set.\<close>

record log_options =
  opt_Mode :: string
  opt_Level :: "string option"
  opt_Format :: string
  opt_Filename :: string

definition IsLevelEnabled :: "logger \<Rightarrow> level \<Rightarrow> bool" where
  "IsLevelEnabled lg l \<longleftrightarrow> l \<le> lg_level lg"

text \<open>Where an enabled logger writes; the file is opened with mode 0600 in append mode.
  \<open>opener f\<close> is the environment's answer: an error message, or \<open>None\<close> when the file opened.\<close>

definition log_destination ::
  "(string \<Rightarrow> string option) \<Rightarrow> log_options \<Rightarrow> logger_error + log_output" where
  "log_destination opener opts =
     (if opt_Filename opts \<noteq> '''' then
        (case opener (opt_Filename opts) of
           Some m \<Rightarrow> Inl (OpenLogFile m)
         | None \<Rightarrow> Inr (LogFile (opt_Filename opts)))
      else if opt_Mode opts = ''http'' then Inr Stdout
      else Inr Discard)"

definition New :: "(string \<Rightarrow> string option) \<Rightarrow> log_options \<Rightarrow> logger_error + logger" where
  "New opener opts =
     (case ParseFormat (opt_Format opts) of
        Inl e \<Rightarrow> Inl e
      | Inr fmt \<Rightarrow>
          if \<not> (opt_Mode opts = ''http'' \<or> opt_Level opts \<noteq> None) then
            Inr \<lparr>lg_output = Discard, lg_formatter = TextFormatter, lg_level = PanicLevel\<rparr>
          else
            (case (case opt_Level opts of None \<Rightarrow> Inr InfoLevel | Some s \<Rightarrow> ParseLevel s) of
               Inl e \<Rightarrow> Inl e
             | Inr lvl \<Rightarrow>
                 (case log_destination opener opts of
                    Inl e \<Rightarrow> Inl e
                  | Inr out \<Rightarrow>
                      Inr \<lparr>lg_output = out, lg_formatter = fmt, lg_level = lvl\<rparr>)))"

definition NewString ::
  "(string \<Rightarrow> string option) \<Rightarrow> string \<Rightarrow> string \<Rightarrow> string \<Rightarrow> logger_error + logger" where
  "NewString opener level format filename =
     New opener \<lparr>opt_Mode = ''http'', opt_Level = Some level, opt_Format = format,
       opt_Filename = filename\<rparr>"

section \<open>Facts\<close>

lemma IsLevelEnabled_mono: "IsLevelEnabled lg l \<Longrightarrow> k \<le> l \<Longrightarrow> IsLevelEnabled lg k"
  unfolding IsLevelEnabled_def by (rule order_trans)

lemma log_destination_cases:
  "log_destination opener opts = Inr out \<Longrightarrow>
     out = LogFile (opt_Filename opts) \<and> opt_Filename opts \<noteq> ''''
     \<or> out = Stdout \<and> opt_Mode opts = ''http'' \<and> opt_Filename opts = ''''
     \<or> out = Discard \<and> opt_Mode opts \<noteq> ''http'' \<and> opt_Filename opts = ''''"
  by (auto simp: log_destination_def split: if_splits option.splits)

lemma ParseLevel_not_trace: "ParseLevel s = Inr l \<Longrightarrow> l \<noteq> TraceLevel"
  by (auto simp: ParseLevel_def Let_def split: if_splits)

text \<open>A successful construction, by cases.\<close>

lemma New_cases:
  assumes "New opener opts = Inr lg"
  shows "opt_Mode opts \<noteq> ''http'' \<and> opt_Level opts = None \<and> lg_output lg = Discard \<and> lg_level lg = PanicLevel
    \<or> (opt_Mode opts = ''http'' \<or> opt_Level opts \<noteq> None) \<and> log_destination opener opts = Inr (lg_output lg)
       \<and> ParseFormat (opt_Format opts) = Inr (lg_formatter lg)
       \<and> (case opt_Level opts of None \<Rightarrow> lg_level lg = InfoLevel | Some s \<Rightarrow> ParseLevel s = Inr (lg_level lg))"
  using assms by (auto simp: New_def split: sum.splits if_splits option.splits)


section \<open>Properties\<close>

text \<open>C39. Where a logger built by \<open>New\<close> writes and what it emits: outside HTTP mode it never
  writes to standard output (which carries the MCP protocol), without a configured level there it
  is disabled (no entry below \<open>PanicLevel\<close> is emitted), and in HTTP mode without a log file it
  writes to standard output. A configured level is the one in force.\<close>

theorem New_logger:
  "case New opener opts of
     Inl e \<Rightarrow> True
   | Inr lg \<Rightarrow>
       (if opt_Mode opts = ''http'' then lg_output lg = (if opt_Filename opts = '''' then Stdout else LogFile (opt_Filename opts))
        else lg_output lg = Discard \<or> lg_output lg = LogFile (opt_Filename opts))
       \<and> (if opt_Mode opts \<noteq> ''http'' \<and> opt_Level opts = None
          then lg_output lg = Discard \<and> IsLevelEnabled lg = (\<lambda>l. l = PanicLevel)
          else (case opt_Level opts of None \<Rightarrow> lg_level lg = InfoLevel | Some s \<Rightarrow> ParseLevel s = Inr (lg_level lg)))"
proof (cases "New opener opts")
  case (Inr lg)
  have d: "log_destination opener opts = Inr (lg_output lg) \<Longrightarrow>
      (if opt_Mode opts = ''http''
       then lg_output lg = (if opt_Filename opts = '''' then Stdout else LogFile (opt_Filename opts))
       else lg_output lg = Discard \<or> lg_output lg = LogFile (opt_Filename opts))"
    using log_destination_cases [of opener opts "lg_output lg"] by auto
  have p: "l \<le> PanicLevel \<longleftrightarrow> l = PanicLevel" for l
    by (cases l) (auto simp: less_eq_level_def)
  show ?thesis using New_cases [OF Inr] d by (auto simp: Inr IsLevelEnabled_def p)
qed simp


end
