(* ===== verification/Effects.thy ===== *)
theory Effects
  imports Logging
begin

text \<open>
  The state that the program's operations thread through their calls: the upstream service
  (abstract), the clock, the random source, the entries the loggers have written and the Prometheus
  metrics; and the request-scoped context of \<open>requestid/requestid.go\<close> and
  \<open>handlers/clientip.go\<close>. Prometheus is third-party: a counter vector is the number of
  increments per label tuple, a histogram vector the list of observations per label tuple.
\<close>

section \<open>Log entries\<close>

datatype log_value = LStr string | LInt int | LBool bool | LDuration int | LTime int

record log_entry =
  le_output :: log_output
  le_level :: level
  le_msg :: string
  le_fields :: "(string \<times> log_value) list"

section \<open>The world\<close>

record 'u world =
  upstream :: 'u
  clock :: "nat \<Rightarrow> int"
  clock_pos :: nat
  random_bytes :: "nat \<Rightarrow> char"
  random_pos :: nat
  logs :: "log_entry list"
  tool_requests :: "string \<times> string \<Rightarrow> nat"
  tool_durations :: "string \<Rightarrow> int list"
  active_requests :: int
  upstream_requests :: "string \<Rightarrow> nat"
  upstream_durations :: "int list"

text \<open>\<open>time.Now\<close>: the readings of the clock, in nanoseconds, form a sequence; each call takes the
  next one. \<open>time.Since(t)\<close> is a reading minus \<open>t\<close>.\<close>

definition time_Now :: "'u world \<Rightarrow> int \<times> 'u world" where
  "time_Now w = (clock w (clock_pos w), w\<lparr>clock_pos := clock_pos w + 1\<rparr>)"

text \<open>A call of a logger appends an entry when the logger is enabled at that level.\<close>

definition log_with :: "logger \<Rightarrow> level \<Rightarrow> string \<Rightarrow> (string \<times> log_value) list \<Rightarrow> 'u world \<Rightarrow> 'u world" where
  "log_with lg l msg flds w =
     (if IsLevelEnabled lg l
      then w\<lparr>logs := logs w @ [\<lparr>le_output = lg_output lg, le_level = l, le_msg = msg, le_fields = flds\<rparr>]\<rparr>
      else w)"

lemma log_with_frame [simp]:
  "upstream (log_with lg l m f w) = upstream w"
  "clock (log_with lg l m f w) = clock w"
  "clock_pos (log_with lg l m f w) = clock_pos w"
  "random_bytes (log_with lg l m f w) = random_bytes w"
  "random_pos (log_with lg l m f w) = random_pos w"
  "tool_requests (log_with lg l m f w) = tool_requests w"
  "tool_durations (log_with lg l m f w) = tool_durations w"
  "active_requests (log_with lg l m f w) = active_requests w"
  "upstream_requests (log_with lg l m f w) = upstream_requests w"
  "upstream_durations (log_with lg l m f w) = upstream_durations w"
  by (simp_all add: log_with_def)

lemma logs_log_with:
  "logs (log_with lg l m f w) =
     logs w @ (if IsLevelEnabled lg l
               then [\<lparr>le_output = lg_output lg, le_level = l, le_msg = m, le_fields = f\<rparr>] else [])"
  by (simp add: log_with_def)

section \<open>Streams\<close>

text \<open>A stream that can still be read: its bytes, and how reading ends (\<open>None\<close> is end of file).\<close>

type_synonym body = "string \<times> err option"

text \<open>\<open>io.ReadAll\<close>, and the same under an \<open>io.LimitReader\<close>, which ends the stream after \<open>n\<close> bytes.\<close>

definition ReadAll :: "body \<Rightarrow> string result" where
  "ReadAll b = (case snd b of None \<Rightarrow> Inr (fst b) | Some e \<Rightarrow> Inl e)"

definition LimitReader :: "nat \<Rightarrow> body \<Rightarrow> body" where
  "LimitReader n b = (if n \<le> length (fst b) then (take n (fst b), None) else b)"

section \<open>Request-scoped context\<close>

text \<open>\<open>context.Context\<close> with one slot for each private key type the program stores under.\<close>

record ctx =
  cv_request_id :: "string option"
  cv_client_ip :: "string option"

definition background :: ctx where
  "background = \<lparr>cv_request_id = None, cv_client_ip = None\<rparr>"

definition With :: "ctx \<Rightarrow> string \<Rightarrow> ctx" where
  "With c i = c\<lparr>cv_request_id := Some i\<rparr>"

definition From :: "ctx \<Rightarrow> string" where
  "From c = (case cv_request_id c of Some i \<Rightarrow> i | None \<Rightarrow> '''')"

definition WithClientIP :: "ctx \<Rightarrow> string \<Rightarrow> ctx" where
  "WithClientIP c ip = c\<lparr>cv_client_ip := Some ip\<rparr>"

definition ClientIPFrom :: "ctx \<Rightarrow> string" where
  "ClientIPFrom c = (case cv_client_ip c of Some ip \<Rightarrow> ip | None \<Rightarrow> '''')"

section \<open>Request ids\<close>

definition requestIDBytes :: nat where
  "requestIDBytes = 16"

text \<open>\<open>hex.EncodeToString\<close>.\<close>

definition hex_digit :: "nat \<Rightarrow> char" where
  "hex_digit n = (if n < 10 then char_of (0x30 + n) else char_of (0x57 + n))"

definition hex_encode :: "string \<Rightarrow> string" where
  "hex_encode b = concat (map (\<lambda>c. [hex_digit (byte_val c div 16), hex_digit (byte_val c mod 16)]) b)"

text \<open>\<open>requestid.New\<close>: 16 bytes from \<open>crypto/rand\<close>, which never fails, in hexadecimal.\<close>

definition New_id :: "'u world \<Rightarrow> string \<times> 'u world" where
  "New_id w =
     (hex_encode (map (random_bytes w) [random_pos w ..< random_pos w + requestIDBytes]),
      w\<lparr>random_pos := random_pos w + requestIDBytes\<rparr>)"

definition is_hex_digit :: "char \<Rightarrow> bool" where
  "is_hex_digit c \<longleftrightarrow> is_digit c \<or> (0x61 \<le> byte_val c \<and> byte_val c \<le> 0x66)"

lemma is_hex_digit_hex_digit: "n < 16 \<Longrightarrow> is_hex_digit (hex_digit n)"
  by (auto simp: is_hex_digit_def is_digit_def hex_digit_def of_char_of)

lemma length_hex_encode: "length (hex_encode b) = 2 * length b"
  by (induction b) (auto simp: hex_encode_def)

lemma hex_encode_digits: "list_all is_hex_digit (hex_encode b)"
proof (induction b)
  case Nil
  then show ?case by (simp add: hex_encode_def)
next
  case (Cons c b)
  have "byte_val c div 16 < 16" using byte_val_less [of c] by linarith
  with Cons show ?case by (simp add: hex_encode_def is_hex_digit_hex_digit)
qed

lemma hex_digit_inject: "m < 16 \<Longrightarrow> n < 16 \<Longrightarrow> hex_digit m = hex_digit n \<Longrightarrow> m = n"
proof -
  assume "m < 16" "n < 16" "hex_digit m = hex_digit n"
  moreover from this(3) have "byte_val (hex_digit m) = byte_val (hex_digit n)" by simp
  ultimately show "m = n" by (auto simp: hex_digit_def of_char_of split: if_splits)
qed

lemma hex_encode_inject: "length a = length b \<Longrightarrow> hex_encode a = hex_encode b \<Longrightarrow> a = b"
proof (induction a b rule: list_induct2)
  case Nil
  then show ?case by simp
next
  case (Cons x xs y ys)
  have lt: "byte_val x div 16 < 16" "byte_val y div 16 < 16"
    using byte_val_less [of x] byte_val_less [of y] by linarith+
  have "byte_val x div 16 = byte_val y div 16" "byte_val x mod 16 = byte_val y mod 16"
    using Cons.prems lt by (auto simp: hex_encode_def intro: hex_digit_inject)
  then have "byte_val x = byte_val y" by (metis div_mult_mod_eq)
  with Cons show ?case by (simp add: hex_encode_def)
qed

section \<open>Properties\<close>

text \<open>A request id is 32 hexadecimal digits, spends 16 random bytes and nothing else of the
  world, and identifies the bytes it was made of: two ids agree exactly when their bytes do.\<close>

theorem New_id_spec:
  "length (fst (New_id w)) = 32 \<and> list_all is_hex_digit (fst (New_id w))
   \<and> snd (New_id w) = w\<lparr>random_pos := random_pos w + 16\<rparr>
   \<and> (fst (New_id w) = fst (New_id v) \<longleftrightarrow>
        map (random_bytes w) [random_pos w ..< random_pos w + 16]
        = map (random_bytes v) [random_pos v ..< random_pos v + 16])"
proof -
  let ?b = "\<lambda>w. map (random_bytes w) [random_pos w ..< random_pos w + 16]"
  have "hex_encode (?b w) = hex_encode (?b v) \<longleftrightarrow> ?b w = ?b v"
    using hex_encode_inject [of "?b w" "?b v"] by auto
  then show ?thesis
    by (simp add: New_id_def requestIDBytes_def length_hex_encode hex_encode_digits)
qed


end
