(* ===== verification/Domain.thy ===== *)
theory Domain
  imports Effects
begin

text \<open>
  \<open>domain/models.go\<close>, \<open>domain/repository.go\<close> and \<open>application/service.go\<close>: the result and
  parameter structs, the repository interface and the search service. A Go slice is a list (the
  code does not distinguish nil from empty), a pointer to a string an option. Go's \<open>int\<close> fields
  are \<open>int\<close>: the code compares and prints them but never computes with them.

  The fields carry a prefix per struct, because HOL record fields share one name space.
\<close>

section \<open>Models\<close>

record search_result =
  sr_Title :: string
  sr_URL :: string
  sr_Content :: string
  sr_Engine :: string
  sr_Template :: string
  sr_PublishedDate :: "string option"
  sr_Category :: string
  sr_ImgSrc :: "string option"
  sr_Source :: "string option"
  sr_EngineAvatar :: "string option"
  sr_ParsedURL :: "string list"

record infobox_url =
  iu_Title :: string
  iu_URL :: string

record infobox_attribute =
  ia_Key :: string
  ia_Value :: string

record infobox_detail =
  dt_ID :: string
  dt_Content :: string
  dt_ImgSrc :: "string option"
  dt_URLs :: "infobox_url list"
  dt_Attributes :: "infobox_attribute list"

record infobox =
  ib_ID :: string
  ib_URL :: string
  ib_Content :: string
  ib_Infoboxes :: "infobox_detail list"
  ib_ImgSrc :: "string option"
  ib_Engine :: string
  ib_URLs :: "infobox_url list"
  ib_Attributes :: "infobox_attribute list"

record search_response =
  rp_Query :: string
  rp_Results :: "search_result list"
  rp_Answers :: "string list"
  rp_Infoboxes :: "infobox list"
  rp_Suggestions :: "string list"
  rp_NumberOfResults :: int
  rp_Paging :: bool
  rp_CorrectedURL :: "string option"

section \<open>The repository interface\<close>

record search_params =
  pm_Query :: string
  pm_Categories :: "string list"
  pm_Language :: string
  pm_Page :: int
  pm_TimeRange :: string
  pm_SafeSearch :: int

text \<open>
  \<open>SearchRepository\<close>: an implementation returns a response or an error and may change the
  world. The Go signature also allows a nil response without an error; no implementation in the
  repository returns it, so the result is a sum.
\<close>

type_synonym 'u repository = "ctx \<Rightarrow> search_params \<Rightarrow> 'u world \<Rightarrow> search_response result \<times> 'u world"

section \<open>The search service\<close>

record 'u search_service =
  svc_repo :: "'u repository"

definition NewSearchService :: "'u repository \<Rightarrow> 'u search_service" where
  "NewSearchService r = \<lparr>svc_repo = r\<rparr>"

definition service_Search ::
  "'u search_service \<Rightarrow> ctx \<Rightarrow> search_params \<Rightarrow> 'u world \<Rightarrow> search_response result \<times> 'u world" where
  "service_Search s c p w =
     (case svc_repo s c p w of
        (Inl e, w') \<Rightarrow> (Inl (ErrWrap ''search: '' e), w')
      | (Inr r, w') \<Rightarrow> (Inr r, w'))"

lemma service_Search_snd: "snd (service_Search s c p w) = snd (svc_repo s c p w)"
  by (simp add: service_Search_def split: prod.split sum.split)

lemma service_Search_Inr: "service_Search s c p w = (Inr r, w') \<longleftrightarrow> svc_repo s c p w = (Inr r, w')"
  by (auto simp: service_Search_def split: prod.splits sum.splits)

end
