(* ===== verification/Sanitize.thy ===== *)
theory Sanitize
  imports GoUrl GoTime Domain
begin

text \<open>
  The sanitizers: \<open>SanitizeLog\<close> of \<open>handlers/middleware.go\<close> and \<open>sanitizeOutput\<close>,
  \<open>sanitizeOutputPtr\<close>, \<open>sanitizeURL\<close>, \<open>sanitizeImgSrc\<close> and \<open>formatDate\<close> of
  \<open>handlers/tools.go\<close>. What the two rune filters promise is the locale \<open>rune_sanitizer\<close>;
  its consequences (idempotence, clean output, transparency for printable text) are proved once and
  reach both functions by interpretation.
\<close>

section \<open>What a rune sanitizer promises\<close>

text \<open>The Unicode directionality formatting characters the source lists.\<close>

definition bidi_rune :: "rune \<Rightarrow> bool" where
  "bidi_rune r \<longleftrightarrow> (0x200e \<le> r \<and> r \<le> 0x200f) \<or> (0x202a \<le> r \<and> r \<le> 0x202e) \<or> (0x2066 \<le> r \<and> r \<le> 0x2069)"

text \<open>The control characters other than tab, line feed and carriage return.\<close>

definition hard_control :: "rune \<Rightarrow> bool" where
  "hard_control r \<longleftrightarrow> (r < 0x20 \<and> r \<noteq> 0x09 \<and> r \<noteq> 0x0A \<and> r \<noteq> 0x0D) \<or> r = 0x7F"

lemma hard_control_ascii: "hard_control r \<Longrightarrow> r < 0x80"
  by (auto simp: hard_control_def)

locale rune_sanitizer =
  fixes keep :: "rune \<Rightarrow> bool" and san :: "string \<Rightarrow> string"
  assumes san_filter: "san s = rune_filter keep s"
    and keep_printable: "0x20 \<le> r \<Longrightarrow> r < 0x7F \<Longrightarrow> keep r"
    and drop_control: "hard_control r \<Longrightarrow> \<not> keep r"
    and drop_bidi: "bidi_rune r \<Longrightarrow> \<not> keep r"
begin

lemma runes_san: "runes (san s) = filter keep (runes s)"
  by (simp add: san_filter runes_rune_filter)

lemma san_idem: "san (san s) = san s"
  by (simp add: san_filter rune_filter_eq [of keep "rune_filter keep s"] runes_rune_filter)
    (simp add: rune_filter_eq)

lemma san_utf8: "utf8_valid (san s)"
  unfolding san_filter rune_filter_eq
  by (rule utf8_valid_string_of_runes) (auto intro: runes_valid)

lemma san_runes_clean: "r \<in> set (runes (san s)) \<Longrightarrow> \<not> hard_control r \<and> \<not> bidi_rune r \<and> r \<in> set (runes s)"
  using drop_control drop_bidi by (auto simp: runes_san)

lemma san_bytes:
  assumes "c \<in> set (san s)" "byte_val c < 0x80"
  shows "keep (byte_val c)"
  using string_of_runes_low [of c "filter keep (runes s)"] assms
  by (simp add: san_filter rune_filter_eq)

lemma san_no_control_byte: "c \<in> set (san s) \<Longrightarrow> \<not> hard_control (byte_val c)"
  using san_bytes [of c s] drop_control [of "byte_val c"] hard_control_ascii by blast

lemma san_clean_id: "utf8_valid s \<Longrightarrow> \<forall>r \<in> set (runes s). keep r \<Longrightarrow> san s = s"
  by (simp add: san_filter rune_filter_eq utf8_valid_def)

lemma san_printable_id:
  assumes "\<forall>c \<in> set s. 0x20 \<le> byte_val c \<and> byte_val c < 0x7F"
  shows "san s = s"
proof -
  have r: "runes s = map byte_val s" using assms by (intro runes_ascii) auto
  have "\<forall>r \<in> set (map byte_val s). keep r" using assms keep_printable by auto
  then have "filter keep (map byte_val s) = map byte_val s" by (simp only: filter_id_conv)
  moreover have "string_of_runes (map byte_val s) = map char_of (map byte_val s)"
    using assms by (intro string_of_runes_ascii) auto
  ultimately show ?thesis by (simp add: san_filter rune_filter_eq r)
qed

end

text \<open>A sanitizer for single lines also drops line breaks.\<close>

locale line_sanitizer = rune_sanitizer +
  assumes drop_newline: "\<not> keep 0x0A" "\<not> keep 0x0D"
begin

lemma san_single_line: "c \<in> set (san s) \<Longrightarrow> c \<noteq> CHR 0x0A \<and> c \<noteq> CHR 0x0D"
  using san_bytes [of c s] drop_newline by auto

end

section \<open>The two filters of the program\<close>

definition sanitizeOutput_rune :: "rune \<Rightarrow> rune option" where
  "sanitizeOutput_rune r =
     (if r = 0x09 \<or> r = 0x0A \<or> r = 0x0D then Some r
      else if r < 0x20 \<or> r = 0x7f then None
      else if r \<ge> 0x200e \<and> r \<le> 0x200f then None
      else if r \<ge> 0x202a \<and> r \<le> 0x202e then None
      else if r \<ge> 0x2066 \<and> r \<le> 0x2069 then None
      else Some r)"

definition sanitizeOutput :: "string \<Rightarrow> string" where
  "sanitizeOutput s = strings_Map sanitizeOutput_rune s"

definition SanitizeLog_rune :: "rune \<Rightarrow> rune option" where
  "SanitizeLog_rune r =
     (if r = 0x09 then Some r
      else if r < 0x20 \<or> r = 0x7f then None
      else if r \<ge> 0x200e \<and> r \<le> 0x200f then None
      else if r \<ge> 0x202a \<and> r \<le> 0x202e then None
      else if r \<ge> 0x2066 \<and> r \<le> 0x2069 then None
      else Some r)"

definition SanitizeLog :: "string \<Rightarrow> string" where
  "SanitizeLog s = strings_Map SanitizeLog_rune s"

definition output_keep :: "rune \<Rightarrow> bool" where
  "output_keep r \<longleftrightarrow> \<not> hard_control r \<and> \<not> bidi_rune r"

definition log_keep :: "rune \<Rightarrow> bool" where
  "log_keep r \<longleftrightarrow> \<not> hard_control r \<and> r \<noteq> 0x0A \<and> r \<noteq> 0x0D \<and> \<not> bidi_rune r"

lemma sanitizeOutput_rune_eq: "sanitizeOutput_rune = (\<lambda>r. if output_keep r then Some r else None)"
  by (rule ext) (auto simp: sanitizeOutput_rune_def output_keep_def hard_control_def bidi_rune_def)

lemma SanitizeLog_rune_eq: "SanitizeLog_rune = (\<lambda>r. if log_keep r then Some r else None)"
  by (rule ext) (auto simp: SanitizeLog_rune_def log_keep_def hard_control_def bidi_rune_def)

interpretation outp: rune_sanitizer output_keep sanitizeOutput
  by unfold_locales
    (auto simp: sanitizeOutput_def sanitizeOutput_rune_eq rune_filter_def output_keep_def
      hard_control_def bidi_rune_def)

interpretation logl: line_sanitizer log_keep SanitizeLog
  by unfold_locales
    (auto simp: SanitizeLog_def SanitizeLog_rune_eq rune_filter_def log_keep_def
      hard_control_def bidi_rune_def)

definition sanitizeOutputPtr :: "string option \<Rightarrow> string option" where
  "sanitizeOutputPtr s = (case s of None \<Rightarrow> None | Some t \<Rightarrow> Some (sanitizeOutput t))"

section \<open>URLs\<close>

definition sanitizeURL :: "(string \<Rightarrow> string option) \<Rightarrow> string \<Rightarrow> string" where
  "sanitizeURL hp rawURL =
     (if rawURL = '''' then ''''
      else case url_Parse hp rawURL of
             None \<Rightarrow> ''''
           | Some parsed \<Rightarrow>
               if Scheme parsed \<noteq> ''http'' \<and> Scheme parsed \<noteq> ''https'' then ''''
               else url_String parsed)"

definition sanitizeImgSrc :: "(string \<Rightarrow> string option) \<Rightarrow> string option \<Rightarrow> string option" where
  "sanitizeImgSrc hp s =
     (case s of
        None \<Rightarrow> None
      | Some raw \<Rightarrow>
          (case url_Parse hp raw of
             None \<Rightarrow> None
           | Some u \<Rightarrow>
               if Scheme u = '''' \<or> Scheme u = ''http'' \<or> Scheme u = ''https'' \<or> Scheme u = ''data''
               then s else None))"

lemma sanitizeURL_cases:
  "sanitizeURL hp s = '''' \<or>
   (\<exists>u. url_Parse hp s = Some u \<and> http_scheme (Scheme u) \<and> sanitizeURL hp s = url_String u)"
  by (auto simp: sanitizeURL_def http_scheme_def split: option.splits)

lemma sanitizeURL_noctl: "noctl (sanitizeURL hp s)"
  using sanitizeURL_cases [of hp s] url_String_parsed_noctl by auto

lemma sanitizeURL_scheme:
  "sanitizeURL hp s = '''' \<or> has_prefix (sanitizeURL hp s) ''http:'' \<or> has_prefix (sanitizeURL hp s) ''https:''"
proof -
  have "has_prefix (url_String u) ''http:'' \<or> has_prefix (url_String u) ''https:''"
    if "http_scheme (Scheme u)" for u
    using has_prefix_scheme [of u] that by (auto simp: http_scheme_def)
  then show ?thesis using sanitizeURL_cases [of hp s] by metis
qed

section \<open>Dates\<close>

definition formatDate :: "string option \<Rightarrow> string" where
  "formatDate d =
     (case d of
        None \<Rightarrow> ''''
      | Some s \<Rightarrow>
          if s = '''' then ''''
          else
            (case time_Parse layout_RFC3339 s of
               Some t \<Rightarrow> format_date t
             | None \<Rightarrow>
                 (case time_Parse layout_DateTime s of
                    Some t \<Rightarrow> format_date t
                  | None \<Rightarrow>
                      (case time_Parse layout_DateOnly s of
                         Some t \<Rightarrow> format_date t
                       | None \<Rightarrow> ''''))))"

lemma formatDate_sound:
  assumes "formatDate (Some s) \<noteq> ''''"
  shows "\<exists>d r. valid_date d \<and> s = iso_date d @ r \<and> formatDate (Some s) = format_date d"
proof -
  have "\<exists>es d. time_Parse (layout_DateOnly @ es) s = Some d \<and> (\<forall>e \<in> set es. \<not> date_elem e)
      \<and> formatDate (Some s) = format_date d"
  proof (cases "time_Parse layout_RFC3339 s")
    case (Some d)
    then have "time_Parse (layout_DateOnly @ layout_clock @ [ISO8601ColonTZ]) s = Some d"
      "formatDate (Some s) = format_date d"
      using assms by (auto simp: formatDate_def layout_RFC3339_def layout_DateTime_def split: if_splits)
    then show ?thesis using clock_not_date(2) by blast
  next
    case rfc: None
    show ?thesis
    proof (cases "time_Parse layout_DateTime s")
      case (Some d)
      then have "time_Parse (layout_DateOnly @ layout_clock) s = Some d"
        "formatDate (Some s) = format_date d"
        using assms rfc by (auto simp: formatDate_def layout_DateTime_def split: if_splits)
      then show ?thesis using clock_not_date(1) by blast
    next
      case None
      then obtain d where "time_Parse (layout_DateOnly @ []) s = Some d" "formatDate (Some s) = format_date d"
        using assms rfc by (auto simp: formatDate_def split: if_splits option.splits)
      then show ?thesis by fastforce
    qed
  qed
  then show ?thesis using time_Parse_prefix by blast
qed

text \<open>The dates and times the sanitizer accepts, written out.\<close>

lemma formatDate_iso_date:
  assumes "valid_date d"
  shows "formatDate (Some (iso_date d)) = format_date d"
proof -
  have ne: "iso_date d \<noteq> ''''" by (simp add: iso_date_def pad4_def)
  have a: "time_Parse layout_RFC3339 (iso_date d) = None"
    using assms parse_iso_date [of d _ "[]"]
    by (auto simp: time_Parse_def layout_RFC3339_def layout_DateTime_def layout_clock_def parse_elems_append
        split: option.splits)
  have b: "time_Parse layout_DateTime (iso_date d) = None"
    using assms parse_iso_date [of d _ "[]"]
    by (auto simp: time_Parse_def layout_DateTime_def layout_clock_def parse_elems_append
        split: option.splits)
  show ?thesis using ne a b time_Parse_DateOnly [OF assms] by (simp add: formatDate_def)
qed


definition zone_suffix :: "string \<Rightarrow> bool" where
  "zone_suffix z \<longleftrightarrow> z = '''' \<or> z = ''Z''
     \<or> (\<exists>sg hh mm. (sg = CHR ''+'' \<or> sg = CHR ''-'') \<and> hh \<le> 24 \<and> mm \<le> 60
          \<and> z = sg # pad2 hh @ '':'' @ pad2 mm)"

lemma skip_fraction_zone: "zone_suffix z \<Longrightarrow> skip_fraction z = z"
  by (auto simp: zone_suffix_def skip_fraction_def pad2_def)

lemma parse_zone_suffix: "zone_suffix z \<Longrightarrow> z = '''' \<or> parse_zone z = Some ''''"
  by (auto simp: zone_suffix_def parse_zone_def pad2_def)

lemma time_Parse_clock:
  assumes "valid_date d" "h < 24" "m < 60" "s < 60" "zone_suffix z" "parse_elems es (d, z) = Some (d, '''')"
  shows "time_Parse (layout_DateTime @ es) (iso_date d @ clock_string h m s @ z) = Some d"
  using parse_iso_date [OF assms(1)] parse_clock [OF assms(2-4) skip_fraction_zone [OF assms(5)]] assms(1,6)
  by (simp add: time_Parse_def layout_DateTime_def parse_elems_append valid_date_def date_eta)

lemma formatDate_datetime:
  assumes "valid_date d" "h < 24" "m < 60" "s < 60" "zone_suffix z"
  shows "formatDate (Some (iso_date d @ clock_string h m s @ z)) = format_date d"
proof (cases "z = ''''")
  case True
  have a: "time_Parse layout_RFC3339 (iso_date d @ clock_string h m s) = None"
    using parse_iso_date [OF assms(1)] parse_clock [OF assms(2-4), of "[]"]
    by (simp add: time_Parse_def layout_RFC3339_def layout_DateTime_def parse_elems_append
        skip_fraction_def parse_zone_def)
  show ?thesis using time_Parse_clock [OF assms, of "[]"] a
    by (simp add: formatDate_def True iso_date_def pad4_def)
next
  case False
  then have "parse_zone z = Some ''''" using parse_zone_suffix [OF assms(5)] by blast
  then show ?thesis using time_Parse_clock [OF assms, of "[ISO8601ColonTZ]"]
    by (simp add: formatDate_def layout_RFC3339_def iso_date_def pad4_def)
qed

section \<open>Properties\<close>

text \<open>C21. What reaches the client through \<open>sanitizeOutput\<close>: exactly the runes of the input that
  are neither control characters (tab, line feed and carriage return excepted) nor bidirectional
  formatting, in valid UTF-8; no byte of the result is a forbidden control character, and
  sanitizing again changes nothing.\<close>

theorem sanitizeOutput_spec:
  "runes (sanitizeOutput s) = filter (\<lambda>r. \<not> hard_control r \<and> \<not> bidi_rune r) (runes s)
   \<and> utf8_valid (sanitizeOutput s)
   \<and> filter (\<lambda>c. hard_control (byte_val c)) (sanitizeOutput s) = []
   \<and> sanitizeOutput (sanitizeOutput s) = sanitizeOutput s"
  using outp.runes_san [of s] outp.san_utf8 outp.san_no_control_byte outp.san_idem
  by (auto simp: output_keep_def [abs_def] filter_empty_conv)

text \<open>C22. No log injection: what \<open>SanitizeLog\<close> returns is a single line (no line feed, no
  carriage return) without control bytes other than tab and without bidirectional formatting, and
  it keeps every other rune in order.\<close>

theorem SanitizeLog_spec:
  "runes (SanitizeLog s) = filter (\<lambda>r. \<not> hard_control r \<and> r \<noteq> 0x0A \<and> r \<noteq> 0x0D \<and> \<not> bidi_rune r) (runes s)
   \<and> filter (\<lambda>c. byte_val c < 0x20 \<and> c \<noteq> CHR 0x09 \<or> byte_val c = 0x7F) (SanitizeLog s) = []
   \<and> SanitizeLog (SanitizeLog s) = SanitizeLog s"
proof -
  have "\<not> (byte_val c < 0x20 \<and> c \<noteq> CHR 0x09 \<or> byte_val c = 0x7F)" if "c \<in> set (SanitizeLog s)" for c
  proof -
    have "byte_val c \<noteq> 0x09 \<or> c = CHR 0x09" "byte_val c \<noteq> 0x0A \<or> c = CHR 0x0A"
      "byte_val c \<noteq> 0x0D \<or> c = CHR 0x0D"
      using of_char_inject_simps [of c "CHR 0x09"] of_char_inject_simps [of c "CHR 0x0A"]
        of_char_inject_simps [of c "CHR 0x0D"] by auto
    with logl.san_no_control_byte [OF that] logl.san_single_line [OF that] show ?thesis
      by (auto simp: hard_control_def)
  qed
  then have "filter (\<lambda>c. byte_val c < 0x20 \<and> c \<noteq> CHR 0x09 \<or> byte_val c = 0x7F) (SanitizeLog s) = []"
    by (simp only: filter_empty_conv) blast
  then show ?thesis using logl.runes_san [of s] logl.san_idem [of s]
    by (simp add: log_keep_def [abs_def])
qed

text \<open>C9. A link that reaches the client is empty or starts with the scheme http or https, and it
  contains no control byte, whatever the search engine returned.\<close>

theorem sanitizeURL_safe:
  "(sanitizeURL hp s = '''' \<or> has_prefix (sanitizeURL hp s) ''http:'' \<or> has_prefix (sanitizeURL hp s) ''https:'')
   \<and> filter (\<lambda>c. byte_val c < 0x20 \<or> byte_val c = 0x7F) (sanitizeURL hp s) = []"
  using sanitizeURL_scheme [of hp s] sanitizeURL_noctl [of hp s]
  by (auto simp: noctl_def ctl_byte_def filter_empty_conv list_all_iff)

text \<open>C40. Every date and time of day in ISO 8601 form, with any time zone or none, is printed as its
  own calendar date: the zone shifts nothing.\<close>

theorem formatDate_iso:
  assumes "valid_date d" "h < 24" "m < 60" "s < 60" "zone_suffix z"
  shows "formatDate (Some (iso_date d)) = format_date d
    \<and> formatDate (Some (iso_date d @ clock_string h m s @ z)) = format_date d"
  using formatDate_iso_date [OF assms(1)] formatDate_datetime [OF assms] by simp

lemma formatDate_iso_witness:
  "formatDate (Some (iso_date \<lparr>c_year = 2024, c_month = 2, c_day = 29\<rparr>
     @ clock_string 23 59 58 @ (CHR ''+'' # pad2 5 @ '':'' @ pad2 30))) = ''29 Feb 2024''"
proof -
  have v: "valid_date \<lparr>c_year = 2024, c_month = 2, c_day = 29\<rparr>"
    by (simp add: valid_date_def daysIn_def isLeap_def)
  have z: "zone_suffix (CHR ''+'' # pad2 5 @ '':'' @ pad2 30)"
    unfolding zone_suffix_def by (intro disjI2 exI [of _ "CHR ''+''"] exI [of _ 5] exI [of _ 30]) simp
  have f: "format_date \<lparr>c_year = 2024, c_month = 2, c_day = 29\<rparr> = ''29 Feb 2024''"
    by code_simp
  show ?thesis using formatDate_iso [OF v _ _ _ z, of 23 59 58] f by (simp del: append.simps)
qed

text \<open>A formatted date is never invented: whenever \<open>formatDate\<close> returns something, the text
  begins with an ISO 8601 date that exists in the calendar and the result is that date.\<close>

theorem formatDate_exact:
  "formatDate (Some s) = '''' \<or> (\<exists>d r. valid_date d \<and> s = iso_date d @ r \<and> formatDate (Some s) = format_date d)"
  using formatDate_sound by blast


end
