(* ===== verification/Tools.thy ===== *)
theory Tools
  imports Sanitize
begin

text \<open>
  \<open>handlers/tools.go\<close>: the input and output types of the five search tools, the validators,
  \<open>searchHelper\<close>, \<open>buildInfoboxes\<close> and the five handlers. A handler is a function of the
  context, the input and the world; its result is an error or an output (the Go handlers return a
  nil \<open>CallToolResult\<close> and, with an error, the zero output). The parameter \<open>hp\<close> is the host
  function of \<open>GoUrl\<close>.
\<close>

section \<open>Limits\<close>

definition MaxQueryLength :: nat where
  "MaxQueryLength = 512"

definition MaxPageNumber :: int where
  "MaxPageNumber = 100"

section \<open>Inputs and outputs\<close>

record search_input =
  in_Query :: string
  in_Categories :: "string list"
  in_Language :: string
  in_Page :: int
  in_TimeRange :: string
  in_SafeSearch :: int
  in_MaxResults :: "64 word option"

record search_news_input =
  nw_Query :: string
  nw_Language :: string
  nw_Page :: int
  nw_SafeSearch :: int
  nw_MaxResults :: "64 word option"

record search_images_input =
  im_Query :: string
  im_Page :: int
  im_SafeSearch :: int
  im_Language :: string
  im_MaxResults :: "64 word option"

record search_videos_input =
  vd_Query :: string
  vd_Page :: int
  vd_SafeSearch :: int
  vd_Language :: string
  vd_MaxResults :: "64 word option"

record search_music_input =
  mu_Query :: string
  mu_Page :: int
  mu_SafeSearch :: int
  mu_Language :: string
  mu_MaxResults :: "64 word option"

record search_result_item =
  it_Title :: string
  it_URL :: string
  it_Content :: string
  it_Engine :: string
  it_Category :: string
  it_PublishedDate :: "string option"
  it_FormattedDate :: string
  it_ImgSrc :: "string option"
  it_Source :: "string option"

record infobox_attribute_item =
  ai_Key :: string
  ai_Value :: string

record infobox_url_item =
  ui_Title :: string
  ui_URL :: string

record infobox_item =
  bi_ID :: string
  bi_URL :: string
  bi_Content :: string
  bi_Attributes :: "infobox_attribute_item list"
  bi_URLs :: "infobox_url_item list"
  bi_ImgSrc :: "string option"
  bi_Engine :: string

record search_output =
  out_Query :: string
  out_Results :: "search_result_item list"
  out_Answers :: "string list"
  out_Suggestions :: "string list"
  out_Infoboxes :: "infobox_item list"
  out_NumberOfResults :: int

section \<open>Validation\<close>

text \<open>\<open>None\<close> is the nil error. The length is the number of bytes, as \<open>len\<close> counts them.\<close>

definition validateQuery :: "string \<Rightarrow> err option" where
  "validateQuery q =
     (if q = '''' then Some ErrInvalidQuery
      else if length q > MaxQueryLength then Some ErrQueryTooLong
      else None)"

definition validatePage :: "int \<Rightarrow> err option" where
  "validatePage page = (if page > MaxPageNumber then Some ErrPageTooLarge else None)"

section \<open>Building the output\<close>

definition build_item :: "(string \<Rightarrow> string option) \<Rightarrow> search_result \<Rightarrow> search_result_item" where
  "build_item hp r =
     \<lparr>it_Title = sanitizeOutput (sr_Title r),
      it_URL = sanitizeURL hp (sr_URL r),
      it_Content = sanitizeOutput (sr_Content r),
      it_Engine = sanitizeOutput (sr_Engine r),
      it_Category = sanitizeOutput (sr_Category r),
      it_PublishedDate = sr_PublishedDate r,
      it_FormattedDate = formatDate (sr_PublishedDate r),
      it_ImgSrc = sanitizeImgSrc hp (sr_ImgSrc r),
      it_Source = sanitizeOutputPtr (sr_Source r)\<rparr>"

definition build_infobox :: "(string \<Rightarrow> string option) \<Rightarrow> infobox \<Rightarrow> infobox_item" where
  "build_infobox hp b =
     \<lparr>bi_ID = sanitizeOutput (ib_ID b),
      bi_URL = sanitizeURL hp (ib_URL b),
      bi_Content = sanitizeOutput (ib_Content b),
      bi_Attributes =
        map (\<lambda>a. \<lparr>ai_Key = sanitizeOutput (ia_Key a), ai_Value = sanitizeOutput (ia_Value a)\<rparr>)
          (ib_Attributes b),
      bi_URLs =
        map (\<lambda>u. \<lparr>ui_Title = sanitizeOutput (iu_Title u), ui_URL = sanitizeURL hp (iu_URL u)\<rparr>)
          (ib_URLs b),
      bi_ImgSrc = sanitizeImgSrc hp (ib_ImgSrc b),
      bi_Engine = sanitizeOutput (ib_Engine b)\<rparr>"

definition buildInfoboxes :: "(string \<Rightarrow> string option) \<Rightarrow> infobox list \<Rightarrow> infobox_item list" where
  "buildInfoboxes hp source = map (build_infobox hp) source"

text \<open>
  The truncation of the results. \<open>uint64(len(results))\<close> is exact, because a Go slice has fewer
  than \<open>2 ^ 63\<close> elements, and so is \<open>int(*maxResults)\<close> behind the comparison.
\<close>

definition truncate_results :: "64 word option \<Rightarrow> 'a list \<Rightarrow> 'a list" where
  "truncate_results maxResults results =
     (case maxResults of
        None \<Rightarrow> results
      | Some m \<Rightarrow> if unat m < length results then take (unat m) results else results)"

definition build_output ::
  "(string \<Rightarrow> string option) \<Rightarrow> 64 word option \<Rightarrow> search_response \<Rightarrow> search_output" where
  "build_output hp maxResults r =
     \<lparr>out_Query = sanitizeOutput (rp_Query r),
      out_Results = map (build_item hp) (truncate_results maxResults (rp_Results r)),
      out_Answers = map sanitizeOutput (rp_Answers r),
      out_Suggestions = map sanitizeOutput (rp_Suggestions r),
      out_Infoboxes = buildInfoboxes hp (rp_Infoboxes r),
      out_NumberOfResults = rp_NumberOfResults r\<rparr>"

definition clamp_page :: "int \<Rightarrow> int" where
  "clamp_page page = (if page \<le> 0 then 1 else page)"

definition searchHelper ::
  "(string \<Rightarrow> string option) \<Rightarrow> 'u search_service \<Rightarrow> ctx \<Rightarrow> search_params \<Rightarrow> 64 word option
     \<Rightarrow> 'u world \<Rightarrow> search_output result \<times> 'u world" where
  "searchHelper hp svc c params maxResults w =
     (case service_Search svc c (params\<lparr>pm_Page := clamp_page (pm_Page params)\<rparr>) w of
        (Inl e, w') \<Rightarrow> (Inl e, w')
      | (Inr r, w') \<Rightarrow> (Inr (build_output hp maxResults r), w'))"

section \<open>The handlers\<close>

type_synonym ('i, 'u) tool_handler = "ctx \<Rightarrow> 'i \<Rightarrow> 'u world \<Rightarrow> search_output result \<times> 'u world"

text \<open>\<open>logger.Errorf(prefix + "%s", SanitizeLog(err.Error()))\<close>.\<close>

definition log_error :: "logger \<Rightarrow> string \<Rightarrow> err \<Rightarrow> 'u world \<Rightarrow> 'u world" where
  "log_error lg pfx e w = log_with lg ErrorLevel (pfx @ SanitizeLog (err_msg e)) [] w"

definition NewSearchHandler ::
  "(string \<Rightarrow> string option) \<Rightarrow> logger \<Rightarrow> 'u search_service \<Rightarrow> (search_input, 'u) tool_handler" where
  "NewSearchHandler hp lg svc c i w =
     (case validateQuery (in_Query i) of
        Some e \<Rightarrow> (Inl (ErrWrap ''search: '' e), log_error lg ''search validation: '' e w)
      | None \<Rightarrow>
          (case validatePage (in_Page i) of
             Some e \<Rightarrow> (Inl (ErrWrap ''search: '' e), log_error lg ''search validation: '' e w)
           | None \<Rightarrow>
               (case searchHelper hp svc c
                       \<lparr>pm_Query = in_Query i, pm_Categories = in_Categories i,
                        pm_Language = in_Language i, pm_Page = in_Page i,
                        pm_TimeRange = in_TimeRange i, pm_SafeSearch = in_SafeSearch i\<rparr>
                       (in_MaxResults i) w of
                  (Inl e, w') \<Rightarrow>
                    (Inl (ErrWrap ''search: '' ErrSearchFailed), log_error lg ''search: '' e w')
                | (Inr out, w') \<Rightarrow> (Inr out, w'))))"

definition NewSearchNewsHandler ::
  "(string \<Rightarrow> string option) \<Rightarrow> logger \<Rightarrow> 'u search_service \<Rightarrow> (search_news_input, 'u) tool_handler" where
  "NewSearchNewsHandler hp lg svc c i w =
     (case validateQuery (nw_Query i) of
        Some e \<Rightarrow> (Inl (ErrWrap ''search_news: '' e), log_error lg ''search_news validation: '' e w)
      | None \<Rightarrow>
          (case validatePage (nw_Page i) of
             Some e \<Rightarrow> (Inl (ErrWrap ''search_news: '' e), log_error lg ''search_news validation: '' e w)
           | None \<Rightarrow>
               (case searchHelper hp svc c
                       \<lparr>pm_Query = nw_Query i, pm_Categories = [''news''],
                        pm_Language = nw_Language i, pm_Page = nw_Page i,
                        pm_TimeRange = ''day'', pm_SafeSearch = nw_SafeSearch i\<rparr>
                       (nw_MaxResults i) w of
                  (Inl e, w') \<Rightarrow>
                    (Inl (ErrWrap ''search_news: '' ErrSearchFailed), log_error lg ''search_news: '' e w')
                | (Inr out, w') \<Rightarrow> (Inr out, w'))))"

definition NewSearchImagesHandler ::
  "(string \<Rightarrow> string option) \<Rightarrow> logger \<Rightarrow> 'u search_service \<Rightarrow> (search_images_input, 'u) tool_handler" where
  "NewSearchImagesHandler hp lg svc c i w =
     (case validateQuery (im_Query i) of
        Some e \<Rightarrow> (Inl (ErrWrap ''search_images: '' e), log_error lg ''search_images validation: '' e w)
      | None \<Rightarrow>
          (case validatePage (im_Page i) of
             Some e \<Rightarrow> (Inl (ErrWrap ''search_images: '' e), log_error lg ''search_images validation: '' e w)
           | None \<Rightarrow>
               (case searchHelper hp svc c
                       \<lparr>pm_Query = im_Query i, pm_Categories = [''images''],
                        pm_Language = im_Language i, pm_Page = im_Page i,
                        pm_TimeRange = '''', pm_SafeSearch = im_SafeSearch i\<rparr>
                       (im_MaxResults i) w of
                  (Inl e, w') \<Rightarrow>
                    (Inl (ErrWrap ''search_images: '' ErrSearchFailed), log_error lg ''search_images: '' e w')
                | (Inr out, w') \<Rightarrow> (Inr out, w'))))"

definition NewSearchVideosHandler ::
  "(string \<Rightarrow> string option) \<Rightarrow> logger \<Rightarrow> 'u search_service \<Rightarrow> (search_videos_input, 'u) tool_handler" where
  "NewSearchVideosHandler hp lg svc c i w =
     (case validateQuery (vd_Query i) of
        Some e \<Rightarrow> (Inl (ErrWrap ''search_videos: '' e), log_error lg ''search_videos validation: '' e w)
      | None \<Rightarrow>
          (case validatePage (vd_Page i) of
             Some e \<Rightarrow> (Inl (ErrWrap ''search_videos: '' e), log_error lg ''search_videos validation: '' e w)
           | None \<Rightarrow>
               (case searchHelper hp svc c
                       \<lparr>pm_Query = vd_Query i, pm_Categories = [''videos''],
                        pm_Language = vd_Language i, pm_Page = vd_Page i,
                        pm_TimeRange = '''', pm_SafeSearch = vd_SafeSearch i\<rparr>
                       (vd_MaxResults i) w of
                  (Inl e, w') \<Rightarrow>
                    (Inl (ErrWrap ''search_videos: '' ErrSearchFailed), log_error lg ''search_videos: '' e w')
                | (Inr out, w') \<Rightarrow> (Inr out, w'))))"

definition NewSearchMusicHandler ::
  "(string \<Rightarrow> string option) \<Rightarrow> logger \<Rightarrow> 'u search_service \<Rightarrow> (search_music_input, 'u) tool_handler" where
  "NewSearchMusicHandler hp lg svc c i w =
     (case validateQuery (mu_Query i) of
        Some e \<Rightarrow> (Inl (ErrWrap ''search_music: '' e), log_error lg ''search_music validation: '' e w)
      | None \<Rightarrow>
          (case validatePage (mu_Page i) of
             Some e \<Rightarrow> (Inl (ErrWrap ''search_music: '' e), log_error lg ''search_music validation: '' e w)
           | None \<Rightarrow>
               (case searchHelper hp svc c
                       \<lparr>pm_Query = mu_Query i, pm_Categories = [''music''],
                        pm_Language = mu_Language i, pm_Page = mu_Page i,
                        pm_TimeRange = '''', pm_SafeSearch = mu_SafeSearch i\<rparr>
                       (mu_MaxResults i) w of
                  (Inl e, w') \<Rightarrow>
                    (Inl (ErrWrap ''search_music: '' ErrSearchFailed), log_error lg ''search_music: '' e w')
                | (Inr out, w') \<Rightarrow> (Inr out, w'))))"

section \<open>Validation and truncation\<close>

lemma validateQuery_None: "validateQuery q = None \<longleftrightarrow> 1 \<le> length q \<and> length q \<le> MaxQueryLength"
  by (cases q) (auto simp: validateQuery_def)

lemma validatePage_None: "validatePage n = None \<longleftrightarrow> n \<le> MaxPageNumber"
  by (simp add: validatePage_def)

lemma clamp_page_range: "validatePage n = None \<Longrightarrow> 1 \<le> clamp_page n \<and> clamp_page n \<le> MaxPageNumber"
  by (simp add: validatePage_None clamp_page_def MaxPageNumber_def)

lemma truncate_results_take:
  "truncate_results mx rs = take (case mx of None \<Rightarrow> length rs | Some m \<Rightarrow> unat m) rs"
  by (simp add: truncate_results_def split: option.split)

lemma log_error_frame [simp]:
  "upstream (log_error lg p e w) = upstream w"
  "tool_requests (log_error lg p e w) = tool_requests w"
  by (simp_all add: log_error_def)

section \<open>Clean outputs\<close>

definition clean_text :: "string \<Rightarrow> bool" where
  "clean_text s \<longleftrightarrow> (\<forall>r \<in> set (runes s). \<not> hard_control r \<and> \<not> bidi_rune r)"

definition safe_link :: "string \<Rightarrow> bool" where
  "safe_link s \<longleftrightarrow> s = '''' \<or> ((has_prefix s ''http:'' \<or> has_prefix s ''https:'') \<and> noctl s)"

definition safe_image :: "(string \<Rightarrow> string option) \<Rightarrow> string option \<Rightarrow> bool" where
  "safe_image hp s \<longleftrightarrow>
     (case s of
        None \<Rightarrow> True
      | Some i \<Rightarrow> (\<exists>u. url_Parse hp i = Some u \<and> Scheme u \<in> {'''', ''http'', ''https'', ''data''}))"

definition clean_item :: "(string \<Rightarrow> string option) \<Rightarrow> search_result_item \<Rightarrow> bool" where
  "clean_item hp it \<longleftrightarrow> clean_text (it_Title it) \<and> clean_text (it_Content it) \<and> clean_text (it_Engine it)
     \<and> clean_text (it_Category it) \<and> clean_text (it_FormattedDate it)
     \<and> (\<forall>s. it_Source it = Some s \<longrightarrow> clean_text s)
     \<and> safe_link (it_URL it) \<and> safe_image hp (it_ImgSrc it)"

definition clean_infobox :: "(string \<Rightarrow> string option) \<Rightarrow> infobox_item \<Rightarrow> bool" where
  "clean_infobox hp b \<longleftrightarrow> clean_text (bi_ID b) \<and> clean_text (bi_Content b) \<and> clean_text (bi_Engine b)
     \<and> safe_link (bi_URL b) \<and> safe_image hp (bi_ImgSrc b)
     \<and> (\<forall>a \<in> set (bi_Attributes b). clean_text (ai_Key a) \<and> clean_text (ai_Value a))
     \<and> (\<forall>u \<in> set (bi_URLs b). clean_text (ui_Title u) \<and> safe_link (ui_URL u))"

definition clean_output :: "(string \<Rightarrow> string option) \<Rightarrow> search_output \<Rightarrow> bool" where
  "clean_output hp out \<longleftrightarrow> clean_text (out_Query out)
     \<and> (\<forall>it \<in> set (out_Results out). clean_item hp it)
     \<and> (\<forall>s \<in> set (out_Answers out). clean_text s)
     \<and> (\<forall>s \<in> set (out_Suggestions out). clean_text s)
     \<and> (\<forall>b \<in> set (out_Infoboxes out). clean_infobox hp b)"

lemma clean_text_sanitizeOutput [simp]: "clean_text (sanitizeOutput s)"
  using outp.san_runes_clean by (simp add: clean_text_def)

lemma safe_link_sanitizeURL [simp]: "safe_link (sanitizeURL hp s)"
  using sanitizeURL_scheme [of hp s] sanitizeURL_noctl [of hp s] by (auto simp: safe_link_def)

lemma safe_image_sanitizeImgSrc [simp]: "safe_image hp (sanitizeImgSrc hp s)"
  by (auto simp: safe_image_def sanitizeImgSrc_def split: option.splits)

lemma clean_text_printable:
  "\<forall>c \<in> set s. 0x20 \<le> byte_val c \<and> byte_val c < 0x7F \<Longrightarrow> clean_text s"
  using outp.san_printable_id [of s] clean_text_sanitizeOutput [of s] by simp

lemma digit_printable: "is_digit c \<Longrightarrow> 0x20 \<le> byte_val c \<and> byte_val c < 0x7F"
  by (auto simp: is_digit_def)

lemma pad4_digits: "n < 10000 \<Longrightarrow> c \<in> set (pad4 n) \<Longrightarrow> is_digit c"
  by (auto simp: pad4_def)

lemma month_names_printable:
  "\<forall>m \<in> set month_names. \<forall>c \<in> set m. 0x20 \<le> byte_val c \<and> byte_val c < 0x7F"
  by (simp add: month_names_def)

lemma format_date_printable:
  assumes "valid_date d" "c \<in> set (format_date d)"
  shows "0x20 \<le> byte_val c \<and> byte_val c < 0x7F"
proof -
  have "c_month d - 1 < length month_names"
    using assms(1) by (auto simp: valid_date_def month_names_def)
  then have m: "month_names ! (c_month d - 1) \<in> set month_names" by (rule nth_mem)
  have y: "c_year d < 10000" using assms(1) by (simp add: valid_date_def)
  consider "c \<in> set (nat_digits (c_day d))" | "c = CHR '' ''"
    | "c \<in> set (month_names ! (c_month d - 1))" | "c \<in> set (pad4 (c_year d))"
    using assms(2) by (auto simp: format_date_def)
  then show ?thesis
  proof cases
    case 3
    then show ?thesis using m month_names_printable by blast
    next
    case 1
    then show ?thesis by (rule digit_printable [OF nat_digits_all_digits])
  next
    case 4
    then show ?thesis by (rule digit_printable [OF pad4_digits [OF y]])
  qed auto
qed

lemma clean_text_formatDate [simp]: "clean_text (formatDate d)"
proof (cases "formatDate d = ''''")
  case True
  then show ?thesis by (simp add: clean_text_def runes_def)
next
  case False
  then obtain s where "d = Some s" by (cases d) (auto simp: formatDate_def)
  with False obtain e where "valid_date e" "formatDate d = format_date e"
    using formatDate_sound by blast
  then show ?thesis using format_date_printable by (auto intro: clean_text_printable)
qed

lemma clean_item_build [simp]: "clean_item hp (build_item hp r)"
  by (auto simp: clean_item_def build_item_def sanitizeOutputPtr_def split: option.splits)

lemma clean_infobox_build [simp]: "clean_infobox hp (build_infobox hp b)"
  by (auto simp: clean_infobox_def build_infobox_def)

lemma clean_output_build: "clean_output hp (build_output hp mx r)"
  by (auto simp: clean_output_def build_output_def buildInfoboxes_def)

section \<open>What every search tool promises\<close>

text \<open>
  The five handlers share a contract: validate the query, then the page, then search with the
  parameters the tool presets; every failure is logged with the tool's label and returned as one of
  the sentinel errors under that label.
\<close>

definition valid_params :: "search_params \<Rightarrow> bool" where
  "valid_params p \<longleftrightarrow> 1 \<le> length (pm_Query p) \<and> length (pm_Query p) \<le> MaxQueryLength
     \<and> 1 \<le> pm_Page p \<and> pm_Page p \<le> MaxPageNumber"

definition client_error :: "string \<Rightarrow> err \<Rightarrow> bool" where
  "client_error label e \<longleftrightarrow>
     (\<exists>s \<in> {ErrInvalidQuery, ErrQueryTooLong, ErrPageTooLarge, ErrSearchFailed}. e = ErrWrap (label @ '': '') s)"

locale search_tool =
  fixes label :: string
    and query :: "'i \<Rightarrow> string"
    and page :: "'i \<Rightarrow> int"
    and max_results :: "'i \<Rightarrow> 64 word option"
    and params :: "'i \<Rightarrow> search_params"
    and handler :: "(string \<Rightarrow> string option) \<Rightarrow> logger \<Rightarrow> 'u search_service \<Rightarrow> ('i, 'u) tool_handler"
  assumes bad_query: "validateQuery (query i) = Some e \<Longrightarrow>
      handler hp lg svc c i w = (Inl (ErrWrap (label @ '': '') e), log_error lg (label @ '' validation: '') e w)"
    and bad_page: "validateQuery (query i) = None \<Longrightarrow> validatePage (page i) = Some e \<Longrightarrow>
      handler hp lg svc c i w = (Inl (ErrWrap (label @ '': '') e), log_error lg (label @ '' validation: '') e w)"
    and good_input: "validateQuery (query i) = None \<Longrightarrow> validatePage (page i) = None \<Longrightarrow>
      handler hp lg svc c i w =
        (case searchHelper hp svc c (params i) (max_results i) w of
           (Inl e, w') \<Rightarrow> (Inl (ErrWrap (label @ '': '') ErrSearchFailed), log_error lg (label @ '': '') e w')
         | (Inr out, w') \<Rightarrow> (Inr out, w'))"
    and params_query: "pm_Query (params i) = query i"
    and params_page: "pm_Page (params i) = page i"
begin

lemma handler_cases:
  obtains (query) e where "validateQuery (query i) = Some e"
  | (page) e where "validateQuery (query i) = None" "validatePage (page i) = Some e"
  | (good) "validateQuery (query i) = None" "validatePage (page i) = None"
  by (cases "validateQuery (query i)"; cases "validatePage (page i)") auto

lemma rejected_untouched:
  assumes "\<not> (1 \<le> length (query i) \<and> length (query i) \<le> MaxQueryLength \<and> page i \<le> MaxPageNumber)"
  shows "upstream (snd (handler hp lg svc c i w)) = upstream w
    \<and> (\<exists>e. fst (handler hp lg svc c i w) = Inl e)"
proof (cases rule: handler_cases [of i])
  case good
  with assms show ?thesis by (simp add: validateQuery_None validatePage_None)
qed (simp_all add: bad_query bad_page)

lemma error_hidden:
  assumes "fst (handler hp lg svc c i w) = Inl e"
  shows "client_error label e"
proof (cases rule: handler_cases [of i])
  case (query e')
  then show ?thesis using assms
    by (auto simp: bad_query client_error_def validateQuery_def split: if_splits)
next
  case (page e')
  then show ?thesis using assms
    by (auto simp: bad_page client_error_def validatePage_def split: if_splits)
next
  case good
  then show ?thesis using assms
    by (auto simp: good_input client_error_def split: prod.splits sum.splits)
qed

lemma success:
  assumes "fst (handler hp lg svc c i w) = Inr out"
  shows "valid_params ((params i)\<lparr>pm_Page := clamp_page (page i)\<rparr>)
    \<and> (\<exists>r. svc_repo svc c ((params i)\<lparr>pm_Page := clamp_page (page i)\<rparr>) w = (Inr r, snd (handler hp lg svc c i w))
           \<and> out = build_output hp (max_results i) r)"
proof (cases rule: handler_cases [of i])
  case good
  then obtain r where "service_Search svc c ((params i)\<lparr>pm_Page := clamp_page (page i)\<rparr>) w
        = (Inr r, snd (handler hp lg svc c i w))" "out = build_output hp (max_results i) r"
    using assms by (auto simp: good_input searchHelper_def params_page split: prod.splits sum.splits)
  then show ?thesis using good clamp_page_range
    by (auto simp: service_Search_Inr valid_params_def params_query validateQuery_None)
qed (use assms in \<open>auto simp: bad_query bad_page\<close>)

lemma success_clean:
  assumes "fst (handler hp lg svc c i w) = Inr out"
  shows "clean_output hp out"
  using success [OF assms] clean_output_build by auto

lemma success_bounded:
  assumes "fst (handler hp lg svc c i w) = Inr out" "max_results i = Some m"
  shows "length (out_Results out) \<le> unat m"
  using success [OF assms(1)] assms(2) by (auto simp: build_output_def truncate_results_take)

lemma only_valid_calls:
  assumes "\<And>p. valid_params p \<Longrightarrow> svc_repo s1 c p w = svc_repo s2 c p w"
  shows "handler hp lg s1 c i w = handler hp lg s2 c i w"
proof (cases rule: handler_cases [of i])
  case good
  then have "valid_params ((params i)\<lparr>pm_Page := clamp_page (page i)\<rparr>)"
    using clamp_page_range by (simp add: valid_params_def params_query validateQuery_None)
  then show ?thesis using good assms
    by (simp add: good_input searchHelper_def service_Search_def params_page)
qed (simp_all add: bad_query bad_page)

end

text \<open>The parameters each tool searches with.\<close>

definition search_params_of :: "search_input \<Rightarrow> search_params" where
  "search_params_of i =
     \<lparr>pm_Query = in_Query i, pm_Categories = in_Categories i, pm_Language = in_Language i,
      pm_Page = in_Page i, pm_TimeRange = in_TimeRange i, pm_SafeSearch = in_SafeSearch i\<rparr>"

definition news_params_of :: "search_news_input \<Rightarrow> search_params" where
  "news_params_of i =
     \<lparr>pm_Query = nw_Query i, pm_Categories = [''news''], pm_Language = nw_Language i,
      pm_Page = nw_Page i, pm_TimeRange = ''day'', pm_SafeSearch = nw_SafeSearch i\<rparr>"

definition images_params_of :: "search_images_input \<Rightarrow> search_params" where
  "images_params_of i =
     \<lparr>pm_Query = im_Query i, pm_Categories = [''images''], pm_Language = im_Language i,
      pm_Page = im_Page i, pm_TimeRange = '''', pm_SafeSearch = im_SafeSearch i\<rparr>"

definition videos_params_of :: "search_videos_input \<Rightarrow> search_params" where
  "videos_params_of i =
     \<lparr>pm_Query = vd_Query i, pm_Categories = [''videos''], pm_Language = vd_Language i,
      pm_Page = vd_Page i, pm_TimeRange = '''', pm_SafeSearch = vd_SafeSearch i\<rparr>"

definition music_params_of :: "search_music_input \<Rightarrow> search_params" where
  "music_params_of i =
     \<lparr>pm_Query = mu_Query i, pm_Categories = [''music''], pm_Language = mu_Language i,
      pm_Page = mu_Page i, pm_TimeRange = '''', pm_SafeSearch = mu_SafeSearch i\<rparr>"

interpretation web: search_tool "''search''" in_Query in_Page in_MaxResults search_params_of NewSearchHandler
  by unfold_locales (auto simp: NewSearchHandler_def search_params_of_def split: prod.split sum.split)

interpretation news: search_tool "''search_news''" nw_Query nw_Page nw_MaxResults news_params_of
  NewSearchNewsHandler
  by unfold_locales (auto simp: NewSearchNewsHandler_def news_params_of_def split: prod.split sum.split)

interpretation images: search_tool "''search_images''" im_Query im_Page im_MaxResults images_params_of
  NewSearchImagesHandler
  by unfold_locales (auto simp: NewSearchImagesHandler_def images_params_of_def split: prod.split sum.split)

interpretation videos: search_tool "''search_videos''" vd_Query vd_Page vd_MaxResults videos_params_of
  NewSearchVideosHandler
  by unfold_locales (auto simp: NewSearchVideosHandler_def videos_params_of_def split: prod.split sum.split)

interpretation music: search_tool "''search_music''" mu_Query mu_Page mu_MaxResults music_params_of
  NewSearchMusicHandler
  by unfold_locales (auto simp: NewSearchMusicHandler_def music_params_of_def split: prod.split sum.split)

section \<open>Any tool call\<close>

text \<open>
  A call of one of the five registered tools; \<open>handle_call\<close> is the handler that
  \<open>registerTool\<close> selects by the tool's name.
\<close>

datatype tool_call =
    CallSearch search_input
  | CallNews search_news_input
  | CallImages search_images_input
  | CallVideos search_videos_input
  | CallMusic search_music_input

fun call_name :: "tool_call \<Rightarrow> string" where
  "call_name (CallSearch i) = ''search''"
| "call_name (CallNews i) = ''search_news''"
| "call_name (CallImages i) = ''search_images''"
| "call_name (CallVideos i) = ''search_videos''"
| "call_name (CallMusic i) = ''search_music''"

fun call_params :: "tool_call \<Rightarrow> search_params" where
  "call_params (CallSearch i) = search_params_of i"
| "call_params (CallNews i) = news_params_of i"
| "call_params (CallImages i) = images_params_of i"
| "call_params (CallVideos i) = videos_params_of i"
| "call_params (CallMusic i) = music_params_of i"

fun call_max_results :: "tool_call \<Rightarrow> 64 word option" where
  "call_max_results (CallSearch i) = in_MaxResults i"
| "call_max_results (CallNews i) = nw_MaxResults i"
| "call_max_results (CallImages i) = im_MaxResults i"
| "call_max_results (CallVideos i) = vd_MaxResults i"
| "call_max_results (CallMusic i) = mu_MaxResults i"

fun handle_call ::
  "(string \<Rightarrow> string option) \<Rightarrow> logger \<Rightarrow> 'u search_service \<Rightarrow> ctx \<Rightarrow> tool_call
     \<Rightarrow> 'u world \<Rightarrow> search_output result \<times> 'u world" where
  "handle_call hp lg svc c (CallSearch i) w = NewSearchHandler hp lg svc c i w"
| "handle_call hp lg svc c (CallNews i) w = NewSearchNewsHandler hp lg svc c i w"
| "handle_call hp lg svc c (CallImages i) w = NewSearchImagesHandler hp lg svc c i w"
| "handle_call hp lg svc c (CallVideos i) w = NewSearchVideosHandler hp lg svc c i w"
| "handle_call hp lg svc c (CallMusic i) w = NewSearchMusicHandler hp lg svc c i w"

definition call_query :: "tool_call \<Rightarrow> string" where
  "call_query call = pm_Query (call_params call)"

definition call_page :: "tool_call \<Rightarrow> int" where
  "call_page call = pm_Page (call_params call)"

definition clamped_params :: "tool_call \<Rightarrow> search_params" where
  "clamped_params call = (call_params call)\<lparr>pm_Page := clamp_page (call_page call)\<rparr>"

text \<open>The specification all five handlers meet, as one function.\<close>

definition tool_spec ::
  "(string \<Rightarrow> string option) \<Rightarrow> logger \<Rightarrow> 'u search_service \<Rightarrow> ctx \<Rightarrow> tool_call
     \<Rightarrow> 'u world \<Rightarrow> search_output result \<times> 'u world" where
  "tool_spec hp lg svc c call w =
     (let reject = (\<lambda>e. (Inl (ErrWrap (call_name call @ '': '') e),
                         log_error lg (call_name call @ '' validation: '') e w))
      in if call_query call = '''' then reject ErrInvalidQuery
         else if 512 < length (call_query call) then reject ErrQueryTooLong
         else if 100 < call_page call then reject ErrPageTooLarge
         else
           (case svc_repo svc c (clamped_params call) w of
              (Inl e, w') \<Rightarrow>
                (Inl (ErrWrap (call_name call @ '': '') ErrSearchFailed),
                 log_error lg (call_name call @ '': '') (ErrWrap ''search: '' e) w')
            | (Inr r, w') \<Rightarrow> (Inr (build_output hp (call_max_results call) r), w')))"

interpretation call: search_tool "call_name call" "\<lambda>_. call_query call" "\<lambda>_. call_page call"
  "\<lambda>_. call_max_results call" "\<lambda>_. call_params call"
  "\<lambda>hp lg svc c _ w. handle_call hp lg svc c call w" for call
proof (unfold_locales, goal_cases)
  case (1 i e hp lg svc c w)
  then show ?case
    by (cases call) (auto simp: call_query_def web.params_query news.params_query images.params_query
        videos.params_query music.params_query web.bad_query news.bad_query images.bad_query
        videos.bad_query music.bad_query)
next
  case (2 i e hp lg svc c w)
  then show ?case
    by (cases call) (auto simp: call_query_def call_page_def
        web.params_query news.params_query images.params_query videos.params_query music.params_query
        web.params_page news.params_page images.params_page videos.params_page music.params_page
        web.bad_page news.bad_page images.bad_page videos.bad_page music.bad_page)
next
  case (3 i hp lg svc c w)
  then show ?case
    by (cases call) (auto simp: call_query_def call_page_def
        web.params_query news.params_query images.params_query videos.params_query music.params_query
        web.params_page news.params_page images.params_page videos.params_page music.params_page
        web.good_input news.good_input images.good_input videos.good_input music.good_input
        split: prod.split sum.split)
qed (simp_all add: call_query_def call_page_def)

lemma handle_call_spec:
  "handle_call hp lg svc c call w = tool_spec hp lg svc c call w"
proof (cases rule: call.handler_cases [of call])
  case (query e)
  then show ?thesis using call.bad_query [where call = call and hp = hp and lg = lg and svc = svc and c = c and w = w]
    by (auto simp: tool_spec_def validateQuery_def MaxQueryLength_def split: if_splits)
next
  case (page e)
  then show ?thesis using call.bad_page [where call = call and hp = hp and lg = lg and svc = svc and c = c and w = w]
    by (auto simp: tool_spec_def validateQuery_None validatePage_def MaxQueryLength_def MaxPageNumber_def
        split: if_splits)
next
  case good
  then show ?thesis using call.good_input [where call = call and hp = hp and lg = lg and svc = svc and c = c and w = w]
    by (auto simp: tool_spec_def validateQuery_None validatePage_None MaxQueryLength_def MaxPageNumber_def
        searchHelper_def service_Search_def clamped_params_def call_page_def split: prod.split sum.split)
qed

section \<open>Properties\<close>

text \<open>C1. The five tool handlers refine one specification: reject an empty query, then a query of
  more than 512 bytes, then a page beyond 100, each before the search service is asked and each
  logged and returned under the tool's name; otherwise search once with the tool's preset
  parameters and the page clamped to at least 1, hide the detail of a failure behind
  \<open>ErrSearchFailed\<close>, and sanitize a response.\<close>

theorem handle_call_refines:
  "handle_call hp lg svc c call w = tool_spec hp lg svc c call w"
  by (rule handle_call_spec)


text \<open>Validation comes first: a call with an empty or oversized query or a page beyond the limit
  fails and leaves the upstream service as it was; any other call reaches it exactly once, with the
  tool's presets and the clamped page, and changes it only as that search does.\<close>

theorem handle_call_validates:
  "upstream (snd (handle_call hp lg svc c call w)) =
     (if 1 \<le> length (call_query call) \<and> length (call_query call) \<le> 512 \<and> call_page call \<le> 100
      then upstream (snd (svc_repo svc c (clamped_params call) w)) else upstream w)
   \<and> (isl (fst (handle_call hp lg svc c call w))
      \<or> 1 \<le> length (call_query call) \<and> length (call_query call) \<le> 512 \<and> call_page call \<le> 100)"
  by (auto simp: handle_call_spec tool_spec_def Let_def Suc_le_eq split: prod.split sum.split)

text \<open>The search service is only ever asked with valid parameters (a query of 1 to 512 bytes and
  a page from 1 to 100): two services that agree on those cannot be told apart by any tool call,
  in its result, its log entries or its effects.\<close>

theorem handle_call_valid_params:
  assumes "\<And>p. valid_params p \<Longrightarrow> svc_repo s1 c p w = svc_repo s2 c p w"
  shows "handle_call hp lg s1 c call w = handle_call hp lg s2 c call w"
  using call.only_valid_calls [OF assms] .

lemma handle_call_valid_params_witness:
  "\<forall>lg w. handle_call simple_host lg
     (NewSearchService (\<lambda>_ p w. (Inl (ErrText (if pm_Page p \<le> 0 then ''negative'' else ''down'')), w))) background
     (CallNews \<lparr>nw_Query = ''go'', nw_Language = '''', nw_Page = - 3, nw_SafeSearch = 0, nw_MaxResults = None\<rparr>)
     (w :: unit world)
   = handle_call simple_host lg (NewSearchService (\<lambda>_ _ w. (Inl (ErrText ''down''), w))) background
     (CallNews \<lparr>nw_Query = ''go'', nw_Language = '''', nw_Page = - 3, nw_SafeSearch = 0, nw_MaxResults = None\<rparr>) w"
  by (intro allI handle_call_valid_params) (auto simp: NewSearchService_def valid_params_def)

text \<open>The one text of a result that is passed on as received: the published date reaches the
  client byte for byte, control and bidirectional characters included, in the order of the results
  and within the limit on their number.\<close>

theorem published_date_verbatim:
  "case fst (handle_call hp lg (NewSearchService (\<lambda>_ _ w. (Inr r, w))) c call w) of
     Inl e \<Rightarrow> True
   | Inr out \<Rightarrow> map it_PublishedDate (out_Results out)
                = map sr_PublishedDate (truncate_results (call_max_results call) (rp_Results r))"
proof (cases "fst (handle_call hp lg (NewSearchService (\<lambda>_ _ w. (Inr r, w))) c call w)")
  case (Inr out)
  then show ?thesis using call.success [OF Inr]
    by (auto simp: NewSearchService_def build_output_def build_item_def)
qed simp


end
