(* ===== verification/GoJson.thy ===== *)
theory GoJson
  imports GoStrings
begin

text \<open>
  The part of \<open>encoding/json\<close> the program uses: checking and reading a document, decoding a value into
  a struct, a string, a slice or a raw message, and the compact form in which \<open>json.Marshal\<close> writes a
  raw message. A document is cut into tokens and the tokens are run through a stack machine, as Go's
  scanner does, with the same limit on nesting. Strings, keys and numbers keep their source text;
  \<open>unquote\<close> is applied when one is decoded.
\<close>

section \<open>Tokens\<close>

datatype token =
    TBeginArr | TEndArr | TBeginObj | TEndObj | TComma | TColon
  | TNull | TBool bool | TNum string | TStr string

definition is_ws :: "char \<Rightarrow> bool" where
  "is_ws c \<longleftrightarrow> c = CHR '' '' \<or> c = CHR 0x09 \<or> c = CHR 0x0A \<or> c = CHR 0x0D"

definition is_hex :: "char \<Rightarrow> bool" where
  "is_hex c \<longleftrightarrow> is_digit c \<or> c \<in> set ''abcdefABCDEF''"

text \<open>The number of characters of the escape sequence that follows a backslash.\<close>

definition escape_length :: "string \<Rightarrow> nat option" where
  "escape_length cs =
     (case cs of
        [] \<Rightarrow> None
      | e # hs \<Rightarrow>
          if e = CHR 0x22 \<or> e = CHR 0x5C \<or> e \<in> set ''/bfnrt'' then Some 1
          else if e = CHR ''u'' \<and> 4 \<le> length hs \<and> list_all is_hex (take 4 hs) then Some 5
          else None)"

text \<open>The rest of a string after its opening quote: its raw text and what follows the closing quote.\<close>

fun scan_string :: "string \<Rightarrow> (string \<times> string) option" where
  "scan_string [] = None"
| "scan_string (c # cs) =
     (if c = CHR 0x22 then Some ([], cs)
      else if c = CHR 0x5C then
        (case escape_length cs of
           None \<Rightarrow> None
         | Some n \<Rightarrow> map_option (\<lambda>(r, rest). (c # take n cs @ r, rest)) (scan_string (drop n cs)))
      else if byte_val c < 0x20 then None
      else map_option (\<lambda>(r, rest). (c # r, rest)) (scan_string cs))"

declare scan_string.simps(2) [simp del]

definition num_char :: "char \<Rightarrow> bool" where
  "num_char c \<longleftrightarrow> is_digit c \<or> c \<in> set ''+-.eE''"

text \<open>The grammar of numbers: sign, integer without leading zeros, fraction, exponent.\<close>

definition digits1 :: "string \<Rightarrow> bool" where
  "digits1 s \<longleftrightarrow> s \<noteq> [] \<and> list_all is_digit s"

definition valid_exponent :: "string \<Rightarrow> bool" where
  "valid_exponent s =
     (case s of
        [] \<Rightarrow> True
      | c # r \<Rightarrow> (c = CHR ''e'' \<or> c = CHR ''E'') \<and>
          (case r of
             [] \<Rightarrow> False
           | sg # d \<Rightarrow> if sg = CHR ''+'' \<or> sg = CHR ''-'' then digits1 d else digits1 r))"

definition valid_fraction :: "string \<Rightarrow> bool" where
  "valid_fraction s =
     (case s of
        [] \<Rightarrow> True
      | c # r \<Rightarrow>
          if c = CHR ''.'' then takeWhile is_digit r \<noteq> [] \<and> valid_exponent (dropWhile is_digit r)
          else valid_exponent s)"

definition valid_number :: "string \<Rightarrow> bool" where
  "valid_number s =
     (let u = (if s \<noteq> [] \<and> hd s = CHR ''-'' then tl s else s);
          i = takeWhile is_digit u
      in i \<noteq> [] \<and> (hd i = CHR ''0'' \<longrightarrow> length i = 1) \<and> valid_fraction (dropWhile is_digit u))"

lemma scan_string_length: "scan_string s = Some (r, rest) \<Longrightarrow> length rest < length s"
proof (induction s arbitrary: r rest rule: scan_string.induct)
  case (2 c cs)
  consider (quote) "c = CHR 0x22" | (escape) n r' where "c = CHR 0x5C" "escape_length cs = Some n"
      "scan_string (drop n cs) = Some (r', rest)"
    | (plain) r' where "c \<noteq> CHR 0x22" "c \<noteq> CHR 0x5C" "\<not> byte_val c < 0x20" "scan_string cs = Some (r', rest)"
    using 2(3) by (auto simp: scan_string.simps(2) split: if_splits option.splits)
  then show ?case
  proof cases
    case quote
    then show ?thesis using 2(3) by (simp add: scan_string.simps(2))
  next
    case escape
    then show ?thesis using 2(1) [of n] by fastforce
  next
    case plain
    then show ?thesis using 2(2) by fastforce
  qed
qed simp

text \<open>The tokens of a document; \<open>None\<close> when a character cannot begin or continue one.\<close>

definition is_word_char :: "char \<Rightarrow> bool" where
  "is_word_char c \<longleftrightarrow> 0x61 \<le> byte_val c \<and> byte_val c \<le> 0x7A"

definition word_token :: "string \<Rightarrow> token option" where
  "word_token w =
     (if w = ''null'' then Some TNull
      else if w = ''true'' then Some (TBool True)
      else if w = ''false'' then Some (TBool False)
      else None)"

definition punct_token :: "char \<Rightarrow> token option" where
  "punct_token c =
     (if c = CHR ''['' then Some TBeginArr
      else if c = CHR '']'' then Some TEndArr
      else if c = CHR ''{'' then Some TBeginObj
      else if c = CHR ''}'' then Some TEndObj
      else if c = CHR '','' then Some TComma
      else if c = CHR '':'' then Some TColon
      else None)"

text \<open>The first token of a text that does not begin with white space, and the rest of the text.\<close>

definition next_token :: "string \<Rightarrow> (token \<times> string) option" where
  "next_token s =
     (case s of
        [] \<Rightarrow> None
      | c # cs \<Rightarrow>
          (case punct_token c of
             Some t \<Rightarrow> Some (t, cs)
           | None \<Rightarrow>
               if c = CHR 0x22 then map_option (\<lambda>(r, rest). (TStr r, rest)) (scan_string cs)
               else if num_char c then
                 (if valid_number (takeWhile num_char s)
                  then Some (TNum (takeWhile num_char s), dropWhile num_char s) else None)
               else if is_word_char c then
                 map_option (\<lambda>t. (t, dropWhile is_word_char s)) (word_token (takeWhile is_word_char s))
               else None))"

lemma next_token_length: "next_token s = Some (t, rest) \<Longrightarrow> length rest < length s"
proof -
  assume n: "next_token s = Some (t, rest)"
  then obtain c cs where s: "s = c # cs" by (auto simp: next_token_def split: list.splits)
  have d: "length (dropWhile p cs) \<le> length cs" for p by (rule length_dropWhile_le)
  then show ?thesis using n s
    by (auto simp: next_token_def less_Suc_eq_le split: option.splits if_splits
        dest!: scan_string_length)
qed

function tokenize :: "string \<Rightarrow> token list option" where
  "tokenize s =
     (let u = dropWhile is_ws s in
      if u = [] then Some []
      else case next_token u of
             None \<Rightarrow> None
           | Some (t, rest) \<Rightarrow> map_option (\<lambda>ts. t # ts) (tokenize rest))"
  by pat_completeness auto

termination
proof (relation "measure length", goal_cases)
  case (2 s u p t rest)
  then have "length rest < length (dropWhile is_ws s)" using next_token_length by fastforce
  then show ?case using length_dropWhile_le [of is_ws s] by simp
qed simp

declare tokenize.simps [simp del]

section \<open>Documents\<close>

datatype json =
    JNull
  | JBool bool
  | JNum string
  | JStr string
  | JArr "json list"
  | JObj "(string \<times> json) list"

text \<open>
  The machine: what is expected next, and the containers that are open, innermost first. A frame
  holds what has been read of its container, last first; \<open>FVal\<close> is an object whose value for a key is
  being read.
\<close>

datatype frame = FArr "json list" | FObj "(string \<times> json) list" | FVal "(string \<times> json) list" string

datatype mode = WantValue | WantValueOrEnd | WantKey | WantKeyOrEnd | WantColon string | Have json

definition maxNestingDepth :: nat where
  "maxNestingDepth = 10000"

definition begin_value :: "token \<Rightarrow> frame list \<Rightarrow> (mode \<times> frame list) option" where
  "begin_value t fs =
     (case t of
        TNull \<Rightarrow> Some (Have JNull, fs)
      | TBool b \<Rightarrow> Some (Have (JBool b), fs)
      | TNum n \<Rightarrow> Some (Have (JNum n), fs)
      | TStr r \<Rightarrow> Some (Have (JStr r), fs)
      | TBeginArr \<Rightarrow> if length fs < maxNestingDepth then Some (WantValueOrEnd, FArr [] # fs) else None
      | TBeginObj \<Rightarrow> if length fs < maxNestingDepth then Some (WantKeyOrEnd, FObj [] # fs) else None
      | _ \<Rightarrow> None)"

fun json_step :: "mode \<times> frame list \<Rightarrow> token \<Rightarrow> (mode \<times> frame list) option" where
  "json_step (WantValue, fs) t = begin_value t fs"
| "json_step (WantValueOrEnd, FArr vs # fs) TEndArr = Some (Have (JArr (rev vs)), fs)"
| "json_step (WantValueOrEnd, fs) t = begin_value t fs"
| "json_step (WantKeyOrEnd, FObj kvs # fs) TEndObj = Some (Have (JObj (rev kvs)), fs)"
| "json_step (WantKeyOrEnd, fs) (TStr k) = Some (WantColon k, fs)"
| "json_step (WantKey, fs) (TStr k) = Some (WantColon k, fs)"
| "json_step (WantColon k, FObj kvs # fs) TColon = Some (WantValue, FVal kvs k # fs)"
| "json_step (Have v, FArr vs # fs) TComma = Some (WantValue, FArr (v # vs) # fs)"
| "json_step (Have v, FArr vs # fs) TEndArr = Some (Have (JArr (rev (v # vs))), fs)"
| "json_step (Have v, FVal kvs k # fs) TComma = Some (WantKey, FObj ((k, v) # kvs) # fs)"
| "json_step (Have v, FVal kvs k # fs) TEndObj = Some (Have (JObj (rev ((k, v) # kvs))), fs)"
| "json_step _ _ = None"

fun json_steps :: "mode \<times> frame list \<Rightarrow> token list \<Rightarrow> (mode \<times> frame list) option" where
  "json_steps st [] = Some st"
| "json_steps st (t # ts) = (case json_step st t of None \<Rightarrow> None | Some st' \<Rightarrow> json_steps st' ts)"

definition json_parse :: "string \<Rightarrow> json option" where
  "json_parse s =
     (case tokenize s of
        None \<Rightarrow> None
      | Some ts \<Rightarrow>
          (case json_steps (WantValue, []) ts of
             Some (Have v, []) \<Rightarrow> Some v
           | _ \<Rightarrow> None))"

section \<open>Strings\<close>

definition hex_nat :: "string \<Rightarrow> nat" where
  "hex_nat hs = foldl (\<lambda>n c.
     16 * n + (if is_digit c then digit_val c
               else if 0x61 \<le> byte_val c then byte_val c - 0x57 else byte_val c - 0x37)) 0 hs"

text \<open>\<open>getu4\<close>: the code unit of a \<open>\uXXXX\<close> at the start of the text.\<close>

definition getu4 :: "string \<Rightarrow> nat option" where
  "getu4 s =
     (if 6 \<le> length s \<and> take 2 s = [CHR 0x5C, CHR ''u''] \<and> list_all is_hex (take 4 (drop 2 s))
      then Some (hex_nat (take 4 (drop 2 s))) else None)"

definition is_surrogate :: "nat \<Rightarrow> bool" where
  "is_surrogate u \<longleftrightarrow> 0xD800 \<le> u \<and> u < 0xE000"

definition surrogate_pair :: "nat \<Rightarrow> nat option \<Rightarrow> rune option" where
  "surrogate_pair u v =
     (case v of
        None \<Rightarrow> None
      | Some l \<Rightarrow>
          if u < 0xDC00 \<and> 0xDC00 \<le> l \<and> l < 0xE000
          then Some ((u - 0xD800) * 1024 + (l - 0xDC00) + 0x10000) else None)"

definition simple_escape :: "char \<Rightarrow> rune" where
  "simple_escape e =
     (if e = CHR ''b'' then 8 else if e = CHR ''f'' then 12 else if e = CHR ''n'' then 10
      else if e = CHR ''r'' then 13 else if e = CHR ''t'' then 9 else byte_val e)"

text \<open>The first rune of a non-empty raw text and the number of bytes it takes. A lone surrogate and
  an invalid byte are U+FFFD.\<close>

definition unquote_rune :: "string \<Rightarrow> rune \<times> nat" where
  "unquote_rune s =
     (if hd s \<noteq> CHR 0x5C then decode_rune s
      else case getu4 s of
             None \<Rightarrow> (if tl s = [] then rune_error else simple_escape (hd (tl s)), 2)
           | Some u \<Rightarrow>
               if \<not> is_surrogate u then (u, 6)
               else case surrogate_pair u (getu4 (drop 6 s)) of
                      Some r \<Rightarrow> (r, 12)
                    | None \<Rightarrow> (rune_error, 6))"

fun unquote_runes :: "nat \<Rightarrow> string \<Rightarrow> rune list" where
  "unquote_runes 0 s = []"
| "unquote_runes (Suc n) s =
     (if s = [] then []
      else fst (unquote_rune s) # unquote_runes n (drop (max 1 (snd (unquote_rune s))) s))"

text \<open>The length of the text is enough fuel (\<open>unquote_fuel\<close>).\<close>

definition unquote :: "string \<Rightarrow> string" where
  "unquote s = string_of_runes (unquote_runes (length s) s)"

section \<open>Decoding\<close>

text \<open>
  A decoder takes the current value of the target, as Go decodes in place, and is \<open>None\<close> on a type
  mismatch. Go stores the rest of the document before it reports a mismatch; the program drops
  the target then. \<open>null\<close> leaves a scalar or a struct alone and clears a pointer or a slice.
\<close>

type_synonym 'a decoder = "'a \<Rightarrow> json \<Rightarrow> 'a option"

definition dec_string :: "string decoder" where
  "dec_string cur j = (case j of JNull \<Rightarrow> Some cur | JStr r \<Rightarrow> Some (unquote r) | _ \<Rightarrow> None)"

definition dec_string_ptr :: "string option decoder" where
  "dec_string_ptr cur j = (case j of JNull \<Rightarrow> Some None | JStr r \<Rightarrow> Some (Some (unquote r)) | _ \<Rightarrow> None)"

definition dec_bool :: "bool decoder" where
  "dec_bool cur j = (case j of JNull \<Rightarrow> Some cur | JBool b \<Rightarrow> Some b | _ \<Rightarrow> None)"

text \<open>\<open>strconv.ParseInt(s, 10, 64)\<close> on a number: no fraction, no exponent, 64 bits.\<close>

definition ParseInt :: "string \<Rightarrow> int option" where
  "ParseInt s =
     (let neg = s \<noteq> [] \<and> hd s = CHR ''-'';
          d = (if neg then tl s else s);
          n = (if neg then - int (digits_val d) else int (digits_val d))
      in if digits1 d \<and> - (2 ^ 63) \<le> n \<and> n < 2 ^ 63 then Some n else None)"

definition dec_int :: "int decoder" where
  "dec_int cur j = (case j of JNull \<Rightarrow> Some cur | JNum n \<Rightarrow> ParseInt n | _ \<Rightarrow> None)"

definition dec_raw :: "json decoder" where
  "dec_raw cur j = Some j"

text \<open>An array is decoded over the elements the slice already has, which matters when a key is
  repeated; further elements start from the zero value.\<close>

fun dec_elems :: "'a decoder \<Rightarrow> 'a \<Rightarrow> 'a list \<Rightarrow> json list \<Rightarrow> 'a list option" where
  "dec_elems dec zero old [] = Some []"
| "dec_elems dec zero old (j # js) =
     (case dec (case old of [] \<Rightarrow> zero | x # _ \<Rightarrow> x) j of
        None \<Rightarrow> None
      | Some y \<Rightarrow> map_option (\<lambda>ys. y # ys) (dec_elems dec zero (tl old) js))"

definition dec_list :: "'a decoder \<Rightarrow> 'a \<Rightarrow> 'a list decoder" where
  "dec_list dec zero cur j =
     (case j of JNull \<Rightarrow> Some [] | JArr js \<Rightarrow> dec_elems dec zero cur js | _ \<Rightarrow> None)"

text \<open>
  The fields of a struct: names with decoders into the struct. A key selects the field of that very
  name, or else the first whose name is equal under simple case folding (for ASCII names: letter
  case, the long s U+017F and the Kelvin sign U+212A); other keys are skipped.
\<close>

type_synonym 'r struct_fields = "(string \<times> 'r decoder) list"

definition fold_rune :: "rune \<Rightarrow> rune" where
  "fold_rune r =
     (if 0x61 \<le> r \<and> r \<le> 0x7A then r - 0x20 else if r = 0x17F then 0x53 else if r = 0x212A then 0x4B else r)"

definition fold_name :: "string \<Rightarrow> rune list" where
  "fold_name s = map fold_rune (runes s)"

definition find_field :: "'r struct_fields \<Rightarrow> string \<Rightarrow> 'r decoder option" where
  "find_field flds k =
     (case map_of flds k of
        Some d \<Rightarrow> Some d
      | None \<Rightarrow> map_option snd (List.find (\<lambda>(n, d). fold_name n = fold_name k) flds))"

fun dec_fields :: "'r struct_fields \<Rightarrow> 'r \<Rightarrow> (string \<times> json) list \<Rightarrow> 'r option" where
  "dec_fields flds cur [] = Some cur"
| "dec_fields flds cur ((k, j) # kvs) =
     (case (case find_field flds (unquote k) of None \<Rightarrow> Some cur | Some d \<Rightarrow> d cur j) of
        None \<Rightarrow> None
      | Some cur' \<Rightarrow> dec_fields flds cur' kvs)"

definition dec_struct :: "'r struct_fields \<Rightarrow> 'r decoder" where
  "dec_struct flds cur j =
     (case j of JNull \<Rightarrow> Some cur | JObj kvs \<Rightarrow> dec_fields flds cur kvs | _ \<Rightarrow> None)"

text \<open>\<open>json.Unmarshal\<close>: the whole text must be one document; \<open>None\<close> is any error.\<close>

definition Unmarshal :: "'a decoder \<Rightarrow> 'a \<Rightarrow> string \<Rightarrow> 'a option" where
  "Unmarshal dec zero s = (case json_parse s of None \<Rightarrow> None | Some j \<Rightarrow> dec zero j)"

section \<open>Writing\<close>

fun token_text :: "token \<Rightarrow> string" where
  "token_text TBeginArr = ''[''"
| "token_text TEndArr = '']''"
| "token_text TBeginObj = ''{''"
| "token_text TEndObj = ''}''"
| "token_text TComma = '',''"
| "token_text TColon = '':''"
| "token_text TNull = ''null''"
| "token_text (TBool b) = (if b then ''true'' else ''false'')"
| "token_text (TNum n) = n"
| "token_text (TStr r) = CHR 0x22 # r @ [CHR 0x22]"

fun separated :: "token list list \<Rightarrow> token list" where
  "separated [] = []"
| "separated [ts] = ts"
| "separated (ts # tss) = ts @ TComma # separated tss"

fun json_tokens :: "json \<Rightarrow> token list" where
  "json_tokens JNull = [TNull]"
| "json_tokens (JBool b) = [TBool b]"
| "json_tokens (JNum n) = [TNum n]"
| "json_tokens (JStr r) = [TStr r]"
| "json_tokens (JArr vs) = TBeginArr # separated (map json_tokens vs) @ [TEndArr]"
| "json_tokens (JObj kvs) = TBeginObj # separated (map (\<lambda>(k, v). TStr k # TColon # json_tokens v) kvs) @ [TEndObj]"

definition json_text :: "json \<Rightarrow> string" where
  "json_text j = concat (map token_text (json_tokens j))"

text \<open>The escaping \<open>json.Marshal\<close> adds to a raw message: less-than, greater-than and ampersand, and
  the line separators U+2028 and U+2029. These occur inside strings only.\<close>

fun html_escape :: "string \<Rightarrow> string" where
  "html_escape [] = []"
| "html_escape (c # cs) =
     (if c = CHR ''<'' then CHR 0x5C # ''u003c'' @ html_escape cs
      else if c = CHR ''>'' then CHR 0x5C # ''u003e'' @ html_escape cs
      else if c = CHR ''&'' then CHR 0x5C # ''u0026'' @ html_escape cs
      else if take 3 (c # cs) = [CHR 0xE2, CHR 0x80, CHR 0xA8] then CHR 0x5C # ''u2028'' @ html_escape (drop 2 cs)
      else if take 3 (c # cs) = [CHR 0xE2, CHR 0x80, CHR 0xA9] then CHR 0x5C # ''u2029'' @ html_escape (drop 2 cs)
      else c # html_escape cs)"

declare html_escape.simps(2) [simp del]

definition Marshal_raw :: "json \<Rightarrow> string" where
  "Marshal_raw j = html_escape (json_text j)"


text \<open>Every step of \<open>unquote\<close> takes at least one byte, so the length of the text is enough fuel.\<close>

lemma unquote_fuel: "length s \<le> n \<Longrightarrow> string_of_runes (unquote_runes n s) = unquote s"
  unfolding unquote_def
proof (rule arg_cong [where f = string_of_runes], rule enough_fuel)
  show "length s \<le> n \<Longrightarrow> unquote_runes (Suc n) s = unquote_runes n s" for n s
  proof (induction n arbitrary: s)
    case (Suc n)
    have "s \<noteq> [] \<Longrightarrow> unquote_runes (Suc n) (drop (max 1 (snd (unquote_rune s))) s)
        = unquote_runes n (drop (max 1 (snd (unquote_rune s))) s)"
      using Suc.prems by (intro Suc.IH) simp
    then show ?case unfolding unquote_runes.simps(2) [of "Suc n" s] unquote_runes.simps(2) [of n s] by simp
  qed simp
qed

end
