(* ===== verification/JsonText.thy ===== *)
theory JsonText
  imports GoJson
begin

text \<open>
  Reading back what \<open>json.Marshal\<close> writes: the compact text of a well-formed value, with or without
  the HTML escaping, parses to that value. Well-formed values have raw strings and numbers that the
  scanner accepts and are nested no deeper than the limit.
\<close>

section \<open>Raw strings\<close>

abbreviation DQ :: char where
  "DQ \<equiv> CHR 0x22"

definition wf_raw :: "string \<Rightarrow> bool" where
  "wf_raw r \<longleftrightarrow> scan_string (r @ [DQ]) = Some (r, [])"

lemma escape_length_prefix:
  "escape_length cs = Some n \<Longrightarrow> n \<le> length cs \<and> 1 \<le> n \<and> escape_length (take n cs @ y) = Some n"
  by (auto simp: escape_length_def split: list.splits if_splits)

lemma scan_string_cases:
  assumes "scan_string s = Some (r, rest)"
  obtains (quote) "s = DQ # rest" "r = []"
  | (escape) cs n r' where "s = CHR 0x5C # cs" "escape_length cs = Some n"
      "scan_string (drop n cs) = Some (r', rest)" "r = CHR 0x5C # take n cs @ r'"
  | (plain) c cs r' where "s = c # cs" "c \<noteq> DQ" "c \<noteq> CHR 0x5C" "\<not> byte_val c < 0x20"
      "scan_string cs = Some (r', rest)" "r = c # r'"
  using assms by (cases s) (auto simp: scan_string.simps(2) split: if_splits option.splits)

lemma scan_string_split:
  "scan_string s = Some (r, rest) \<Longrightarrow> s = r @ DQ # rest \<and> scan_string (r @ DQ # x) = Some (r, x)"
proof (induction s arbitrary: r rule: scan_string.induct)
  case (2 c cs)
  from 2(3) show ?case
  proof (cases rule: scan_string_cases)
    case quote
    then show ?thesis by (simp add: scan_string.simps(2))
  next
    case (escape cs' n r')
    then have ih: "drop n cs = r' @ DQ # rest" "scan_string (r' @ DQ # x) = Some (r', x)"
      using 2(1) [of n r'] by auto
    note e = escape_length_prefix [OF escape(2), of "r' @ DQ # x"]
    have "cs = take n cs @ r' @ DQ # rest" using ih(1) by (metis append_take_drop_id)
    moreover have "scan_string (CHR 0x5C # take n cs @ r' @ DQ # x) = Some (CHR 0x5C # take n cs @ r', x)"
      using e ih(2) escape(1) by (simp add: scan_string.simps(2) min_def)
    ultimately show ?thesis using escape by simp
  next
    case (plain c' cs' r')
    then show ?thesis using 2(2) [of r'] by (simp add: scan_string.simps(2))
  qed
qed simp

lemma wf_raw_scan: "wf_raw r \<Longrightarrow> scan_string (r @ DQ # x) = Some (r, x)"
  using scan_string_split [of "r @ [DQ]" r "[]" x] by (simp add: wf_raw_def)

lemma scan_string_wf: "scan_string s = Some (r, rest) \<Longrightarrow> wf_raw r"
  using scan_string_split [of s r rest "[]"] by (simp add: wf_raw_def)

section \<open>The HTML escaping\<close>

definition unescaped :: "char \<Rightarrow> bool" where
  "unescaped c \<longleftrightarrow> byte_val c < 0x80 \<and> c \<noteq> CHR ''<'' \<and> c \<noteq> CHR ''>'' \<and> c \<noteq> CHR ''&''"

lemma html_escape_unescaped: "unescaped c \<Longrightarrow> html_escape (c # s) = c # html_escape s"
  by (auto simp: html_escape.simps(2) unescaped_def)

lemma html_escape_prefix: "list_all unescaped p \<Longrightarrow> html_escape (p @ s) = p @ html_escape s"
  by (induction p) (auto simp: html_escape_unescaped)

lemma html_escape_id: "list_all unescaped p \<Longrightarrow> html_escape p = p"
  using html_escape_prefix [of p "[]"] by simp

lemma html_escape_line:
  "html_escape (CHR 0xE2 # CHR 0x80 # CHR 0xA8 # s) = CHR 0x5C # ''u2028'' @ html_escape s"
  "html_escape (CHR 0xE2 # CHR 0x80 # CHR 0xA9 # s) = CHR 0x5C # ''u2029'' @ html_escape s"
  "html_escape (CHR ''<'' # s) = CHR 0x5C # ''u003c'' @ html_escape s"
  "html_escape (CHR ''>'' # s) = CHR 0x5C # ''u003e'' @ html_escape s"
  "html_escape (CHR ''&'' # s) = CHR 0x5C # ''u0026'' @ html_escape s"
  by (simp_all add: html_escape.simps(2))

lemma take3_ascii:
  assumes "unescaped c" "take 3 (d # ds) \<noteq> [x, y, z]" "0x80 \<le> byte_val y" "0x80 \<le> byte_val z"
  shows "take 3 (d # ds @ c # b) \<noteq> [x, y, z]"
proof (cases ds)
  case Nil
  have "c \<noteq> y" using assms(1,3) by (auto simp: unescaped_def)
  with Nil show ?thesis by (simp add: numeral_3_eq_3)
next
  case (Cons e es)
  have "c \<noteq> z" using assms(1,4) by (auto simp: unescaped_def)
  with Cons assms(2) show ?thesis by (cases es) (simp_all add: numeral_3_eq_3)
qed

lemma html_escape_append: "unescaped c \<Longrightarrow> html_escape (a @ c # b) = html_escape a @ html_escape (c # b)"
proof (induction a rule: html_escape.induct)
  case (2 d ds)
  consider (special) "d = CHR ''<'' \<or> d = CHR ''>'' \<or> d = CHR ''&''"
    | (line) x y ys where "d = CHR 0xE2" "ds = x # y # ys" "x = CHR 0x80" "y = CHR 0xA8 \<or> y = CHR 0xA9"
    | (other) "d \<noteq> CHR ''<''" "d \<noteq> CHR ''>''" "d \<noteq> CHR ''&''"
        "take 3 (d # ds) \<noteq> [CHR 0xE2, CHR 0x80, CHR 0xA8]" "take 3 (d # ds) \<noteq> [CHR 0xE2, CHR 0x80, CHR 0xA9]"
    by (cases ds; cases "tl ds") auto
  then show ?case
  proof cases
    case special
    then show ?thesis using 2 by (auto simp: html_escape.simps(2) [of d])
  next
    case line
    then show ?thesis using 2 by (auto simp: html_escape_line)
  next
    case other
    have "take 3 (d # ds @ c # b) \<noteq> [CHR 0xE2, CHR 0x80, CHR 0xA8]"
      "take 3 (d # ds @ c # b) \<noteq> [CHR 0xE2, CHR 0x80, CHR 0xA9]"
      using take3_ascii [OF 2(7) other(4), of b] take3_ascii [OF 2(7) other(5), of b] by simp_all
    then show ?thesis using other 2(1,2,3,4,5) 2(6) 2(7) by (simp add: html_escape.simps(2) [of d])
  qed
qed simp

text \<open>Escaping keeps the shape of a raw string.\<close>

lemma escape_length_unescaped: "escape_length cs = Some n \<Longrightarrow> list_all unescaped (take n cs)"
proof -
  have h: "is_hex c \<Longrightarrow> unescaped c" for c
    by (auto simp: is_hex_def is_digit_def unescaped_def)
  assume "escape_length cs = Some n"
  then show ?thesis
    by (auto simp: escape_length_def unescaped_def [of "CHR ''u''"] list_all_iff split: list.splits if_splits intro: h)
      (auto simp: unescaped_def)
qed

lemma scan_u_escape:
  assumes "list_all is_hex hs" "length hs = 4" "scan_string s = Some (r, rest)"
  shows "scan_string (CHR 0x5C # CHR ''u'' # hs @ s) = Some (CHR 0x5C # CHR ''u'' # hs @ r, rest)"
  using assms by (simp add: scan_string.simps(2) escape_length_def)

lemma scan_plain: "c \<noteq> DQ \<Longrightarrow> c \<noteq> CHR 0x5C \<Longrightarrow> \<not> byte_val c < 0x20 \<Longrightarrow> scan_string s = Some (r, rest)
    \<Longrightarrow> scan_string (c # s) = Some (c # r, rest)"
  by (simp add: scan_string.simps(2))

lemma scan_plain_inv: "c \<noteq> DQ \<Longrightarrow> c \<noteq> CHR 0x5C \<Longrightarrow> scan_string (c # s) = Some (c # r, rest)
    \<Longrightarrow> scan_string s = Some (r, rest)"
  by (auto simp: scan_string.simps(2) split: if_splits)

lemma scan_plain2_inv:
  assumes "scan_string (c # d # s) = Some (c # d # r, rest)"
    and "c \<noteq> DQ" "c \<noteq> CHR 0x5C" "d \<noteq> DQ" "d \<noteq> CHR 0x5C"
  shows "scan_string s = Some (r, rest)"
  by (rule scan_plain_inv [OF assms(4,5) scan_plain_inv [OF assms(2,3,1)]])

lemma take3_eq: "take 3 (c # r) = [x, y, z] \<longleftrightarrow> c = x \<and> (\<exists>ys. r = y # z # ys)"
  by (cases r; cases "tl r") (auto simp: numeral_3_eq_3)

lemma html_escape_cases:
  "html_escape (c # r) = c # html_escape r \<or> c = CHR ''<'' \<or> c = CHR ''>'' \<or> c = CHR ''&''
   \<or> (c = CHR 0xE2 \<and> ((\<exists>ys. r = CHR 0x80 # CHR 0xA8 # ys) \<or> (\<exists>ys. r = CHR 0x80 # CHR 0xA9 # ys)))"
  unfolding html_escape.simps(2) take3_eq by auto

lemma scan_html_escape:
  "scan_string s = Some (r, rest) \<Longrightarrow> scan_string (html_escape r @ DQ # x) = Some (html_escape r, x)"
proof (induction s arbitrary: r rule: scan_string.induct)
  case (2 c cs)
  from 2(3) show ?case
  proof (cases rule: scan_string_cases)
    case quote
    then show ?thesis by (simp add: scan_string.simps(2))
  next
    case (escape cs' n r')
    then have ih: "scan_string (html_escape r' @ DQ # x) = Some (html_escape r', x)"
      using 2(1) [of n r'] by simp
    have bs: "unescaped (CHR 0x5C)" by (simp add: unescaped_def)
    have h: "html_escape r = CHR 0x5C # take n cs @ html_escape r'"
      using escape escape_length_unescaped [OF escape(2)]
      by (simp add: html_escape_unescaped [OF bs] html_escape_prefix)
    note e = escape_length_prefix [OF escape(2), of "html_escape r' @ DQ # x"]
    show ?thesis using e ih escape(1) by (simp add: h scan_string.simps(2) min_def)
  next
    case (plain c' cs' r')
    then have pl: "r = c # r'" "c \<noteq> DQ" "c \<noteq> CHR 0x5C" "\<not> byte_val c < 0x20" by simp_all
    from plain have ih: "scan_string (html_escape r' @ DQ # x) = Some (html_escape r', x)"
      using 2(2) [of r'] by simp
    consider (lt) "c = CHR ''<''" | (gt) "c = CHR ''>''" | (amp) "c = CHR ''&''"
      | (line) ys where "c = CHR 0xE2" "r' = CHR 0x80 # CHR 0xA8 # ys"
      | (par) ys where "c = CHR 0xE2" "r' = CHR 0x80 # CHR 0xA9 # ys"
      | (other) "html_escape (c # r') = c # html_escape r'"
      using html_escape_cases [of c r'] by blast
    then show ?thesis
    proof cases
      case lt
      show ?thesis using scan_u_escape [OF _ _ ih, of "''003c''"] pl lt
        by (simp add: html_escape_line is_hex_def is_digit_def)
    next
      case gt
      show ?thesis using scan_u_escape [OF _ _ ih, of "''003e''"] pl gt
        by (simp add: html_escape_line is_hex_def is_digit_def)
    next
      case amp
      show ?thesis using scan_u_escape [OF _ _ ih, of "''0026''"] pl amp
        by (simp add: html_escape_line is_hex_def is_digit_def)
    next
      case line
      have "html_escape r' = CHR 0x80 # CHR 0xA8 # html_escape ys"
        by (simp add: line html_escape.simps(2) [of "CHR 0x80"] html_escape.simps(2) [of "CHR 0xA8"])
      then have "scan_string (CHR 0x80 # CHR 0xA8 # html_escape ys @ DQ # x)
          = Some (CHR 0x80 # CHR 0xA8 # html_escape ys, x)"
        using ih by simp
      then have "scan_string (html_escape ys @ DQ # x) = Some (html_escape ys, x)"
        by (rule scan_plain2_inv) simp_all
      from scan_u_escape [OF _ _ this, of "''2028''"] show ?thesis
        using line pl by (simp add: html_escape_line is_hex_def is_digit_def)
    next
      case par
      have "html_escape r' = CHR 0x80 # CHR 0xA9 # html_escape ys"
        by (simp add: par html_escape.simps(2) [of "CHR 0x80"] html_escape.simps(2) [of "CHR 0xA9"])
      then have "scan_string (CHR 0x80 # CHR 0xA9 # html_escape ys @ DQ # x)
          = Some (CHR 0x80 # CHR 0xA9 # html_escape ys, x)"
        using ih by simp
      then have "scan_string (html_escape ys @ DQ # x) = Some (html_escape ys, x)"
        by (rule scan_plain2_inv) simp_all
      from scan_u_escape [OF _ _ this, of "''2029''"] show ?thesis
        using par pl by (simp add: html_escape_line is_hex_def is_digit_def)
    next
      case other
      then show ?thesis using scan_plain [OF _ _ _ ih, of c] pl by simp
    qed
  qed
qed simp

lemma wf_raw_html_escape: "wf_raw r \<Longrightarrow> wf_raw (html_escape r)"
  using scan_html_escape [of "r @ [DQ]" r "[]" "[]"] by (simp add: wf_raw_def)

section \<open>Tokens\<close>

definition wf_number :: "string \<Rightarrow> bool" where
  "wf_number n \<longleftrightarrow> list_all num_char n \<and> valid_number n"

fun wf_token :: "token \<Rightarrow> bool" where
  "wf_token (TNum n) = wf_number n"
| "wf_token (TStr r) = wf_raw r"
| "wf_token _ = True"

text \<open>A number or a word must be followed by punctuation, or else it would run on.\<close>

definition ends_word :: "string \<Rightarrow> bool" where
  "ends_word s \<longleftrightarrow> s = [] \<or> (\<not> num_char (hd s) \<and> \<not> is_word_char (hd s))"

fun runs_on :: "token \<Rightarrow> bool" where
  "runs_on TNull = True"
| "runs_on (TBool b) = True"
| "runs_on (TNum n) = True"
| "runs_on _ = False"

lemma takeWhile_word: "list_all p w \<Longrightarrow> s = [] \<or> \<not> p (hd s) \<Longrightarrow> takeWhile p (w @ s) = w \<and> dropWhile p (w @ s) = s"
  by (cases s) (auto simp: list_all_iff takeWhile_append dropWhile_append)

lemma not_num_char:
  "list_all (\<lambda>c. \<not> num_char c) ''[]{}:, ''" "\<not> num_char DQ"
  "\<not> num_char (CHR 0x09)" "\<not> num_char (CHR 0x0A)" "\<not> num_char (CHR 0x0D)"
  by code_simp+

lemma num_char_start: "num_char c \<Longrightarrow> punct_token c = None \<and> c \<noteq> DQ \<and> \<not> is_ws c"
  using not_num_char by (auto simp: punct_token_def is_ws_def)

lemma number_start:
  assumes "wf_number n"
  shows "\<exists>c cs. n = c # cs \<and> num_char c \<and> punct_token c = None \<and> c \<noteq> DQ \<and> \<not> is_ws c"
proof -
  obtain c cs where n: "n = c # cs" "num_char c"
    using assms by (cases n) (auto simp: wf_number_def valid_number_def)
  then show ?thesis using num_char_start by blast
qed

lemma next_token_text:
  assumes "wf_token t" "runs_on t \<Longrightarrow> ends_word s"
  shows "next_token (token_text t @ s) = Some (t, s)"
proof -
  have w: "list_all is_word_char w \<Longrightarrow> runs_on t \<Longrightarrow>
      takeWhile is_word_char (w @ s) = w \<and> dropWhile is_word_char (w @ s) = s" for w
    using takeWhile_word [of is_word_char w s] assms(2) by (auto simp: ends_word_def)
  show ?thesis
  proof (cases t)
    case (TNum n)
    obtain c cs where c: "n = c # cs" "num_char c" "punct_token c = None" "c \<noteq> DQ"
      using number_start [of n] assms(1) TNum by auto
    have "takeWhile num_char (n @ s) = n \<and> dropWhile num_char (n @ s) = s"
      using takeWhile_word [of num_char n s] assms TNum by (auto simp: ends_word_def wf_number_def)
    then show ?thesis using c TNum assms(1) by (simp add: next_token_def wf_number_def)
  next
    case (TStr r)
    then show ?thesis using assms(1) wf_raw_scan [of r s] by (simp add: next_token_def punct_token_def)
  next
    case TNull
    then show ?thesis using w [of "''null''"]
      by (simp add: next_token_def punct_token_def num_char_def is_word_char_def is_digit_def word_token_def)
  next
    case (TBool b)
    then show ?thesis using w [of "''true''"] w [of "''false''"]
      by (cases b) (simp_all add: next_token_def punct_token_def num_char_def is_word_char_def is_digit_def word_token_def)
  qed (simp_all add: next_token_def punct_token_def)
qed

lemma token_text_start: "wf_token t \<Longrightarrow> \<exists>c cs. token_text t = c # cs \<and> \<not> is_ws c"
  by (cases t) (use number_start in \<open>fastforce simp: is_ws_def\<close>)+

fun good_tokens :: "token list \<Rightarrow> bool" where
  "good_tokens [] = True"
| "good_tokens (t # ts) = (wf_token t \<and> good_tokens ts \<and>
     (runs_on t \<longrightarrow> ts = [] \<or> hd ts \<in> {TEndArr, TEndObj, TComma}))"

lemma tokenize_text: "good_tokens ts \<Longrightarrow> tokenize (concat (map token_text ts)) = Some ts"
proof (induction ts)
  case Nil
  then show ?case by (simp add: tokenize.simps)
next
  case (Cons t ts)
  let ?s = "concat (map token_text ts)"
  obtain c cs where c: "token_text t = c # cs" "\<not> is_ws c" using token_text_start [of t] Cons.prems by auto
  have "ends_word ?s" if "runs_on t"
  proof (cases ts)
    case (Cons u us)
    then show ?thesis using that Cons.prems
      by (auto simp: ends_word_def num_char_def is_word_char_def is_digit_def)
  qed (simp add: ends_word_def)
  then have "next_token (token_text t @ ?s) = Some (t, ?s)" using Cons.prems by (simp add: next_token_text)
  then show ?case using Cons c by (simp add: tokenize.simps [of "c # cs @ ?s"])
qed


section \<open>Values\<close>

fun wf_json :: "json \<Rightarrow> bool" where
  "wf_json (JNum n) = wf_number n"
| "wf_json (JStr r) = wf_raw r"
| "wf_json (JArr vs) = (\<forall>v \<in> set vs. wf_json v)"
| "wf_json (JObj kvs) = (\<forall>(k, v) \<in> set kvs. wf_raw k \<and> wf_json v)"
| "wf_json _ = True"

fun json_height :: "json \<Rightarrow> nat" where
  "json_height (JArr vs) = Suc (foldr (\<lambda>v n. max (json_height v) n) vs 0)"
| "json_height (JObj kvs) = Suc (foldr (\<lambda>(k, v) n. max (json_height v) n) kvs 0)"
| "json_height _ = 0"

lemma height_le_fold: "v \<in> set vs \<Longrightarrow> f v \<le> foldr (\<lambda>v n. max (f v) n) vs (0 :: nat)"
  by (induction vs) auto

lemma json_height_Arr: "v \<in> set vs \<Longrightarrow> json_height v < json_height (JArr vs)"
  using height_le_fold [of v vs json_height] by simp

lemma json_height_Obj: "(k, v) \<in> set kvs \<Longrightarrow> json_height v < json_height (JObj kvs)"
  using height_le_fold [of "(k, v)" kvs "\<lambda>(k, v). json_height v"] by (simp add: case_prod_unfold)

definition closes :: "token list \<Rightarrow> bool" where
  "closes ts \<longleftrightarrow> ts = [] \<or> hd ts \<in> {TEndArr, TEndObj, TComma}"

lemma good_separated:
  assumes "\<And>v rest. v \<in> set vs \<Longrightarrow> good_tokens rest \<Longrightarrow> closes rest \<Longrightarrow> good_tokens (f v @ rest)"
    and "good_tokens (e # rest)" "closes (e # rest)"
  shows "good_tokens (separated (map f vs) @ e # rest)"
  using assms(1)
proof (induction vs)
  case Nil
  then show ?case using assms(2) by simp
next
  case (Cons v vs)
  then have ih: "good_tokens (separated (map f vs) @ e # rest)" by simp
  show ?case
  proof (cases vs)
    case Nil
    then show ?thesis using Cons.prems [of v "e # rest"] assms(2,3) by simp
  next
    case (Cons u us)
    have "good_tokens (f v @ TComma # separated (map f vs) @ e # rest)"
      using Cons.prems [of v "TComma # separated (map f vs) @ e # rest"] ih by (simp add: closes_def)
    then show ?thesis using Cons by simp
  qed
qed

lemma good_json_tokens: "wf_json j \<Longrightarrow> good_tokens rest \<Longrightarrow> closes rest \<Longrightarrow> good_tokens (json_tokens j @ rest)"
proof (induction j arbitrary: rest rule: json_tokens.induct)
  case (5 vs)
  have "good_tokens (separated (map json_tokens vs) @ TEndArr # rest)"
    by (rule good_separated) (use 5 in \<open>auto simp: closes_def\<close>)
  then show ?case by simp
next
  case (6 kvs)
  have "good_tokens (separated (map (\<lambda>(k, v). TStr k # TColon # json_tokens v) kvs) @ TEndObj # rest)"
  proof (rule good_separated)
    fix kv rest'
    assume kv: "kv \<in> set kvs" "good_tokens rest'" "closes rest'"
    obtain k v where e: "kv = (k, v)" by fastforce
    then have "wf_raw k" "wf_json v" using 6(2) kv(1) by auto
    then show "good_tokens ((case kv of (k, v) \<Rightarrow> TStr k # TColon # json_tokens v) @ rest')"
      using 6(1) [of "(k, v)" k v rest'] kv unfolding e by simp
  qed (use 6(3) in \<open>simp_all add: closes_def\<close>)
  then show ?case by simp
qed (auto simp: closes_def)

lemma tokenize_json_text: "wf_json j \<Longrightarrow> tokenize (json_text j) = Some (json_tokens j)"
  using tokenize_text [of "json_tokens j"] good_json_tokens [of j "[]"] by (simp add: json_text_def closes_def)

lemma steps_append: "json_steps st (xs @ ys) = (case json_steps st xs of None \<Rightarrow> None | Some st' \<Rightarrow> json_steps st' ys)"
  by (induction xs arbitrary: st) (auto split: option.split)

lemma want_value_or_end:
  "json_steps (WantValueOrEnd, FArr vs # fs) (json_tokens v @ ts) = json_steps (WantValue, FArr vs # fs) (json_tokens v @ ts)"
  by (cases v) auto

lemma steps_array:
  assumes "\<And>v fs ts. v \<in> set (v0 # vs) \<Longrightarrow> length fs = n \<Longrightarrow>
      json_steps (WantValue, fs) (json_tokens v @ ts) = json_steps (Have v, fs) ts"
    and "Suc (length fs) = n"
  shows "json_steps (WantValue, FArr acc # fs) (separated (map json_tokens (v0 # vs)) @ TEndArr # ts)
    = json_steps (Have (JArr (rev acc @ v0 # vs)), fs) ts"
  using assms(1)
proof (induction vs arbitrary: v0 acc)
  case Nil
  then show ?case using assms(2) by simp
next
  case (Cons v vs)
  then show ?case using assms(2) Cons.IH [of v "v0 # acc"] by simp
qed

lemma steps_object:
  assumes "\<And>k v fs ts. (k, v) \<in> set (kv0 # kvs) \<Longrightarrow> length fs = n \<Longrightarrow>
      json_steps (WantValue, fs) (json_tokens v @ ts) = json_steps (Have v, fs) ts"
    and "Suc (length fs) = n" "m = WantKey \<or> m = WantKeyOrEnd"
  shows "json_steps (m, FObj acc # fs)
      (separated (map (\<lambda>(k, v). TStr k # TColon # json_tokens v) (kv0 # kvs)) @ TEndObj # ts)
    = json_steps (Have (JObj (rev acc @ kv0 # kvs)), fs) ts"
  using assms(1,3)
proof (induction kvs arbitrary: kv0 acc m)
  case Nil
  obtain k v where kv: "kv0 = (k, v)" by fastforce
  then show ?case using assms(2) Nil by auto
next
  case (Cons kv kvs)
  obtain k v where kv: "kv0 = (k, v)" by fastforce
  have ih: "json_steps (WantKey, FObj ((k, v) # acc) # fs)
      (separated (map (\<lambda>(k, v). TStr k # TColon # json_tokens v) (kv # kvs)) @ TEndObj # ts)
    = json_steps (Have (JObj (rev ((k, v) # acc) @ kv # kvs)), fs) ts"
    by (rule Cons.IH) (use Cons.prems in auto)
  have "json_steps (m, FObj acc # fs) (TStr k # TColon # json_tokens v @ TComma # x)
      = json_steps (WantKey, FObj ((k, v) # acc) # fs) x" for x
    using Cons.prems(1) [of k v "FVal acc k # fs"] Cons.prems(2) kv assms(2) by auto
  then show ?case using ih kv by simp
qed

lemma steps_json:
  "json_height j + length fs \<le> maxNestingDepth \<Longrightarrow>
     json_steps (WantValue, fs) (json_tokens j @ ts) = json_steps (Have j, fs) ts"
proof (induction j arbitrary: fs ts rule: json_tokens.induct)
  case (5 vs)
  show ?case
  proof (cases vs)
    case Nil
    then show ?thesis using 5(2) by (simp add: begin_value_def)
  next
    case (Cons v us)
    have "json_steps (WantValue, FArr [] # fs) (separated (map json_tokens (v # us)) @ TEndArr # ts)
        = json_steps (Have (JArr (rev [] @ v # us)), fs) ts"
    proof (rule steps_array)
      fix w ts' and fs' :: "frame list"
      assume "w \<in> set (v # us)" "length fs' = Suc (length fs)"
      then show "json_steps (WantValue, fs') (json_tokens w @ ts') = json_steps (Have w, fs') ts'"
        using 5 Cons json_height_Arr [of w vs] by simp
    qed simp
    moreover have "json_steps (WantValueOrEnd, FArr [] # fs) (separated (map json_tokens (v # us)) @ x)
        = json_steps (WantValue, FArr [] # fs) (separated (map json_tokens (v # us)) @ x)" for x
      by (cases us) (simp_all add: want_value_or_end)
    ultimately show ?thesis using 5(2) Cons by (simp add: begin_value_def)
  qed
next
  case (6 kvs)
  show ?case
  proof (cases kvs)
    case Nil
    then show ?thesis using 6(2) by (simp add: begin_value_def)
  next
    case (Cons kv us)
    have "json_steps (WantKeyOrEnd, FObj [] # fs)
        (separated (map (\<lambda>(k, v). TStr k # TColon # json_tokens v) (kv # us)) @ TEndObj # ts)
        = json_steps (Have (JObj (rev [] @ kv # us)), fs) ts"
    proof (rule steps_object)
      fix k w ts' and fs' :: "frame list"
      assume kw: "(k, w) \<in> set (kv # us)" "length fs' = Suc (length fs)"
      then have "json_height w + length fs' \<le> maxNestingDepth"
        using 6(2) json_height_Obj [of k w kvs] Cons by simp
      then show "json_steps (WantValue, fs') (json_tokens w @ ts') = json_steps (Have w, fs') ts'"
        using 6(1) [of "(k, w)" k w] kw Cons by simp
    qed simp_all
    then show ?thesis using 6(2) Cons by (simp add: begin_value_def)
  qed
qed (simp_all add: begin_value_def)

text \<open>The round trip.\<close>

lemma json_parse_text:
  assumes "wf_json j" "json_height j \<le> maxNestingDepth"
  shows "json_parse (json_text j) = Some j"
  using tokenize_json_text [OF assms(1)] steps_json [of j "[]" "[]"] assms(2) by (simp add: json_parse_def)


section \<open>The escaped text\<close>

fun escape_json :: "json \<Rightarrow> json" where
  "escape_json (JStr r) = JStr (html_escape r)"
| "escape_json (JArr vs) = JArr (map escape_json vs)"
| "escape_json (JObj kvs) = JObj (map (\<lambda>(k, v). (html_escape k, escape_json v)) kvs)"
| "escape_json j = j"

fun escape_token :: "token \<Rightarrow> token" where
  "escape_token (TStr r) = TStr (html_escape r)"
| "escape_token t = t"

lemma separated_map: "separated (map (map f) tss) = map f (separated tss)" if "f TComma = TComma"
  using that by (induction tss rule: separated.induct) auto

lemma json_tokens_escape: "json_tokens (escape_json j) = map escape_token (json_tokens j)"
proof (induction j rule: escape_json.induct)
  case (2 vs)
  then have e: "map json_tokens (map escape_json vs) = map (map escape_token) (map json_tokens vs)" by simp
  show ?case unfolding escape_json.simps json_tokens.simps e by (simp add: separated_map del: map_map)
next
  case (3 kvs)
  have e: "map (\<lambda>(k, v). TStr k # TColon # json_tokens v) (map (\<lambda>(k, v). (html_escape k, escape_json v)) kvs)
      = map (map escape_token) (map (\<lambda>(k, v). TStr k # TColon # json_tokens v) kvs)"
    using 3 by auto
  show ?case unfolding escape_json.simps json_tokens.simps e by (simp add: separated_map del: map_map)
qed auto

lemma wf_escape_json: "wf_json j \<Longrightarrow> wf_json (escape_json j)"
proof (induction j rule: escape_json.induct)
  case (3 kvs)
  have "wf_raw (html_escape k) \<and> wf_json (escape_json v)" if "(k, v) \<in> set kvs" for k v
    using 3 that wf_raw_html_escape by fastforce
  then show ?case by auto
qed (auto intro: wf_raw_html_escape)

lemma height_fold_map: "(\<And>v. v \<in> set vs \<Longrightarrow> f (g v) = h v)
    \<Longrightarrow> foldr (\<lambda>v n. max (f v) n) (map g vs) (0 :: nat) = foldr (\<lambda>v n. max (h v) n) vs 0"
  by (induction vs) auto

lemma height_escape_json: "json_height (escape_json j) = json_height j"
proof (induction j rule: escape_json.induct)
  case (2 vs)
  then show ?case using height_fold_map [of vs json_height escape_json json_height] by simp
next
  case (3 kvs)
  then show ?case
    using height_fold_map [of kvs "\<lambda>(k, v). json_height v" "\<lambda>(k, v). (html_escape k, escape_json v)" "\<lambda>(k, v). json_height v"]
    by (fastforce simp: case_prod_unfold)
qed auto

lemma num_char_unescaped: "num_char c \<Longrightarrow> unescaped c"
  by (auto simp: num_char_def is_digit_def unescaped_def)

lemma html_escape_token:
  assumes "wf_token t"
  shows "html_escape (token_text t @ s) = token_text (escape_token t) @ html_escape s"
proof (cases t)
  case (TNum n)
  then have "list_all unescaped n"
    using assms num_char_unescaped by (auto simp: wf_number_def list_all_iff)
  then show ?thesis using TNum html_escape_prefix by simp
next
  case (TStr r)
  have q: "unescaped DQ" by (simp add: unescaped_def)
  show ?thesis using TStr html_escape_append [OF q, of r s]
    by (simp add: html_escape_unescaped [OF q])
next
  case (TBool b)
  then show ?thesis using html_escape_prefix [of "token_text t" s] by (simp add: unescaped_def)
qed (use html_escape_prefix [of "token_text t" s] in \<open>simp_all add: unescaped_def\<close>)

lemma html_escape_tokens:
  "list_all wf_token ts \<Longrightarrow> html_escape (concat (map token_text ts)) = concat (map token_text (map escape_token ts))"
  by (induction ts) (auto simp: html_escape_token)

lemma good_tokens_wf: "good_tokens ts \<Longrightarrow> list_all wf_token ts"
  by (induction ts) auto

lemma Marshal_raw_text:
  assumes "wf_json j"
  shows "Marshal_raw j = json_text (escape_json j)"
  using html_escape_tokens [OF good_tokens_wf [of "json_tokens j"]] good_json_tokens [of j "[]"] assms
  by (simp add: Marshal_raw_def json_text_def json_tokens_escape closes_def)

lemma json_parse_Marshal_raw:
  assumes "wf_json j" "json_height j \<le> maxNestingDepth"
  shows "json_parse (Marshal_raw j) = Some (escape_json j)"
  using json_parse_text [of "escape_json j"] wf_escape_json assms
  by (simp add: Marshal_raw_text height_escape_json)


section \<open>What is read is well-formed\<close>

lemma next_token_wf: "next_token s = Some (t, rest) \<Longrightarrow> wf_token t"
proof -
  have w: "wf_token t" if "word_token w = Some t" for w
    using that by (auto simp: word_token_def split: if_splits)
  have p: "wf_token t" if "punct_token c = Some t" for c
    using that by (auto simp: punct_token_def split: if_splits)
  have n: "list_all num_char (takeWhile num_char s)"
    by (auto simp: list_all_iff dest: set_takeWhileD)
  assume "next_token s = Some (t, rest)"
  then show ?thesis using n
    by (auto simp: next_token_def wf_number_def split: list.splits option.splits if_splits
        intro: w p dest: scan_string_wf)
qed

lemma tokenize_wf: "tokenize s = Some ts \<Longrightarrow> list_all wf_token ts"
proof (induction s arbitrary: ts rule: tokenize.induct)
  case (1 s)
  show ?case
  proof (cases "dropWhile is_ws s = []")
    case True
    then show ?thesis using 1(2) by (simp add: tokenize.simps [of s] Let_def)
  next
    case False
    then obtain t rest ts' where "next_token (dropWhile is_ws s) = Some (t, rest)"
      "tokenize rest = Some ts'" "ts = t # ts'"
      using 1(2) False
      by (simp only: tokenize.simps [of s] Let_def if_False) (auto split: option.splits)
    then show ?thesis using 1(1) [OF refl False] next_token_wf by auto
  qed
qed

definition fits :: "nat \<Rightarrow> json \<Rightarrow> bool" where
  "fits k v \<longleftrightarrow> wf_json v \<and> json_height v + k \<le> maxNestingDepth"

fun wf_frames :: "frame list \<Rightarrow> bool" where
  "wf_frames [] = True"
| "wf_frames (FArr vs # fs) =
     (Suc (length fs) \<le> maxNestingDepth \<and> list_all (fits (Suc (length fs))) vs \<and> wf_frames fs)"
| "wf_frames (FObj kvs # fs) =
     (Suc (length fs) \<le> maxNestingDepth \<and> list_all (\<lambda>(k, v). wf_raw k \<and> fits (Suc (length fs)) v) kvs \<and> wf_frames fs)"
| "wf_frames (FVal kvs k # fs) =
     (Suc (length fs) \<le> maxNestingDepth \<and> wf_raw k
      \<and> list_all (\<lambda>(k, v). wf_raw k \<and> fits (Suc (length fs)) v) kvs \<and> wf_frames fs)"

fun wf_state :: "mode \<times> frame list \<Rightarrow> bool" where
  "wf_state (Have v, fs) = (fits (length fs) v \<and> wf_frames fs)"
| "wf_state (WantColon k, fs) = (wf_raw k \<and> wf_frames fs)"
| "wf_state (m, fs) = wf_frames fs"

lemma wf_frames_length: "wf_frames fs \<Longrightarrow> length fs \<le> maxNestingDepth"
  by (cases fs rule: wf_frames.cases) auto

lemma height_fold_le: "foldr (\<lambda>v n. max (f v) n) vs (0 :: nat) \<le> b \<longleftrightarrow> (\<forall>v \<in> set vs. f v \<le> b)"
  by (induction vs) auto

lemma fits_JArr: "list_all (fits (Suc n)) vs \<Longrightarrow> Suc n \<le> maxNestingDepth \<Longrightarrow> fits n (JArr vs)"
  using height_fold_le [of json_height vs "maxNestingDepth - Suc n"]
  by (force simp: fits_def list_all_iff)

lemma fits_JObj:
  "list_all (\<lambda>(k, v). wf_raw k \<and> fits (Suc n) v) kvs \<Longrightarrow> Suc n \<le> maxNestingDepth \<Longrightarrow> fits n (JObj kvs)"
  using height_fold_le [of "\<lambda>(k, v). json_height v" kvs "maxNestingDepth - Suc n"]
  by (force simp: fits_def list_all_iff case_prod_unfold)

lemma begin_value_wf:
  "begin_value t fs = Some st \<Longrightarrow> wf_token t \<Longrightarrow> wf_frames fs \<Longrightarrow> wf_state st"
  using wf_frames_length [of fs]
  by (cases t) (auto simp: begin_value_def fits_def split: if_splits)

lemma list_all_rev: "list_all p (rev xs) = list_all p xs"
  by (auto simp: list_all_iff)

lemma json_step_wf:
  "json_step st t = Some st' \<Longrightarrow> wf_token t \<Longrightarrow> wf_state st \<Longrightarrow> wf_state st'"
  by (cases "(st, t)" rule: json_step.cases)
    (auto simp: list_all_rev intro!: fits_JArr fits_JObj intro: begin_value_wf)

lemma json_steps_wf:
  "json_steps st ts = Some st' \<Longrightarrow> list_all wf_token ts \<Longrightarrow> wf_state st \<Longrightarrow> wf_state st'"
  by (induction ts arbitrary: st) (auto split: option.splits dest: json_step_wf)

lemma json_parse_wf:
  assumes "json_parse s = Some j"
  shows "wf_json j \<and> json_height j \<le> maxNestingDepth"
proof -
  obtain ts where ts: "tokenize s = Some ts" "json_steps (WantValue, []) ts = Some (Have j, [])"
    using assms by (auto simp: json_parse_def split: option.splits mode.splits list.splits)
  from json_steps_wf [OF ts(2) tokenize_wf [OF ts(1)]] show ?thesis by (simp add: fits_def)
qed


end
