(* ===== verification/Models.thy ===== *)
theory Models
  imports JsonText Domain
begin

text \<open>
  \<open>infrastructure/searxng/models.go\<close>: the wire format of SearXNG's answers and its conversion to the
  domain. A \<open>json.RawMessage\<close> is kept as the value it spells: the program only reads it with
  \<open>Unmarshal\<close> and \<open>Marshal\<close>, for which its white space is immaterial.
\<close>

section \<open>The wire format\<close>

record raw_infobox_url =
  ru_Title :: string
  ru_URL :: string

record raw_infobox_attribute =
  ra_Key :: string
  ra_Value :: string

record raw_infobox_detail =
  rd_ID :: string
  rd_Content :: string
  rd_ImgSrc :: "string option"
  rd_URLs :: "raw_infobox_url list"
  rd_Attributes :: "raw_infobox_attribute list"

record raw_infobox =
  rb_ID :: string
  rb_URL :: string
  rb_Content :: string
  rb_Infoboxes :: "raw_infobox_detail list"
  rb_ImgSrc :: "string option"
  rb_Engine :: string
  rb_URLs :: "raw_infobox_url list"
  rb_Attributes :: "raw_infobox_attribute list"

record raw_search_result =
  rr_Title :: string
  rr_URL :: string
  rr_Content :: string
  rr_Engine :: string
  rr_Template :: string
  rr_PublishedDate :: "string option"
  rr_PubDate :: "string option"
  rr_Category :: string
  rr_ImgSrc :: "string option"
  rr_Source :: "string option"
  rr_EngineAvatar :: "string option"
  rr_ParsedURL :: "string list"

record raw_search_response =
  rs_Query :: string
  rs_Results :: "raw_search_result list"
  rs_Answers :: "json list"
  rs_Infoboxes :: "raw_infobox list"
  rs_Suggestions :: "string list"
  rs_NumberOfResults :: int
  rs_Paging :: bool

section \<open>Zero values and decoders\<close>

text \<open>A field of a struct: its name, how to read it, how to set it, and its decoder.\<close>

definition fld :: "string \<Rightarrow> ('r \<Rightarrow> 'a) \<Rightarrow> (('a \<Rightarrow> 'a) \<Rightarrow> 'r \<Rightarrow> 'r) \<Rightarrow> 'a decoder \<Rightarrow> string \<times> 'r decoder" where
  "fld n get upd dec = (n, \<lambda>r j. map_option (\<lambda>x. upd (\<lambda>_. x) r) (dec (get r) j))"

abbreviation dec_strings :: "string list decoder" where
  "dec_strings \<equiv> dec_list dec_string ''''"

definition zero_url :: raw_infobox_url where
  "zero_url = \<lparr>ru_Title = '''', ru_URL = ''''\<rparr>"

definition url_fields :: "raw_infobox_url struct_fields" where
  "url_fields = [fld ''title'' ru_Title ru_Title_update dec_string, fld ''url'' ru_URL ru_URL_update dec_string]"

definition zero_attribute :: raw_infobox_attribute where
  "zero_attribute = \<lparr>ra_Key = '''', ra_Value = ''''\<rparr>"

definition attribute_fields :: "raw_infobox_attribute struct_fields" where
  "attribute_fields =
     [fld ''key'' ra_Key ra_Key_update dec_string, fld ''value'' ra_Value ra_Value_update dec_string]"

abbreviation dec_urls :: "raw_infobox_url list decoder" where
  "dec_urls \<equiv> dec_list (dec_struct url_fields) zero_url"

abbreviation dec_attributes :: "raw_infobox_attribute list decoder" where
  "dec_attributes \<equiv> dec_list (dec_struct attribute_fields) zero_attribute"

definition zero_detail :: raw_infobox_detail where
  "zero_detail = \<lparr>rd_ID = '''', rd_Content = '''', rd_ImgSrc = None, rd_URLs = [], rd_Attributes = []\<rparr>"

definition detail_fields :: "raw_infobox_detail struct_fields" where
  "detail_fields =
     [fld ''id'' rd_ID rd_ID_update dec_string,
      fld ''content'' rd_Content rd_Content_update dec_string,
      fld ''img_src'' rd_ImgSrc rd_ImgSrc_update dec_string_ptr,
      fld ''urls'' rd_URLs rd_URLs_update dec_urls,
      fld ''attributes'' rd_Attributes rd_Attributes_update dec_attributes]"

definition zero_infobox :: raw_infobox where
  "zero_infobox =
     \<lparr>rb_ID = '''', rb_URL = '''', rb_Content = '''', rb_Infoboxes = [], rb_ImgSrc = None, rb_Engine = '''',
      rb_URLs = [], rb_Attributes = []\<rparr>"

definition infobox_fields :: "raw_infobox struct_fields" where
  "infobox_fields =
     [fld ''id'' rb_ID rb_ID_update dec_string,
      fld ''url'' rb_URL rb_URL_update dec_string,
      fld ''content'' rb_Content rb_Content_update dec_string,
      fld ''infoboxes'' rb_Infoboxes rb_Infoboxes_update (dec_list (dec_struct detail_fields) zero_detail),
      fld ''img_src'' rb_ImgSrc rb_ImgSrc_update dec_string_ptr,
      fld ''engine'' rb_Engine rb_Engine_update dec_string,
      fld ''urls'' rb_URLs rb_URLs_update dec_urls,
      fld ''attributes'' rb_Attributes rb_Attributes_update dec_attributes]"

definition zero_result :: raw_search_result where
  "zero_result =
     \<lparr>rr_Title = '''', rr_URL = '''', rr_Content = '''', rr_Engine = '''', rr_Template = '''',
      rr_PublishedDate = None, rr_PubDate = None, rr_Category = '''', rr_ImgSrc = None, rr_Source = None,
      rr_EngineAvatar = None, rr_ParsedURL = []\<rparr>"

definition result_fields :: "raw_search_result struct_fields" where
  "result_fields =
     [fld ''title'' rr_Title rr_Title_update dec_string,
      fld ''url'' rr_URL rr_URL_update dec_string,
      fld ''content'' rr_Content rr_Content_update dec_string,
      fld ''engine'' rr_Engine rr_Engine_update dec_string,
      fld ''template'' rr_Template rr_Template_update dec_string,
      fld ''publishedDate'' rr_PublishedDate rr_PublishedDate_update dec_string_ptr,
      fld ''pubdate'' rr_PubDate rr_PubDate_update dec_string_ptr,
      fld ''category'' rr_Category rr_Category_update dec_string,
      fld ''img_src'' rr_ImgSrc rr_ImgSrc_update dec_string_ptr,
      fld ''source'' rr_Source rr_Source_update dec_string_ptr,
      fld ''engine_avatar'' rr_EngineAvatar rr_EngineAvatar_update dec_string_ptr,
      fld ''parsed_url'' rr_ParsedURL rr_ParsedURL_update dec_strings]"

definition zero_response :: raw_search_response where
  "zero_response =
     \<lparr>rs_Query = '''', rs_Results = [], rs_Answers = [], rs_Infoboxes = [], rs_Suggestions = [],
      rs_NumberOfResults = 0, rs_Paging = False\<rparr>"

definition response_fields :: "raw_search_response struct_fields" where
  "response_fields =
     [fld ''query'' rs_Query rs_Query_update dec_string,
      fld ''results'' rs_Results rs_Results_update (dec_list (dec_struct result_fields) zero_result),
      fld ''answers'' rs_Answers rs_Answers_update (dec_list dec_raw JNull),
      fld ''infoboxes'' rs_Infoboxes rs_Infoboxes_update (dec_list (dec_struct infobox_fields) zero_infobox),
      fld ''suggestions'' rs_Suggestions rs_Suggestions_update dec_strings,
      fld ''number_of_results'' rs_NumberOfResults rs_NumberOfResults_update dec_int,
      fld ''paging'' rs_Paging rs_Paging_update dec_bool]"

definition Unmarshal_response :: "string \<Rightarrow> raw_search_response option" where
  "Unmarshal_response body = Unmarshal (dec_struct response_fields) zero_response body"

section \<open>Conversion to the domain\<close>

definition url_toDomain :: "raw_infobox_url \<Rightarrow> infobox_url" where
  "url_toDomain r = \<lparr>iu_Title = ru_Title r, iu_URL = ru_URL r\<rparr>"

definition attribute_toDomain :: "raw_infobox_attribute \<Rightarrow> infobox_attribute" where
  "attribute_toDomain r = \<lparr>ia_Key = ra_Key r, ia_Value = ra_Value r\<rparr>"

definition detail_toDomain :: "raw_infobox_detail \<Rightarrow> infobox_detail" where
  "detail_toDomain r =
     \<lparr>dt_ID = rd_ID r, dt_Content = rd_Content r, dt_ImgSrc = rd_ImgSrc r,
      dt_URLs = map url_toDomain (rd_URLs r), dt_Attributes = map attribute_toDomain (rd_Attributes r)\<rparr>"

definition infobox_toDomain :: "raw_infobox \<Rightarrow> infobox" where
  "infobox_toDomain r =
     \<lparr>ib_ID = rb_ID r, ib_URL = rb_URL r, ib_Content = rb_Content r,
      ib_Infoboxes = map detail_toDomain (rb_Infoboxes r), ib_ImgSrc = rb_ImgSrc r, ib_Engine = rb_Engine r,
      ib_URLs = map url_toDomain (rb_URLs r), ib_Attributes = map attribute_toDomain (rb_Attributes r)\<rparr>"

definition result_toDomain :: "raw_search_result \<Rightarrow> search_result" where
  "result_toDomain r =
     (let publishedDate =
            (if rr_PublishedDate r = None \<and> rr_PubDate r \<noteq> None then rr_PubDate r else rr_PublishedDate r)
      in \<lparr>sr_Title = rr_Title r, sr_URL = rr_URL r, sr_Content = rr_Content r, sr_Engine = rr_Engine r,
          sr_Template = rr_Template r, sr_PublishedDate = publishedDate, sr_Category = rr_Category r,
          sr_ImgSrc = rr_ImgSrc r, sr_Source = rr_Source r, sr_EngineAvatar = rr_EngineAvatar r,
          sr_ParsedURL = rr_ParsedURL r\<rparr>)"

text \<open>An answer that is a string (or null, which decodes to the empty string) is that string; any
  other is written back as JSON. \<open>Marshal\<close> does not fail on a raw message that was read.\<close>

definition rawAnswerToString :: "json \<Rightarrow> string" where
  "rawAnswerToString a =
     (case dec_string '''' a of
        Some s \<Rightarrow> s
      | None \<Rightarrow> Marshal_raw a)"

definition response_toDomain :: "raw_search_response \<Rightarrow> search_response" where
  "response_toDomain r =
     \<lparr>rp_Query = rs_Query r,
      rp_Results = map result_toDomain (rs_Results r),
      rp_Answers = map rawAnswerToString (rs_Answers r),
      rp_Infoboxes = map infobox_toDomain (rs_Infoboxes r),
      rp_Suggestions = rs_Suggestions r,
      rp_NumberOfResults = rs_NumberOfResults r,
      rp_Paging = rs_Paging r,
      rp_CorrectedURL = None\<rparr>"

section \<open>Reading the fields\<close>

definition plain_ascii :: "string \<Rightarrow> bool" where
  "plain_ascii s \<longleftrightarrow> list_all (\<lambda>c. byte_val c < 0x80 \<and> c \<noteq> CHR 0x5C) s"

lemma unquote_runes_plain: "plain_ascii s \<Longrightarrow> length s \<le> n \<Longrightarrow> unquote_runes n s = map byte_val s"
proof (induction s arbitrary: n)
  case Nil
  then show ?case by (cases n) auto
next
  case (Cons c s)
  then obtain m where "n = Suc m" by (cases n) auto
  then show ?case using Cons
    by (simp add: plain_ascii_def unquote_rune_def decode_rune_ascii)
qed

lemma unquote_plain:
  assumes "plain_ascii s"
  shows "unquote s = s"
proof -
  have "\<forall>r \<in> set (map byte_val s). r < 0x80" using assms by (auto simp: plain_ascii_def list_all_iff)
  then have "string_of_runes (map byte_val s) = map char_of (map byte_val s)"
    by (intro string_of_runes_ascii) auto
  then show ?thesis by (simp add: unquote_def unquote_runes_plain [OF assms])
qed

lemma wire_keys:
  "plain_ascii ''query''" "plain_ascii ''results''" "plain_ascii ''title''" "plain_ascii ''url''"
  "plain_ascii ''publishedDate''" "plain_ascii ''pubdate''"
  by (simp_all add: plain_ascii_def)

lemmas decode_simps = dec_struct_def Unmarshal_response_def Unmarshal_def find_field_def
  unquote_plain [OF wire_keys(1)] unquote_plain [OF wire_keys(2)] unquote_plain [OF wire_keys(3)]
  unquote_plain [OF wire_keys(4)] unquote_plain [OF wire_keys(5)] unquote_plain [OF wire_keys(6)]

lemma dec_elems_map:
  assumes "\<And>x. x \<in> set xs \<Longrightarrow> dec zero (f x) = Some (g x)"
  shows "dec_elems dec zero [] (map f xs) = Some (map g xs)"
  using assms by (induction xs) auto

text \<open>A result as SearXNG writes it: title, url and the two date fields (each null or a string).\<close>

definition date_json :: "string option \<Rightarrow> json" where
  "date_json d = (case d of None \<Rightarrow> JNull | Some r \<Rightarrow> JStr r)"

definition wire_result :: "string \<times> string \<times> string option \<times> string option \<Rightarrow> json" where
  "wire_result = (\<lambda>(t, u, p, d).
     JObj [(''title'', JStr t), (''url'', JStr u), (''publishedDate'', date_json p), (''pubdate'', date_json d)])"

definition read_result :: "string \<times> string \<times> string option \<times> string option \<Rightarrow> raw_search_result" where
  "read_result = (\<lambda>(t, u, p, d).
     zero_result\<lparr>rr_Title := unquote t, rr_URL := unquote u, rr_PublishedDate := map_option unquote p,
       rr_PubDate := map_option unquote d\<rparr>)"

lemma dec_date: "dec_string_ptr cur (date_json d) = Some (map_option unquote d)"
  by (simp add: dec_string_ptr_def date_json_def split: option.split)

lemma dec_wire_result: "dec_struct result_fields zero_result (wire_result x) = Some (read_result x)"
  by (cases x) (simp add: wire_result_def read_result_def decode_simps result_fields_def fld_def dec_date
      dec_string_def)

section \<open>Properties\<close>


definition demo_document :: json where
  "demo_document =
     JObj [(''query'', JStr ''go''),
           (''results'', JArr (map wire_result [(''Go'', ''https://go.dev'', None, Some ''2024-02-29'')]))]"

lemma demo_document_parses: "json_parse (json_text demo_document) = Some demo_document"
  by (rule json_parse_text) (code_simp, simp add: demo_document_def wire_result_def date_json_def maxNestingDepth_def)


text \<open>C31. An answer keeps its content: a string answer is its text, null is empty, and an answer of any
  other form becomes JSON text that reads back as the same value (its strings in the escaped
  spelling that \<open>Marshal\<close> gives to HTML characters).\<close>

theorem rawAnswerToString_content:
  assumes "json_parse doc = Some a"
  shows "case a of
      JStr r \<Rightarrow> rawAnswerToString a = unquote r
    | JNull \<Rightarrow> rawAnswerToString a = ''''
    | _ \<Rightarrow> json_parse (rawAnswerToString a) = Some (escape_json a)"
  using json_parse_Marshal_raw [of a] json_parse_wf [OF assms]
  by (cases a) (auto simp: rawAnswerToString_def dec_string_def simp del: escape_json.simps)

lemma rawAnswerToString_content_witness:
  "json_parse (rawAnswerToString demo_document) = Some (escape_json demo_document)"
  using rawAnswerToString_content [OF demo_document_parses] by (simp add: demo_document_def)

end
