(* ===== verification/GoValue.thy ===== *)
theory GoValue
  imports Models
begin

text \<open>
  What the program uses of reflection and of \<open>encoding/json\<close> in the writing direction: Go values with
  the tags of their struct fields, zero values, and \<open>json.Marshal\<close>. A \<open>[]string\<close> is a list without
  the distinction between nil and empty, which the fields that hold one (all \<open>omitempty\<close>) do not make.
\<close>

section \<open>Values\<close>

record field_info =
  fi_name :: string
  fi_exported :: bool
  fi_json :: string
  fi_omitempty :: bool
  fi_secret :: bool

text \<open>\<open>GFunc\<close> stands for the values that cannot be written as JSON: functions and channels.\<close>

datatype go_value =
    GString string
  | GInt int
  | GUint64 "64 word"
  | GDuration int
  | GBool bool
  | GStrings "string list"
  | GPtr "go_value option"
  | GFunc string
  | GStruct "(field_info \<times> go_value) list"

text \<open>\<open>reflect.Zero\<close> of a value's type.\<close>

fun zero_of :: "go_value \<Rightarrow> go_value" where
  "zero_of (GString _) = GString ''''"
| "zero_of (GInt _) = GInt 0"
| "zero_of (GUint64 _) = GUint64 0"
| "zero_of (GDuration _) = GDuration 0"
| "zero_of (GBool _) = GBool False"
| "zero_of (GStrings _) = GStrings []"
| "zero_of (GPtr _) = GPtr None"
| "zero_of (GFunc _) = GFunc ''''"
| "zero_of (GStruct fs) = GStruct (map (\<lambda>(t, v). (t, zero_of v)) fs)"

text \<open>What \<open>omitempty\<close> leaves out.\<close>

fun is_empty_value :: "go_value \<Rightarrow> bool" where
  "is_empty_value (GString s) \<longleftrightarrow> s = ''''"
| "is_empty_value (GInt n) \<longleftrightarrow> n = 0"
| "is_empty_value (GUint64 n) \<longleftrightarrow> n = 0"
| "is_empty_value (GDuration n) \<longleftrightarrow> n = 0"
| "is_empty_value (GBool b) \<longleftrightarrow> \<not> b"
| "is_empty_value (GStrings ss) \<longleftrightarrow> ss = []"
| "is_empty_value (GPtr p) \<longleftrightarrow> p = None"
| "is_empty_value (GFunc _) \<longleftrightarrow> False"
| "is_empty_value (GStruct _) \<longleftrightarrow> False"

section \<open>Writing JSON\<close>

text \<open>A string as \<open>json.Marshal\<close> quotes it: the characters that need it and those of HTML escaped,
  invalid bytes replaced.\<close>

definition short_escape :: "char \<Rightarrow> char option" where
  "short_escape c =
     (if c = CHR 0x22 then Some (CHR 0x22) else if c = CHR 0x5C then Some (CHR 0x5C)
      else if c = CHR 0x08 then Some (CHR ''b'') else if c = CHR 0x0C then Some (CHR ''f'')
      else if c = CHR 0x0A then Some (CHR ''n'') else if c = CHR 0x0D then Some (CHR ''r'')
      else if c = CHR 0x09 then Some (CHR ''t'') else None)"

definition escape_ascii :: "char \<Rightarrow> string" where
  "escape_ascii c =
     (case short_escape c of
        Some e \<Rightarrow> [CHR 0x5C, e]
      | None \<Rightarrow>
          if byte_val c < 0x20 \<or> c \<in> set ''<>&''
          then CHR 0x5C # ''u00'' @ [hex_digit (byte_val c div 16), hex_digit (byte_val c mod 16)]
          else [c])"

fun json_escape :: "string \<Rightarrow> string" where
  "json_escape [] = []"
| "json_escape (c # cs) =
     (if byte_val c < 0x80 then escape_ascii c @ json_escape cs
      else let (r, n) = decode_rune (c # cs) in
        (if n = 1 then CHR 0x5C # ''ufffd''
         else if r = 0x2028 then CHR 0x5C # ''u2028''
         else if r = 0x2029 then CHR 0x5C # ''u2029''
         else take n (c # cs)) @ json_escape (drop (n - 1) cs))"

declare json_escape.simps(2) [simp del]

text \<open>The document of a value; \<open>None\<close> when it has a part that JSON has no form for.\<close>

fun go_json :: "go_value \<Rightarrow> json option"
  and go_json_fields :: "(field_info \<times> go_value) list \<Rightarrow> (string \<times> json) list option" where
  "go_json (GString s) = Some (JStr (json_escape s))"
| "go_json (GInt n) = Some (JNum (Itoa n))"
| "go_json (GUint64 n) = Some (JNum (Itoa (uint n)))"
| "go_json (GDuration n) = Some (JNum (Itoa n))"
| "go_json (GBool b) = Some (JBool b)"
| "go_json (GStrings ss) = Some (JArr (map (\<lambda>s. JStr (json_escape s)) ss))"
| "go_json (GPtr None) = Some JNull"
| "go_json (GPtr (Some v)) = go_json v"
| "go_json (GFunc _) = None"
| "go_json (GStruct fs) = map_option JObj (go_json_fields fs)"
| "go_json_fields [] = Some []"
| "go_json_fields ((t, v) # fs) =
     (if \<not> fi_exported t \<or> (fi_omitempty t \<and> is_empty_value v) then go_json_fields fs
      else case go_json v of
             None \<Rightarrow> None
           | Some j \<Rightarrow> map_option (\<lambda>kvs. (json_escape (fi_json t), j) # kvs) (go_json_fields fs))"

definition Marshal :: "go_value \<Rightarrow> string option" where
  "Marshal v = map_option json_text (go_json v)"

section \<open>Escaped strings\<close>

lemma decode_rune_append: "s \<noteq> [] \<Longrightarrow> ascii_head b \<Longrightarrow> decode_rune (s @ b) = decode_rune s"
  by (cases b) (auto simp: decode_rune_def ascii_head_def decode_bytes_append)

lemma decode_rune_width: "snd (decode_rune s) \<le> length s"
  using decode_bytes_width [of "map of_char s"] by (simp add: decode_rune_def)

lemma json_escape_append: "ascii_head b \<Longrightarrow> json_escape (a @ b) = json_escape a @ json_escape b"
proof (induction a rule: json_escape.induct)
  case (2 c cs)
  show ?case
  proof (cases "byte_val c < 0x80")
    case False
    obtain r n where d: "decode_rune (c # cs) = (r, n)" by force
    then have d': "decode_rune (c # cs @ b) = (r, n)" using decode_rune_append [of "c # cs" b] 2(3) by simp
    have n: "n \<le> Suc (length cs)" using decode_rune_width [of "c # cs"] d by simp
    have i: "json_escape (drop (n - 1) cs @ b) = json_escape (drop (n - 1) cs) @ json_escape b"
      using 2(2) [OF False d [symmetric] refl 2(3)] .
    show ?thesis using False d d' n i by (cases n) (simp_all add: json_escape.simps(2))
  qed (use 2 in \<open>simp add: json_escape.simps(2)\<close>)
qed simp

text \<open>Characters that stand for themselves in a quoted string.\<close>

definition json_plain :: "char \<Rightarrow> bool" where
  "json_plain c \<longleftrightarrow> 0x20 \<le> byte_val c \<and> byte_val c < 0x80 \<and> c \<noteq> CHR 0x22 \<and> c \<noteq> CHR 0x5C
     \<and> c \<noteq> CHR ''<'' \<and> c \<noteq> CHR ''>'' \<and> c \<noteq> CHR ''&''"

lemma json_plain_not_control:
  "json_plain c \<Longrightarrow> c \<noteq> CHR 0x08 \<and> c \<noteq> CHR 0x0C \<and> c \<noteq> CHR 0x0A \<and> c \<noteq> CHR 0x0D \<and> c \<noteq> CHR 0x09"
  by (intro conjI notI; simp add: json_plain_def)

lemma short_escape_plain: "json_plain c \<Longrightarrow> short_escape c = None"
  by (frule json_plain_not_control) (simp add: json_plain_def short_escape_def)

lemma escape_ascii_plain: "json_plain c \<Longrightarrow> escape_ascii c = [c]"
  by (simp add: short_escape_plain escape_ascii_def json_plain_def)

lemma json_escape_plain: "list_all json_plain s \<Longrightarrow> json_escape s = s"
proof (induction s)
  case (Cons c s)
  then have "json_plain c" "byte_val c < 0x80" by (simp_all add: json_plain_def)
  then show ?case using Cons by (simp add: json_escape.simps(2) escape_ascii_plain)
qed simp

text \<open>What is written in a string is read back as the text, invalid bytes replaced; any decoder of
  JSON gets the runes of the original.\<close>

lemma decode_rune_local: "decode_rune s = (r, n) \<Longrightarrow> 1 < n \<Longrightarrow> decode_rune (take n s @ t) = (r, n)"
  using decode_bytes_local [of "map of_char s" r n] by (simp add: decode_rune_def take_map)

lemma short_escape_unquote: "short_escape c = Some e \<Longrightarrow> simple_escape e = byte_val c \<and> e \<noteq> CHR ''u''"
  by (auto simp: short_escape_def simple_escape_def split: if_splits)

lemma unquote_rune_short:
  "e \<noteq> CHR ''u'' \<Longrightarrow> unquote_rune (CHR 0x5C # e # t) = (simple_escape e, 2)"
  by (simp add: unquote_rune_def getu4_def)

lemma hex_letter_cases: "10 \<le> n \<Longrightarrow> n < (16 :: nat) \<Longrightarrow> n = 10 \<or> n = 11 \<or> n = 12 \<or> n = 13 \<or> n = 14 \<or> n = 15"
  by linarith

lemma hex_digit_is_hex: "n < 16 \<Longrightarrow> is_hex (hex_digit n)"
proof (cases "n < 10")
  case True
  then show ?thesis by (simp add: hex_digit_def is_hex_def is_digit_def of_char_of)
next
  case False
  assume "n < 16"
  with False hex_letter_cases [of n] have "n = 10 \<or> n = 11 \<or> n = 12 \<or> n = 13 \<or> n = 14 \<or> n = 15" by simp
  then show ?thesis
    by (elim disjE) (simp_all add: hex_digit_def is_hex_def char_of_def bit_Suc_0_0)
qed

lemma hex_nat_snoc:
  assumes "n < 16"
  shows "hex_nat (s @ [hex_digit n]) = 16 * hex_nat s + n"
proof -
  have "is_digit (hex_digit n) \<longleftrightarrow> n < 10" "n < 10 \<Longrightarrow> digit_val (hex_digit n) = n"
    "\<not> n < 10 \<Longrightarrow> byte_val (hex_digit n) = 0x57 + n"
    using assms by (auto simp: hex_digit_def is_digit_def digit_val_def of_char_of)
  then show ?thesis by (simp add: hex_nat_def)
qed

lemma hex_nat_00: 
  assumes "byte_val c < 0x80"
  shows "hex_nat [CHR ''0'', CHR ''0'', hex_digit (byte_val c div 16), hex_digit (byte_val c mod 16)] = byte_val c"
proof -
  have "byte_val c div 16 < 16" "byte_val c mod 16 < 16" using assms by auto
  with hex_nat_snoc [of "byte_val c mod 16" "[CHR ''0'', CHR ''0'', hex_digit (byte_val c div 16)]"]
    hex_nat_snoc [of "byte_val c div 16" "[CHR ''0'', CHR ''0'']"]
  show ?thesis by (simp add: hex_nat_def [of "[CHR ''0'', CHR ''0'']"] is_digit_def digit_val_def)
qed

lemma getu4_hex:
  "list_all is_hex [a, b, c, d] \<Longrightarrow> getu4 (CHR 0x5C # CHR ''u'' # a # b # c # d # t) = Some (hex_nat [a, b, c, d])"
  by (simp add: getu4_def)

lemma unquote_rune_hex:
  "list_all is_hex [a, b, c, d] \<Longrightarrow> \<not> is_surrogate (hex_nat [a, b, c, d])
    \<Longrightarrow> unquote_rune (CHR 0x5C # CHR ''u'' # a # b # c # d # t) = (hex_nat [a, b, c, d], 6)"
  by (simp only: unquote_rune_def getu4_hex list.sel not_True_eq_False if_False if_True option.case
      simp_thms not_False_eq_True)

lemma unquote_rune_00:
  assumes "byte_val c < 0x80"
  shows "unquote_rune ([CHR 0x5C, CHR ''u'', CHR ''0'', CHR ''0'', hex_digit (byte_val c div 16),
    hex_digit (byte_val c mod 16)] @ t) = (byte_val c, 6)"
proof -
  have h: "is_hex (hex_digit (byte_val c div 16))" "is_hex (hex_digit (byte_val c mod 16))"
    using assms by (auto intro!: hex_digit_is_hex)
  have z: "is_hex (CHR ''0'')" by (simp add: is_hex_def is_digit_def)
  show ?thesis
    using unquote_rune_hex [of "CHR ''0''" "CHR ''0''" "hex_digit (byte_val c div 16)" "hex_digit (byte_val c mod 16)" t]
      h z hex_nat_00 [OF assms] assms
    by (simp add: is_surrogate_def)
qed

lemma unquote_rune_ascii: "byte_val c < 0x80 \<Longrightarrow> \<exists>n. length (escape_ascii c) = n \<and> 1 \<le> n
    \<and> unquote_rune (escape_ascii c @ t) = (byte_val c, n)"
proof (cases "short_escape c")
  case (Some e)
  then show ?thesis using short_escape_unquote [OF Some]
    by (simp add: escape_ascii_def unquote_rune_short)
next
  case None
  assume c: "byte_val c < 0x80"
  show ?thesis
  proof (cases "byte_val c < 0x20 \<or> c \<in> set ''<>&''")
    case True
    then show ?thesis using None unquote_rune_00 [OF c, of t] by (simp add: escape_ascii_def)
  next
    case False
    then have "escape_ascii c = [c]" using None by (simp add: escape_ascii_def)
    moreover have "c \<noteq> CHR 0x5C" using None by (auto simp: short_escape_def)
    ultimately show ?thesis using c by (simp add: unquote_rune_def decode_rune_ascii)
  qed
qed

lemma unquote_rune_u:
  "unquote_rune (CHR 0x5C # ''ufffd'' @ t) = (rune_error, 6)"
  "unquote_rune (CHR 0x5C # ''u2028'' @ t) = (0x2028, 6)"
  "unquote_rune (CHR 0x5C # ''u2029'' @ t) = (0x2029, 6)"
proof -
  have "list_all is_hex ''fffd''" "list_all is_hex ''2028''" "list_all is_hex ''2029''"
    "hex_nat ''fffd'' = rune_error" "hex_nat ''2028'' = 0x2028" "hex_nat ''2029'' = 0x2029"
    by (simp_all add: is_hex_def is_digit_def hex_nat_def digit_val_def rune_error_def)
  then show "unquote_rune (CHR 0x5C # ''ufffd'' @ t) = (rune_error, 6)"
    "unquote_rune (CHR 0x5C # ''u2028'' @ t) = (0x2028, 6)"
    "unquote_rune (CHR 0x5C # ''u2029'' @ t) = (0x2029, 6)"
    using unquote_rune_hex [of "CHR ''f''" "CHR ''f''" "CHR ''f''" "CHR ''d''" t]
      unquote_rune_hex [of "CHR ''2''" "CHR ''0''" "CHR ''2''" "CHR ''8''" t]
      unquote_rune_hex [of "CHR ''2''" "CHR ''0''" "CHR ''2''" "CHR ''9''" t]
    by (simp_all add: is_surrogate_def rune_error_def)
qed

lemma runes_Cons: "runes (c # cs) = fst (decode_rune (c # cs)) # runes (drop (snd (decode_rune (c # cs)) - 1) cs)"
  by (simp add: runes_def decode_rune_def drop_map)

lemma decode_rune_high:
  assumes "\<not> byte_val c < 0x80" "decode_rune (c # cs) = (r, n)"
  shows "1 \<le> n \<and> (n = 1 \<longrightarrow> r = rune_error)"
  using assms by (auto simp: decode_rune_def decode_bytes.simps elim!: decode_tail2.elims decode_tail3.elims decode_tail4.elims split: if_splits)

lemma unquote_runes_step:
  assumes "s \<noteq> []" "unquote_rune (p @ s') = (r, length p)" "s = p @ s'" "1 \<le> length p" "length s \<le> m"
    and "\<And>k. length s' \<le> k \<Longrightarrow> unquote_runes k s' = rs"
  shows "unquote_runes m s = r # rs"
proof -
  obtain k where k: "m = Suc k" using assms(1,5) by (cases m) auto
  then have "length s' \<le> k" using assms(3-5) by simp
  then show ?thesis using assms k by simp
qed

lemma unquote_runes_json_escape: "length (json_escape s) \<le> m \<Longrightarrow> unquote_runes m (json_escape s) = runes s"
proof (induction s arbitrary: m rule: json_escape.induct)
  case 1
  then show ?case by (cases m) (simp_all add: runes_def)
next
  case (2 c cs)
  show ?case
  proof (cases "byte_val c < 0x80")
    case True
    have u: "unquote_rune (escape_ascii c @ json_escape cs) = (byte_val c, length (escape_ascii c))"
      and l: "1 \<le> length (escape_ascii c)"
      using unquote_rune_ascii [OF True, of "json_escape cs"] by auto
    have e: "json_escape (c # cs) = escape_ascii c @ json_escape cs" using True by (simp add: json_escape.simps(2))
    have "json_escape (c # cs) \<noteq> []" using e l by auto
    from unquote_runes_step [OF this u e l 2(3) 2(1) [OF True]]
    show ?thesis using True by (simp add: runes_Cons decode_rune_ascii)
  next
    case False
    obtain r n where d: "decode_rune (c # cs) = (r, n)" by force
    let ?p = "if n = 1 then CHR 0x5C # ''ufffd'' else if r = 0x2028 then CHR 0x5C # ''u2028''
      else if r = 0x2029 then CHR 0x5C # ''u2029'' else take n (c # cs)"
    note h = decode_rune_high [OF False d]
    have w: "n \<le> Suc (length cs)" using decode_rune_width [of "c # cs"] d by simp
    have u: "unquote_rune (?p @ t) = (r, length ?p)" for t
    proof (cases "n = 1 \<or> r = 0x2028 \<or> r = 0x2029")
      case True
      then show ?thesis using h unquote_rune_u [of t] by (elim disjE) simp_all
    next
      case n: False
      then have t: "decode_rune (take n (c # cs) @ t) = (r, n)" using decode_rune_local [OF d, of t] h by auto
      have "c \<noteq> CHR 0x5C" using False by auto
      moreover have "hd (take n (c # cs) @ t) = c" using h by (cases n) auto
      ultimately have "unquote_rune (take n (c # cs) @ t) = (r, n)" using t by (simp only: unquote_rune_def if_True simp_thms)
      then show ?thesis using n w by simp
    qed
    have e: "json_escape (c # cs) = ?p @ json_escape (drop (n - 1) cs)"
      using False d by (simp add: json_escape.simps(2))
    have l: "1 \<le> length ?p" using h w by simp
    then have "json_escape (c # cs) \<noteq> []" using e by auto
    from unquote_runes_step [OF this u e l 2(3) 2(2) [OF False d [symmetric] refl]]
    show ?thesis using d by (simp add: runes_Cons)
  qed
qed

lemma unquote_json_escape: "unquote (json_escape s) = string_of_runes (runes s)"
  by (simp add: unquote_def unquote_runes_json_escape)

text \<open>What is written is well-formed, so a decoder finds the end of the string.\<close>

lemma scan_plains:
  "list_all (\<lambda>c. c \<noteq> DQ \<and> c \<noteq> CHR 0x5C \<and> \<not> byte_val c < 0x20) p \<Longrightarrow> scan_string s = Some (r, rest)
    \<Longrightarrow> scan_string (p @ s) = Some (p @ r, rest)"
  by (induction p) (auto intro: scan_plain)

lemma scan_escape:
  "escape_length (p @ s) = Some (length p) \<Longrightarrow> scan_string s = Some (r, rest)
    \<Longrightarrow> scan_string (CHR 0x5C # p @ s) = Some (CHR 0x5C # p @ r, rest)"
  by (simp add: scan_string.simps(2))

lemma escape_length_ascii:
  "short_escape c = Some e \<Longrightarrow> escape_length (e # s) = Some 1"
  by (auto simp: short_escape_def escape_length_def split: if_splits)

lemma escape_length_u: "list_all is_hex hs \<Longrightarrow> length hs = 4 \<Longrightarrow> escape_length (CHR ''u'' # hs @ s) = Some 5"
  by (simp add: escape_length_def)

lemma scan_escape_ascii:
  assumes "byte_val c < 0x80" "scan_string s = Some (r, rest)"
  shows "scan_string (escape_ascii c @ s) = Some (escape_ascii c @ r, rest)"
proof (cases "short_escape c")
  case (Some e)
  then show ?thesis using scan_escape [of "[e]" s r rest] assms(2) escape_length_ascii [OF Some, of s]
    by (simp add: escape_ascii_def)
next
  case None
  let ?hs = "[CHR ''0'', CHR ''0'', hex_digit (byte_val c div 16), hex_digit (byte_val c mod 16)]"
  show ?thesis
  proof (cases "byte_val c < 0x20 \<or> c \<in> set ''<>&''")
    case True
    have "is_hex (hex_digit (byte_val c div 16))" "is_hex (hex_digit (byte_val c mod 16))" "is_hex (CHR ''0'')"
      using assms(1) by (auto intro!: hex_digit_is_hex) (simp add: is_hex_def is_digit_def)
    then have "list_all is_hex ?hs" by simp
    then show ?thesis using True None scan_u_escape [of ?hs s r rest] assms(2)
      by (simp add: escape_ascii_def)
  next
    case False
    then have "escape_ascii c = [c]" using None by (simp add: escape_ascii_def)
    moreover have "c \<noteq> DQ \<and> c \<noteq> CHR 0x5C" using None by (auto simp: short_escape_def)
    ultimately show ?thesis using False scan_plain [OF _ _ _ assms(2), of c] by simp
  qed
qed

lemma decode_tails_high:
  "decode_tail2 b0 bs = (r, n) \<Longrightarrow> 1 < n \<Longrightarrow> list_all (\<lambda>b. 0x80 \<le> b) (take (n - 1) bs)"
  "decode_tail3 b0 bs = (r, n) \<Longrightarrow> 1 < n \<Longrightarrow> list_all (\<lambda>b. 0x80 \<le> b) (take (n - 1) bs)"
  "decode_tail4 b0 bs = (r, n) \<Longrightarrow> 1 < n \<Longrightarrow> list_all (\<lambda>b. 0x80 \<le> b) (take (n - 1) bs)"
  subgoal by (cases bs) (auto simp: cont_def split: if_splits)
  subgoal by (cases "(b0, bs)" rule: decode_tail3.cases)
      (auto simp: cont_def second_ok_def second_lo_def split: if_splits)
  subgoal by (cases "(b0, bs)" rule: decode_tail4.cases)
      (auto simp: cont_def second_ok_def second_lo_def split: if_splits)
  done

lemma decode_rune_bytes_high:
  assumes "\<not> byte_val c < 0x80" "decode_rune (c # cs) = (r, n)" "1 < n"
  shows "list_all (\<lambda>c. 0x80 \<le> byte_val c) (take n (c # cs))"
proof -
  have "list_all (\<lambda>b. 0x80 \<le> b) (take (n - 1) (map byte_val cs))"
    using assms by (auto simp: decode_rune_def decode_bytes.simps dest: decode_tails_high split: if_splits)
  then show ?thesis using assms(1,3) by (cases n) (auto simp: take_map list_all_iff)
qed

lemma scan_json_escape: "scan_string (json_escape s @ DQ # rest) = Some (json_escape s, rest)"
proof (induction s rule: json_escape.induct)
  case 1
  then show ?case by (simp add: scan_string.simps(2))
next
  case (2 c cs)
  show ?case
  proof (cases "byte_val c < 0x80")
    case True
    then show ?thesis using scan_escape_ascii [OF True 2(1) [OF True]] by (simp add: json_escape.simps(2))
  next
    case False
    obtain r n where d: "decode_rune (c # cs) = (r, n)" by force
    note h = decode_rune_high [OF False d]
    note ih = 2(2) [OF False d [symmetric] refl]
    have u: "list_all is_hex ''fffd''" "list_all is_hex ''2028''" "list_all is_hex ''2029''"
      by (simp_all add: is_hex_def is_digit_def)
    show ?thesis
    proof (cases "n = 1 \<or> r = 0x2028 \<or> r = 0x2029")
      case True
      then show ?thesis using False d u scan_u_escape [OF _ _ ih, of "''fffd''"]
          scan_u_escape [OF _ _ ih, of "''2028''"] scan_u_escape [OF _ _ ih, of "''2029''"]
        by (cases "n = 1"; cases "r = 0x2028") (simp_all add: json_escape.simps(2))
    next
      case n: False
      have "c' \<noteq> DQ \<and> c' \<noteq> CHR 0x5C \<and> \<not> byte_val c' < 0x20" if "0x80 \<le> byte_val c'" for c'
        using that by auto
      then have "list_all (\<lambda>c. c \<noteq> DQ \<and> c \<noteq> CHR 0x5C \<and> \<not> byte_val c < 0x20) (take n (c # cs))"
        using decode_rune_bytes_high [OF False d] n h by (auto simp: list_all_iff)
      from scan_plains [OF this ih] show ?thesis using False d n by (simp add: json_escape.simps(2))
    qed
  qed
qed

lemma wf_raw_json_escape [simp]: "wf_raw (json_escape s)"
  using scan_string_wf scan_json_escape by blast

end
