(* ===== verification/Redact.thy ===== *)
theory Redact
  imports GoUrl GoValue
begin

text \<open>
  \<open>handlers/redact.go\<close>: \<open>RedactURL\<close>, which strips URL credentials from free text, \<open>RedactValue\<close> and
  the annotation-driven \<open>RedactStruct\<close>.
\<close>

section \<open>Free text\<close>

text \<open>
  The matches of \<open>(https?://)[^/@\s]+@\<close>. The class excludes \<open>@\<close> and the slash, so at a position the
  match is unique: the longest run of the class, which must end at an \<open>@\<close>. The class excludes only
  ASCII characters, so running over bytes matches the same text as running over runes.
\<close>

definition userinfo_byte :: "char \<Rightarrow> bool" where
  "userinfo_byte c \<longleftrightarrow> c \<notin> {CHR ''/'', CHR ''@'', CHR 0x09, CHR 0x0A, CHR 0x0C, CHR 0x0D, CHR '' ''}"

definition scheme_at :: "string \<Rightarrow> string option" where
  "scheme_at s =
     (if has_prefix s ''http://'' then Some ''http://''
      else if has_prefix s ''https://'' then Some ''https://''
      else None)"

definition userinfo_at :: "string \<Rightarrow> string option" where
  "userinfo_at t =
     (case dropWhile userinfo_byte t of
        [] \<Rightarrow> None
      | c # rest \<Rightarrow> if c = CHR ''@'' \<and> takeWhile userinfo_byte t \<noteq> [] then Some rest else None)"

definition match_userinfo :: "string \<Rightarrow> (string \<times> string) option" where
  "match_userinfo s =
     (case scheme_at s of
        None \<Rightarrow> None
      | Some sch \<Rightarrow> map_option (\<lambda>rest. (sch, rest)) (userinfo_at (drop (length sch) s)))"

lemma userinfo_at_length: "userinfo_at t = Some rest \<Longrightarrow> length rest < length t"
  using length_dropWhile_le [of userinfo_byte t]
  by (auto simp: userinfo_at_def simp del: length_dropWhile_le split: list.splits if_splits)

lemma match_userinfo_length: "match_userinfo s = Some (sch, rest) \<Longrightarrow> length rest < length s"
  using userinfo_at_length [of "drop (length sch) s" rest]
  by (auto simp: match_userinfo_def split: option.splits)

function RedactURL :: "string \<Rightarrow> string" where
  "RedactURL s =
     (case match_userinfo s of
        Some (sch, rest) \<Rightarrow> sch @ RedactURL rest
      | None \<Rightarrow> (case s of [] \<Rightarrow> [] | c # cs \<Rightarrow> c # RedactURL cs))"
  by auto
termination by (relation "measure length") (auto simp: match_userinfo_length)

declare RedactURL.simps [simp del]

section \<open>Values\<close>

definition redactedMarker :: string where
  "redactedMarker = ''<redacted>''"

text \<open>The result is always a string. Only a value whose dynamic type is \<open>string\<close> can be an URL.\<close>

definition RedactValue :: "(string \<Rightarrow> string option) \<Rightarrow> go_value \<Rightarrow> string" where
  "RedactValue hp v =
     (case v of
        GString s \<Rightarrow>
          (case url_Parse hp s of
             Some parsed \<Rightarrow>
               if (Scheme parsed = ''http'' \<or> Scheme parsed = ''https'') \<and> Host parsed \<noteq> ''''
               then url_String (parsed\<lparr>User := None\<rparr>)
               else redactedMarker
           | None \<Rightarrow> redactedMarker)
      | _ \<Rightarrow> redactedMarker)"

fun is_GString :: "go_value \<Rightarrow> bool" where
  "is_GString (GString _) = True"
| "is_GString _ = False"

text \<open>The copy starts from zero values and unexported fields stay zero; a secret field is set to its
  redaction when that, a string, can be assigned to it.\<close>

fun RedactStruct :: "(string \<Rightarrow> string option) \<Rightarrow> go_value \<Rightarrow> go_value" where
  "RedactStruct hp (GStruct fs) =
     GStruct (map (\<lambda>(t, v).
       (t, if \<not> fi_exported t then zero_of v
           else if fi_secret t then (if is_GString v then GString (RedactValue hp v) else zero_of v)
           else RedactStruct hp v)) fs)"
| "RedactStruct hp v = v"

section \<open>What is stripped\<close>

lemma take_within:
  assumes "p \<noteq> []" "CHR ''h'' \<notin> set (tl w)" "length p < n" 
  shows "take n (p @ CHR ''h'' # y) \<noteq> w"
proof -
  obtain k where "n - length p = Suc k" using assms(3) by (cases "n - length p") auto
  then have "take n (p @ CHR ''h'' # y) = p @ CHR ''h'' # take k y" using assms(3) by simp
  moreover have "CHR ''h'' \<in> set (tl (p @ CHR ''h'' # take k y))" using assms(1) by (cases p) simp_all
  ultimately show ?thesis using assms(2) by metis
qed

lemma has_prefix_within:
  assumes "p \<noteq> []" "CHR ''h'' \<notin> set (tl w)"
  shows "has_prefix (p @ CHR ''h'' # y) w = has_prefix p w"
proof (cases "length w \<le> length p")
  case False
  then have "length p < length w" by simp
  from take_within [OF assms this] have "\<not> has_prefix (p @ CHR ''h'' # y) w" unfolding has_prefix_def .
  moreover have "\<not> has_prefix p w" unfolding has_prefix_def
    using \<open>length p < length w\<close> by (auto dest!: arg_cong [where f = length])
  ultimately show ?thesis by blast
qed (simp add: has_prefix_def)

definition scheme_text :: "string \<Rightarrow> bool" where
  "scheme_text sch \<longleftrightarrow> sch = ''http://'' \<or> sch = ''https://''"

lemma scheme_at_within: "p \<noteq> [] \<Longrightarrow> scheme_text sch \<Longrightarrow> scheme_at (p @ sch @ y) = scheme_at p"
proof -
  assume p: "p \<noteq> []" and "scheme_text sch"
  then obtain z where "sch @ y = CHR ''h'' # z" by (auto simp: scheme_text_def)
  then show ?thesis using has_prefix_within [OF p, of "''http://''" z] has_prefix_within [OF p, of "''https://''" z]
    by (simp add: scheme_at_def)
qed

lemma scheme_at_Some: "scheme_at s = Some sch \<Longrightarrow> scheme_text sch \<and> has_prefix s sch"
  by (auto simp: scheme_at_def scheme_text_def split: if_splits)

lemma scheme_at_self: "scheme_text sch \<Longrightarrow> scheme_at (sch @ y) = Some sch"
  by (auto simp: scheme_at_def scheme_text_def has_prefix_def)

text \<open>A run of the class never crosses the slashes of a scheme.\<close>

lemma dropWhile_stops: "dropWhile f t = c # r \<Longrightarrow> dropWhile f (t @ z) = c # r @ z"
  by (induction t) (auto split: if_splits)

lemma dropWhile_runs: "dropWhile f t = [] \<Longrightarrow> dropWhile f (t @ z) = dropWhile f z"
  by (induction t) (auto split: if_splits)

lemma userinfo_at_within:
  assumes "scheme_text sch"
  shows "userinfo_at (t @ sch @ y) = map_option (\<lambda>r. r @ sch @ y) (userinfo_at t)"
proof (cases "dropWhile userinfo_byte t")
  case (Cons c r)
  then have "dropWhile userinfo_byte (t @ sch @ y) = c # r @ sch @ y"
    by (rule dropWhile_stops)
  moreover have "takeWhile userinfo_byte (t @ sch @ y) = takeWhile userinfo_byte t"
    using Cons by (metis dropWhile_eq_Nil_conv list.distinct(1) takeWhile_append1)
  ultimately show ?thesis using Cons by (simp add: userinfo_at_def)
next
  case Nil
  have "\<exists>z. dropWhile userinfo_byte (sch @ y) = CHR ''/'' # z"
    using assms by (auto simp: scheme_text_def userinfo_byte_def)
  then obtain z where "dropWhile userinfo_byte (t @ sch @ y) = CHR ''/'' # z"
    using dropWhile_runs [OF Nil, of "sch @ y"] by auto
  then show ?thesis using Nil unfolding userinfo_at_def by (simp only: list.case option.map) simp
qed

lemma match_userinfo_within:
  assumes "p \<noteq> []" "scheme_text sch"
  shows "match_userinfo (p @ sch @ y) = map_option (\<lambda>(s, r). (s, r @ sch @ y)) (match_userinfo p)"
proof (cases "scheme_at p")
  case None
  then show ?thesis using scheme_at_within [OF assms] by (simp add: match_userinfo_def)
next
  case (Some s)
  then have "length s \<le> length p" using scheme_at_Some [OF Some] 
    by (metis has_prefix_def length_take min.cobounded1)
  then show ?thesis
    by (simp add: match_userinfo_def scheme_at_within [OF assms] Some userinfo_at_within [OF assms(2)]
        option.map_comp comp_def)
qed

lemma match_userinfo_here:
  assumes "scheme_text sch" "list_all userinfo_byte u" "u \<noteq> []"
  shows "match_userinfo (sch @ u @ CHR ''@'' # post) = Some (sch, post)"
proof -
  have "takeWhile userinfo_byte (u @ CHR ''@'' # post) = u" "dropWhile userinfo_byte (u @ CHR ''@'' # post) = CHR ''@'' # post"
    using assms(2) by (induction u) (auto simp: userinfo_byte_def)
  then have "userinfo_at (u @ CHR ''@'' # post) = Some post" using assms(3) by (simp add: userinfo_at_def)
  then show ?thesis using assms(1) by (simp add: match_userinfo_def scheme_at_self)
qed

lemma RedactURL_at:
  assumes "scheme_text sch" "list_all userinfo_byte u" "u \<noteq> []"
  shows "RedactURL (pre @ sch @ u @ CHR ''@'' # post) = RedactURL pre @ sch @ RedactURL post"
proof (induction pre rule: RedactURL.induct)
  case (1 pre)
  show ?case
  proof (cases pre)
    case Nil
    then show ?thesis using match_userinfo_here [OF assms, of post]
      by (simp add: RedactURL.simps [of "sch @ _"] RedactURL.simps [of "[]"] match_userinfo_def scheme_at_def has_prefix_def)
  next
    case (Cons c cs)
    then have m: "match_userinfo (pre @ sch @ u @ CHR ''@'' # post) =
        map_option (\<lambda>(s, r). (s, r @ sch @ u @ CHR ''@'' # post)) (match_userinfo pre)"
      using match_userinfo_within [OF _ assms(1)] by blast
    show ?thesis
    proof (cases "match_userinfo pre")
      case None
      then show ?thesis using 1(1) [OF None Cons] m Cons
        by (simp add: RedactURL.simps [of "c # _"])
    next
      case (Some sr)
      then show ?thesis using 1(2) [OF Some, of "fst sr" "snd sr"] m Cons
        by (cases sr) (simp add: RedactURL.simps [of "c # _"])
    qed
  qed
qed

lemma RedactURL_Nil [simp]: "RedactURL [] = []"
  by (simp add: RedactURL.simps [of "[]"] match_userinfo_def scheme_at_def has_prefix_def)

lemma RedactURL_Cons: "match_userinfo (c # cs) = None \<Longrightarrow> RedactURL (c # cs) = c # RedactURL cs"
  by (simp add: RedactURL.simps [of "c # cs"])

lemma RedactURL_Some: "match_userinfo s = Some (sch, rest) \<Longrightarrow> RedactURL s = sch @ RedactURL rest"
  by (simp add: RedactURL.simps [of s])

lemma dropWhile_hd_in: "dropWhile f t = c # r \<Longrightarrow> c \<in> set t"
  by (metis set_dropWhileD list.set_intros(1))

lemma userinfo_at_None: "CHR ''@'' \<notin> set t \<Longrightarrow> userinfo_at t = None"
  by (auto simp: userinfo_at_def dest: dropWhile_hd_in split: list.split)

lemma RedactURL_no_match: 
  assumes "CHR ''@'' \<notin> set s"
  shows "RedactURL s = s"
  using assms
proof (induction s rule: RedactURL.induct)
  case (1 s)
  have "match_userinfo s = None" using 1(3) by (auto simp: match_userinfo_def split: option.split intro!: userinfo_at_None dest: in_set_dropD)
  then show ?case using 1 by (cases s) (auto simp: RedactURL_Cons)
qed

lemma match_userinfo_parts: "match_userinfo s = Some (sch, rest) \<Longrightarrow> \<exists>u. s = sch @ u @ rest"
proof -
  assume m: "match_userinfo s = Some (sch, rest)"
  then have s: "has_prefix s sch" and u: "userinfo_at (drop (length sch) s) = Some rest"
    by (auto simp: match_userinfo_def split: option.splits dest: scheme_at_Some)
  then obtain c where "dropWhile userinfo_byte (drop (length sch) s) = c # rest"
    by (auto simp: userinfo_at_def split: list.splits if_splits)
  then have "drop (length sch) s = takeWhile userinfo_byte (drop (length sch) s) @ c # rest"
    by (metis takeWhile_dropWhile_id)
  moreover obtain t where "s = sch @ t" using has_prefixD [OF s] by blast
  ultimately have "s = sch @ (takeWhile userinfo_byte t @ [c]) @ rest" by simp
  then show ?thesis by blast
qed

lemma RedactURL_bytes: "set (RedactURL s) \<subseteq> set s \<and> length (RedactURL s) \<le> length s"
proof (induction s rule: RedactURL.induct)
  case (1 s)
  show ?case
  proof (cases "match_userinfo s")
    case None
    then show ?thesis using 1(1) [OF None] None by (cases s) (auto simp: RedactURL_Cons)
  next
    case (Some sr)
    then obtain sch rest u where sr: "sr = (sch, rest)" "s = sch @ u @ rest"
      using match_userinfo_parts by (cases sr) blast
    then show ?thesis using Some 1(2) [OF Some, of sch rest] by (auto simp: RedactURL_Some)
  qed
qed

section \<open>Secret values\<close>

text \<open>How parsing depends on the credentials of an authority: they can make it fail, or else only fill
  the field that redaction clears.\<close>

lemma parseAuthority_userinfo:
  assumes "CHR ''@'' \<notin> set h"
  shows "parseAuthority hp (ui @ CHR ''@'' # h) =
     (case parseAuthority hp h of
        None \<Rightarrow> None
      | Some (_, h') \<Rightarrow> map_option (\<lambda>u. (Some u, h')) (parseUserinfo ui))"
  using assms by (simp add: parseAuthority_def last_index_byte_append last_index_byte_None [THEN iffD2] split: option.split)

lemma setPath_User: "map_option (\<lambda>v. v\<lparr>User := None\<rparr>) (setPath u p) = setPath (u\<lparr>User := None\<rparr>) p"
  by (simp add: setPath_def split: option.split)

lemma setFragment_User: "map_option (\<lambda>v. v\<lparr>User := None\<rparr>) (setFragment u p) = setFragment (u\<lparr>User := None\<rparr>) p"
  by (simp add: setFragment_def split: option.split)

lemma parse_core_userinfo:
  assumes "http_scheme sch" "authority_chars ui" "authority_chars h" "CHR ''@'' \<notin> set h" "path_or_query t"
  shows "parse_core hp (sch @ ''://'' @ (ui @ CHR ''@'' # h) @ t) = None
    \<or> map_option (\<lambda>v. v\<lparr>User := None\<rparr>) (parse_core hp (sch @ ''://'' @ (ui @ CHR ''@'' # h) @ t))
      = parse_core hp (sch @ ''://'' @ h @ t)"
proof -
  obtain p q f where s: "split_query t = (p, q, f)" by (cases "split_query t")
  have a: "authority_chars (ui @ CHR ''@'' # h)" using assms(2,3) by (simp add: authority_chars_def)
  have n: "fst x = None" if "parseAuthority hp h = Some x" for x
    using that assms(4) by (auto simp: parseAuthority_def last_index_byte_None [THEN iffD2])
  show ?thesis
    unfolding parse_core_authority [OF assms(1) a assms(5) s] parse_core_authority [OF assms(1,3,5) s]
      parseAuthority_userinfo [OF assms(4)]
    using n by (cases "parseAuthority hp h"; cases "parseUserinfo ui") (auto simp: setPath_User empty_url_def)
qed

text \<open>The text of an URL with what follows its authority: a path or query, and a fragment.\<close>

lemma url_Parse_cut:
  assumes "CHR ''#'' \<notin> set s"
  shows "url_Parse hp (s @ (if frag = None then [] else CHR ''#'' # the frag)) =
    (case parse_core hp s of
       None \<Rightarrow> None
     | Some v \<Rightarrow> if frag = None \<or> frag = Some [] then Some v else setFragment v (the frag))"
  using assms by (auto simp: url_Parse_def cut_byte_def takeWhile_neq_append dropWhile_neq_append
      takeWhile_neq_id dropWhile_neq_Nil split: option.split)

lemma url_Parse_userinfo:
  assumes "http_scheme sch" "authority_chars ui" "authority_chars h" "CHR ''@'' \<notin> set h" "path_or_query t"
    "CHR ''#'' \<notin> set t" "rest = t @ (if frag = None then [] else CHR ''#'' # the frag)"
  shows "url_Parse hp (sch @ ''://'' @ ui @ CHR ''@'' # h @ rest) = None
    \<or> map_option (\<lambda>v. v\<lparr>User := None\<rparr>) (url_Parse hp (sch @ ''://'' @ ui @ CHR ''@'' # h @ rest))
      = map_option (\<lambda>v. v\<lparr>User := None\<rparr>) (url_Parse hp (sch @ ''://'' @ h @ rest))"
proof -
  have c: "CHR ''#'' \<notin> set (sch @ ''://'' @ (ui @ CHR ''@'' # h) @ t)" "CHR ''#'' \<notin> set (sch @ ''://'' @ h @ t)"
    using assms by (auto simp: http_scheme_def authority_chars_def)
  let ?frag = "if frag = None then [] else CHR ''#'' # the frag"
  have e: "sch @ ''://'' @ ui @ CHR ''@'' # h @ rest = (sch @ ''://'' @ (ui @ CHR ''@'' # h) @ t) @ ?frag"
    "sch @ ''://'' @ h @ rest = (sch @ ''://'' @ h @ t) @ ?frag"
    by (simp_all add: assms(7))
  show ?thesis
    unfolding e url_Parse_cut [OF c(1)] url_Parse_cut [OF c(2)]
    using parse_core_userinfo [OF assms(1-5), of hp]
    by (cases "parse_core hp (sch @ ''://'' @ (ui @ CHR ''@'' # h) @ t)";
        cases "parse_core hp (sch @ ''://'' @ h @ t)") (auto simp: setFragment_User)
qed

lemma RedactValue_parsed:
  "RedactValue hp (GString s) =
    (case map_option (\<lambda>v. v\<lparr>User := None\<rparr>) (url_Parse hp s) of
       Some u \<Rightarrow> if (Scheme u = ''http'' \<or> Scheme u = ''https'') \<and> Host u \<noteq> '''' then url_String u else redactedMarker
     | None \<Rightarrow> redactedMarker)"
  by (simp add: RedactValue_def split: option.split)

text \<open>Two values that differ only in what their secret fields hide: in strings that are no web address
  or in the credentials of addresses, in values of other types, or in unexported fields.\<close>

definition same_secret :: "(string \<Rightarrow> string option) \<Rightarrow> string \<Rightarrow> string \<Rightarrow> bool" where
  "same_secret hp a b \<longleftrightarrow>
     (case (url_Parse hp a, url_Parse hp b) of
        (Some u, Some v) \<Rightarrow> u\<lparr>User := None\<rparr> = v\<lparr>User := None\<rparr>
      | (None, None) \<Rightarrow> True
      | _ \<Rightarrow> False)"

inductive twin :: "(string \<Rightarrow> string option) \<Rightarrow> go_value \<Rightarrow> go_value \<Rightarrow> bool"
  and twin_field :: "(string \<Rightarrow> string option) \<Rightarrow> field_info \<times> go_value \<Rightarrow> field_info \<times> go_value \<Rightarrow> bool"
  for hp where
  same: "twin hp v v"
| struct: "list_all2 (twin_field hp) fs gs \<Longrightarrow> twin hp (GStruct fs) (GStruct gs)"
| unexported: "\<not> fi_exported t \<Longrightarrow> zero_of v = zero_of w \<Longrightarrow> twin_field hp (t, v) (t, w)"
| secret: "fi_secret t \<Longrightarrow> same_secret hp a b \<Longrightarrow> twin_field hp (t, GString a) (t, GString b)"
| opaque: "fi_secret t \<Longrightarrow> \<not> is_GString v \<Longrightarrow> \<not> is_GString w \<Longrightarrow> zero_of v = zero_of w \<Longrightarrow> twin_field hp (t, v) (t, w)"
| shown: "fi_exported t \<Longrightarrow> \<not> fi_secret t \<Longrightarrow> twin hp v w \<Longrightarrow> twin_field hp (t, v) (t, w)"

lemma RedactValue_same_secret:
  assumes "same_secret hp a b"
  shows "RedactValue hp (GString a) = RedactValue hp (GString b)"
proof -
  have "map_option (\<lambda>v. v\<lparr>User := None\<rparr>) (url_Parse hp a) = map_option (\<lambda>v. v\<lparr>User := None\<rparr>) (url_Parse hp b)"
    using assms by (auto simp: same_secret_def split: option.splits)
  then show ?thesis by (simp only: RedactValue_parsed)
qed

definition redact_field :: "(string \<Rightarrow> string option) \<Rightarrow> field_info \<times> go_value \<Rightarrow> field_info \<times> go_value" where
  "redact_field hp = (\<lambda>(t, v). (t, if \<not> fi_exported t then zero_of v
     else if fi_secret t then (if is_GString v then GString (RedactValue hp v) else zero_of v)
     else RedactStruct hp v))"

lemma RedactStruct_fields: "RedactStruct hp (GStruct fs) = GStruct (map (redact_field hp) fs)"
  by (simp add: redact_field_def)

lemma RedactStruct_twin:
  "twin hp v w \<Longrightarrow> RedactStruct hp v = RedactStruct hp w"
  "twin_field hp x y \<Longrightarrow> redact_field hp x = redact_field hp y"
proof (induction rule: twin_twin_field.inducts)
  case (struct fs gs)
  then have "map (redact_field hp) fs = map (redact_field hp) gs"
    by (induction fs gs rule: list_all2_induct) auto
  then show ?case by (simp only: RedactStruct_fields)
qed (auto simp: redact_field_def RedactValue_same_secret)

text \<open>Without annotations nothing changes.\<close>

fun open_value :: "go_value \<Rightarrow> bool" where
  "open_value (GStruct fs) = list_all (\<lambda>(t, v). fi_exported t \<and> \<not> fi_secret t \<and> open_value v) fs"
| "open_value _ = True"

lemma RedactStruct_open: "open_value v \<Longrightarrow> RedactStruct hp v = v"
proof (induction v)
  case (GStruct fs)
  then have "map (redact_field hp) fs = fs"
    by (intro map_idI) (auto simp: redact_field_def list_all_iff)
  then show ?case by (simp only: RedactStruct_fields)
qed simp_all

section \<open>Properties\<close>

text \<open>C6. Credentials do not survive in a log line: wherever a web address with credentials occurs in a
  text, everything between the scheme and the first at sign is removed, whatever surrounds it, and a
  text without an at sign is left alone. (Of a password that contains an at sign the tail stays, as the
  witness shows.)\<close>

theorem RedactURL_strips:
  assumes "sch = ''http://'' \<or> sch = ''https://''" "u \<noteq> []"
    and "list_all (\<lambda>c. c \<notin> {CHR ''/'', CHR ''@'', CHR 0x09, CHR 0x0A, CHR 0x0C, CHR 0x0D, CHR '' ''}) u"
  shows "RedactURL (pre @ sch @ u @ ''@'' @ post) = RedactURL pre @ sch @ RedactURL post
    \<and> (CHR ''@'' \<in> set pre \<or> RedactURL pre = pre)"
proof -
  have "scheme_text sch" "list_all userinfo_byte u"
    using assms by (simp_all add: scheme_text_def list_all_iff userinfo_byte_def)
  from RedactURL_at [OF this assms(2), of pre post] show ?thesis using RedactURL_no_match by auto
qed

lemma RedactURL_strips_witness:
  "RedactURL (''see '' @ ''https://'' @ ''bob:p'' @ ''@'' @ ''ss@host/x'') = ''see https://ss@host/x''"
proof -
  have "match_userinfo ''ss@host/x'' = None" "match_userinfo ''s@host/x'' = None" "match_userinfo ''@host/x'' = None"
    by code_simp+
  moreover have "RedactURL ''host/x'' = ''host/x''" "RedactURL ''see '' = ''see ''" by (rule RedactURL_no_match; simp)+
  ultimately have "RedactURL ''ss@host/x'' = ''ss@host/x''" "RedactURL ''see '' = ''see ''" by (simp_all add: RedactURL_Cons)
  then show ?thesis
    using RedactURL_strips [of "''https://''" "''bob:p''" "''see ''" "''ss@host/x''"] by simp
qed


definition demo_secrets :: "string \<Rightarrow> int \<Rightarrow> go_value" where
  "demo_secrets addr key =
     GStruct [(\<lparr>fi_name = ''Addr'', fi_exported = True, fi_json = ''Addr'', fi_omitempty = False, fi_secret = True\<rparr>, GString addr),
       (\<lparr>fi_name = ''Sub'', fi_exported = True, fi_json = ''Sub'', fi_omitempty = False, fi_secret = False\<rparr>,
        GStruct [(\<lparr>fi_name = ''Key'', fi_exported = True, fi_json = ''Key'', fi_omitempty = False, fi_secret = True\<rparr>, GInt key)])]"


end
