(* ===== verification/LogSafety.thy ===== *)
theory LogSafety
  imports Effects Sanitize
begin

text \<open>
  What it means that a log cannot be forged: every string of an entry is one line without control
  characters. Shared by the HTTP pipeline and the access log of the tools.
\<close>

text \<open>No entry of a log may break a line or carry a control character.\<close>

definition one_line :: "string \<Rightarrow> bool" where
  "one_line s \<longleftrightarrow> filter (\<lambda>c. hard_control (byte_val c) \<or> c = CHR 0x0A \<or> c = CHR 0x0D) s = []"

fun safe_value :: "log_value \<Rightarrow> bool" where
  "safe_value (LStr s) = one_line s"
| "safe_value _ = True"

definition safe_entry :: "log_entry \<Rightarrow> bool" where
  "safe_entry e \<longleftrightarrow> one_line (le_msg e) \<and> list_all (\<lambda>(k, v). safe_value v) (le_fields e)"

lemma one_line_SanitizeLog [simp]: "one_line (SanitizeLog s)"
  using logl.san_no_control_byte logl.san_single_line by (auto simp: one_line_def filter_empty_conv)

lemma safe_log_with:
  "list_all safe_entry (logs w) \<Longrightarrow> one_line m \<Longrightarrow> list_all (\<lambda>(k, v). safe_value v) flds
   \<Longrightarrow> list_all safe_entry (logs (log_with lg l m flds w))"
  by (simp add: logs_log_with safe_entry_def)

lemma SanitizeLog_Nil [simp]: "SanitizeLog [] = []"
  by (simp add: SanitizeLog_def strings_Map_def runes_def string_of_runes_def List.map_filter_def)

text \<open>Printable ASCII passes unchanged.\<close>

lemma SanitizeLog_Cons:
  assumes "0x20 \<le> byte_val c" "byte_val c < 0x7F"
  shows "SanitizeLog (c # s) = c # SanitizeLog s"
proof -
  have k: "SanitizeLog_rune (byte_val c) = Some (byte_val c)"
    using assms by (simp add: SanitizeLog_rune_def)
  have r: "runes (c # s) = byte_val c # runes s"
    using assms by (simp add: runes_def decode_bytes.simps)
  show ?thesis using assms
    by (simp add: SanitizeLog_def strings_Map_def r k List.map_filter_def string_of_runes_def encode_rune_ascii)
qed

lemma SanitizeLog_printable:
  "list_all (\<lambda>c. 0x20 \<le> byte_val c \<and> byte_val c < 0x7F) p \<Longrightarrow> SanitizeLog (p @ s) = p @ SanitizeLog s"
  by (induction p) (auto simp: SanitizeLog_Cons)

lemma SanitizeLog_append: "ascii_head b \<Longrightarrow> SanitizeLog (a @ b) = SanitizeLog a @ SanitizeLog b"
  by (simp add: SanitizeLog_def SanitizeLog_rune_eq rune_filter_def [symmetric] rune_filter_append)

end
