(* ===== verification/AccessLog.thy ===== *)
theory AccessLog
  imports Tools Redact LogSafety
begin

text \<open>
  \<open>handlers/accesslog.go\<close> and \<open>WrapToolHandler\<close> of \<open>handlers/metrics.go\<close>: the two wrappers every
  registered tool handler runs in. The inputs of the tools are given as the Go values that
  reflection and \<open>encoding/json\<close> see (their struct fields with tags, from \<open>handlers/tools.go\<close>).
\<close>

section \<open>The inputs as Go values\<close>

definition input_field :: "string \<Rightarrow> string \<Rightarrow> go_value \<Rightarrow> field_info \<times> go_value" where
  "input_field n j v =
     (\<lparr>fi_name = n, fi_exported = True, fi_json = j, fi_omitempty = j \<noteq> ''query'', fi_secret = False\<rparr>, v)"

definition max_results_value :: "64 word option \<Rightarrow> go_value" where
  "max_results_value m = GPtr (map_option GUint64 m)"

definition reflect_search :: "search_input \<Rightarrow> go_value" where
  "reflect_search i = GStruct
     [input_field ''Query'' ''query'' (GString (in_Query i)),
      input_field ''Categories'' ''categories'' (GStrings (in_Categories i)),
      input_field ''Language'' ''language'' (GString (in_Language i)),
      input_field ''Page'' ''page'' (GInt (in_Page i)),
      input_field ''TimeRange'' ''time_range'' (GString (in_TimeRange i)),
      input_field ''SafeSearch'' ''safesearch'' (GInt (in_SafeSearch i)),
      input_field ''MaxResults'' ''max_results'' (max_results_value (in_MaxResults i))]"

definition reflect_news :: "search_news_input \<Rightarrow> go_value" where
  "reflect_news i = GStruct
     [input_field ''Query'' ''query'' (GString (nw_Query i)),
      input_field ''Language'' ''language'' (GString (nw_Language i)),
      input_field ''Page'' ''page'' (GInt (nw_Page i)),
      input_field ''SafeSearch'' ''safesearch'' (GInt (nw_SafeSearch i)),
      input_field ''MaxResults'' ''max_results'' (max_results_value (nw_MaxResults i))]"

definition reflect_images :: "search_images_input \<Rightarrow> go_value" where
  "reflect_images i = GStruct
     [input_field ''Query'' ''query'' (GString (im_Query i)),
      input_field ''Page'' ''page'' (GInt (im_Page i)),
      input_field ''SafeSearch'' ''safesearch'' (GInt (im_SafeSearch i)),
      input_field ''Language'' ''language'' (GString (im_Language i)),
      input_field ''MaxResults'' ''max_results'' (max_results_value (im_MaxResults i))]"

definition reflect_videos :: "search_videos_input \<Rightarrow> go_value" where
  "reflect_videos i = GStruct
     [input_field ''Query'' ''query'' (GString (vd_Query i)),
      input_field ''Page'' ''page'' (GInt (vd_Page i)),
      input_field ''SafeSearch'' ''safesearch'' (GInt (vd_SafeSearch i)),
      input_field ''Language'' ''language'' (GString (vd_Language i)),
      input_field ''MaxResults'' ''max_results'' (max_results_value (vd_MaxResults i))]"

definition reflect_music :: "search_music_input \<Rightarrow> go_value" where
  "reflect_music i = GStruct
     [input_field ''Query'' ''query'' (GString (mu_Query i)),
      input_field ''Page'' ''page'' (GInt (mu_Page i)),
      input_field ''SafeSearch'' ''safesearch'' (GInt (mu_SafeSearch i)),
      input_field ''Language'' ''language'' (GString (mu_Language i)),
      input_field ''MaxResults'' ''max_results'' (max_results_value (mu_MaxResults i))]"

fun reflect_call :: "tool_call \<Rightarrow> go_value" where
  "reflect_call (CallSearch i) = reflect_search i"
| "reflect_call (CallNews i) = reflect_news i"
| "reflect_call (CallImages i) = reflect_images i"
| "reflect_call (CallVideos i) = reflect_videos i"
| "reflect_call (CallMusic i) = reflect_music i"

section \<open>The wrappers\<close>

definition accessLogMaxArgs :: nat where
  "accessLogMaxArgs = 512"

definition redactArgs :: "(string \<Rightarrow> string option) \<Rightarrow> go_value \<Rightarrow> string" where
  "redactArgs hp input =
     (case Marshal (RedactStruct hp input) of
        None \<Rightarrow> ''<unserializable>''
      | Some b \<Rightarrow>
          let s = RedactURL (SanitizeLog b) in
          if length s > accessLogMaxArgs then take accessLogMaxArgs s @ ''...'' else s)"

text \<open>A nil logger is \<open>None\<close>. The \<open>error\<close> field is only set on failure, and \<open>outcome\<close> is overwritten.\<close>

definition WrapAccessLog ::
  "(string \<Rightarrow> string option) \<Rightarrow> ('i \<Rightarrow> go_value) \<Rightarrow> logger option \<Rightarrow> string \<Rightarrow> string
     \<Rightarrow> ('i, 'u) tool_handler \<Rightarrow> ('i, 'u) tool_handler" where
  "WrapAccessLog hp reflect lg source toolName handler c input w =
     (let (start, w0) = time_Now w;
          (requestID, w1) = New_id w0;
          c' = With c requestID;
          sourceForLog = (if ClientIPFrom c' \<noteq> '''' then ClientIPFrom c' else source);
          (res, w2) = handler c' input w1;
          (now, w3) = time_Now w2
      in (res,
          case lg of
            None \<Rightarrow> w3
          | Some l \<Rightarrow>
              if IsLevelEnabled l InfoLevel then
                log_with l InfoLevel ''mcp_tool''
                  ([(''tool'', LStr toolName), (''args'', LStr (redactArgs hp (reflect input))),
                    (''source'', LStr sourceForLog), (''request_id'', LStr requestID),
                    (''duration'', LDuration (now - start))] @
                   (case res of
                      Inr _ \<Rightarrow> [(''outcome'', LStr ''ok'')]
                    | Inl e \<Rightarrow> [(''outcome'', LStr ''error''), (''error'', LStr (SanitizeLog (err_msg e)))])) w3
              else w3))"

text \<open>\<open>metrics\<close> tells whether collectors are given; durations are kept in nanoseconds.\<close>

definition WrapToolHandler :: "bool \<Rightarrow> string \<Rightarrow> ('i, 'u) tool_handler \<Rightarrow> ('i, 'u) tool_handler" where
  "WrapToolHandler metrics toolName handler c input w =
     (let (start, w0) = time_Now w;
          (res, w1) = handler c input w0;
          (now, w2) = time_Now w1;
          statusClass = (case res of Inl _ \<Rightarrow> ''4xx'' | Inr _ \<Rightarrow> ''2xx'')
      in (res,
          if metrics then
            w2\<lparr>tool_requests := (tool_requests w2)((toolName, statusClass) := tool_requests w2 (toolName, statusClass) + 1),
               tool_durations := (tool_durations w2)(toolName := tool_durations w2 toolName @ [now - start])\<rparr>
          else w2))"

section \<open>The arguments in the log\<close>

lemma open_value_call [simp]: "open_value (reflect_call call)"
  by (cases call) (simp_all add: reflect_search_def reflect_news_def reflect_images_def reflect_videos_def
      reflect_music_def input_field_def max_results_value_def)

fun with_query :: "string \<Rightarrow> tool_call \<Rightarrow> tool_call" where
  "with_query q (CallSearch i) = CallSearch (i\<lparr>in_Query := q\<rparr>)"
| "with_query q (CallNews i) = CallNews (i\<lparr>nw_Query := q\<rparr>)"
| "with_query q (CallImages i) = CallImages (i\<lparr>im_Query := q\<rparr>)"
| "with_query q (CallVideos i) = CallVideos (i\<lparr>vd_Query := q\<rparr>)"
| "with_query q (CallMusic i) = CallMusic (i\<lparr>mu_Query := q\<rparr>)"

lemma with_query_same: "with_query (call_query call) call = call"
  by (cases call) (simp_all add: call_query_def search_params_of_def news_params_of_def images_params_of_def
      videos_params_of_def music_params_of_def)

text \<open>Every input is written as an object that begins with the query.\<close>

lemma json_plain_query: "json_escape ''query'' = ''query''"
  by (rule json_escape_plain) (simp add: json_plain_def)

definition query_object :: "string \<Rightarrow> string \<Rightarrow> string" where
  "query_object q tail = CHR 0x7B # CHR 0x22 # ''query'' @ [CHR 0x22, CHR '':'', CHR 0x22] @ json_escape q @ CHR 0x22 # tail"

lemma json_text_query:
  "json_text (JObj ((''query'', JStr (json_escape q)) # kvs)) =
     query_object q (case kvs of [] \<Rightarrow> [CHR 0x7D]
       | _ \<Rightarrow> CHR '','' # concat (map token_text (separated (map (\<lambda>(k, v). TStr k # TColon # json_tokens v) kvs))) @ [CHR 0x7D])"
  by (cases kvs) (simp_all add: json_text_def query_object_def)

lemma go_json_max_results: "\<exists>j. go_json (max_results_value m) = Some j"
  by (cases m) (simp_all add: max_results_value_def)

lemma Marshal_query_first:
  assumes "go_json_fields fs = Some kvs"
  shows "\<exists>tail. \<forall>q. Marshal (GStruct (input_field ''Query'' ''query'' (GString q) # fs)) = Some (query_object q tail)"
  using assms json_text_query [of _ kvs] by (auto simp: Marshal_def input_field_def json_plain_query)

lemma go_json_fields_total: "list_all (\<lambda>(t, v). \<exists>j. go_json v = Some j) fs \<Longrightarrow> \<exists>kvs. go_json_fields fs = Some kvs"
  by (induction fs) auto

lemma reflect_query_first:
  "\<exists>fs. list_all (\<lambda>(t, v). \<exists>j. go_json v = Some j) fs
     \<and> (\<forall>q. reflect_call (with_query q call) = GStruct (input_field ''Query'' ''query'' (GString q) # fs))"
  by (cases call) (simp_all add: reflect_search_def reflect_news_def reflect_images_def reflect_videos_def
      reflect_music_def, simp_all add: input_field_def go_json_max_results)

lemma Marshal_call: "\<exists>tail. \<forall>q. Marshal (reflect_call (with_query q call)) = Some (query_object q tail)"
  using reflect_query_first [of call]
  by (elim exE conjE) (frule go_json_fields_total, elim exE, frule Marshal_query_first, simp)

text \<open>Credentials are printable and free of the characters that end a user info.\<close>

definition credentials :: "string \<Rightarrow> bool" where
  "credentials u \<longleftrightarrow> u \<noteq> [] \<and> list_all (\<lambda>c. graphic c \<and> c \<noteq> CHR ''/'' \<and> c \<noteq> CHR ''@'') u"

lemma graphic_not_blank:
  "graphic c \<Longrightarrow> c \<noteq> CHR 0x08 \<and> c \<noteq> CHR 0x09 \<and> c \<noteq> CHR 0x0A \<and> c \<noteq> CHR 0x0C \<and> c \<noteq> CHR 0x0D \<and> c \<noteq> CHR '' ''"
  by (intro conjI notI; simp add: graphic_def)

lemma graphic_range: "graphic c \<Longrightarrow> 0x20 \<le> byte_val c \<and> byte_val c < 0x7F \<and> byte_val c < 0x80 \<and> \<not> byte_val c < 0x20"
  by (simp add: graphic_def)

lemma short_escape_graphic: "graphic c \<Longrightarrow> short_escape c = (if c = CHR 0x22 \<or> c = CHR 0x5C then Some c else None)"
  using graphic_not_blank [of c] by (simp add: short_escape_def)

lemma credentials_escapes:
  "credentials [CHR 0x5C, CHR 0x22]" "credentials [CHR 0x5C, CHR 0x5C]"
  "credentials (CHR 0x5C # ''u003c'')" "credentials (CHR 0x5C # ''u003e'')" "credentials (CHR 0x5C # ''u0026'')"
  by (simp_all add: credentials_def graphic_def)

lemma escape_ascii_html:
  "escape_ascii (CHR ''<'') = CHR 0x5C # ''u003c''" "escape_ascii (CHR ''>'') = CHR 0x5C # ''u003e''"
  "escape_ascii (CHR ''&'') = CHR 0x5C # ''u0026''"
  by code_simp+

lemma escape_ascii_credentials:
  assumes "graphic c" "c \<noteq> CHR ''/''" "c \<noteq> CHR ''@''"
  shows "credentials (escape_ascii c)"
proof -
  consider "c = CHR 0x22" | "c = CHR 0x5C" | "c = CHR ''<''" | "c = CHR ''>''" | "c = CHR ''&''"
    | (plain) "c \<noteq> CHR 0x22" "c \<noteq> CHR 0x5C" "c \<noteq> CHR ''<''" "c \<noteq> CHR ''>''" "c \<noteq> CHR ''&''" by blast
  then show ?thesis
  proof cases
    case plain
    then have "escape_ascii c = [c]" using short_escape_graphic [OF assms(1)] graphic_range [OF assms(1)]
      by (simp add: escape_ascii_def)
    then show ?thesis using assms by (simp add: credentials_def)
  qed (simp_all only: escape_ascii_html credentials_escapes, simp_all add: escape_ascii_def short_escape_def credentials_escapes)
qed

lemma json_escape_credentials: "credentials u \<Longrightarrow> credentials (json_escape u)"
proof (induction u)
  case (Cons c u)
  then have c: "graphic c" "c \<noteq> CHR ''/''" "c \<noteq> CHR ''@''" by (simp_all add: credentials_def)
  then have e: "json_escape (c # u) = escape_ascii c @ json_escape u"
    by (simp add: json_escape.simps(2) graphic_def)
  note a = escape_ascii_credentials [OF c]
  show ?case
  proof (cases "u = []")
    case True
    then show ?thesis using a e by simp
  next
    case False
    then have "credentials (json_escape u)" using Cons by (simp add: credentials_def)
    then show ?thesis using a by (simp add: e credentials_def)
  qed
qed (simp add: credentials_def)

lemma credentials_userinfo: "credentials u \<Longrightarrow> list_all userinfo_byte u \<and> u \<noteq> []"
  using graphic_not_blank unfolding credentials_def list_all_iff userinfo_byte_def by blast

lemma credentials_printable: "credentials u \<Longrightarrow> list_all (\<lambda>c. 0x20 \<le> byte_val c \<and> byte_val c < 0x7F) u"
  using graphic_range unfolding credentials_def list_all_iff by blast

lemma credentials_ascii: "credentials u \<Longrightarrow> ascii_head (u @ s)"
  using graphic_range [of "hd u"] by (cases u) (simp_all add: credentials_def ascii_head_def)

text \<open>Where the credentials are in the written input.\<close>

definition web_scheme :: "string \<Rightarrow> bool" where
  "web_scheme sch \<longleftrightarrow> sch = ''http://'' \<or> sch = ''https://''"

lemma web_scheme_text: "web_scheme sch \<Longrightarrow> scheme_text sch \<and> ascii_head (sch @ s) \<and> json_escape sch = sch
    \<and> list_all (\<lambda>c. 0x20 \<le> byte_val c \<and> byte_val c < 0x7F) sch"
proof -
  assume w: "web_scheme sch"
  then have "list_all json_plain sch" by (auto simp: web_scheme_def json_plain_def)
  then have "json_escape sch = sch" by (rule json_escape_plain)
  with w show ?thesis by (auto simp: web_scheme_def scheme_text_def ascii_head_def)
qed

lemma ascii_at [simp]: "ascii_head (CHR ''@'' # s)"
  by (simp add: ascii_head_def)

lemma json_escape_at: "json_escape (CHR ''@'' # s) = CHR ''@'' # json_escape s"
  by (simp add: json_escape.simps(2)) (simp add: escape_ascii_def short_escape_def)

lemma json_escape_address:
  assumes "web_scheme sch" "credentials u"
  shows "json_escape (pre @ sch @ u @ CHR ''@'' # post)
    = json_escape pre @ sch @ json_escape u @ CHR ''@'' # json_escape post"
  using web_scheme_text [OF assms(1)] credentials_ascii [OF assms(2)]
  by (simp add: json_escape_append json_escape_at)

lemma SanitizeLog_address:
  assumes "web_scheme sch" "credentials u"
  shows "SanitizeLog (x @ sch @ u @ CHR ''@'' # y) = SanitizeLog x @ sch @ u @ CHR ''@'' # SanitizeLog y"
  using web_scheme_text [OF assms(1)] credentials_printable [OF assms(2)]
    SanitizeLog_printable [OF credentials_printable [OF assms(2)], of "[]"]
  by (simp add: SanitizeLog_append SanitizeLog_printable SanitizeLog_Cons)

lemma redactArgs_query:
  assumes "web_scheme sch" "credentials u" "\<And>q. Marshal (reflect_call (with_query q call)) = Some (query_object q tail)"
  shows "redactArgs hp (reflect_call (with_query (pre @ sch @ u @ CHR ''@'' # post) call)) =
    (let s = RedactURL (SanitizeLog (CHR 0x7B # CHR 0x22 # ''query'' @ [CHR 0x22, CHR '':'', CHR 0x22] @ json_escape pre))
             @ sch @ RedactURL (SanitizeLog (json_escape post @ CHR 0x22 # tail))
     in if length s > accessLogMaxArgs then take accessLogMaxArgs s @ ''...'' else s)"
proof -
  let ?x = "CHR 0x7B # CHR 0x22 # ''query'' @ [CHR 0x22, CHR '':'', CHR 0x22] @ json_escape pre"
  let ?y = "json_escape post @ CHR 0x22 # tail"
  note e = json_escape_credentials [OF assms(2)]
  have q: "query_object (pre @ sch @ u @ CHR ''@'' # post) tail = ?x @ sch @ json_escape u @ CHR ''@'' # ?y"
    by (simp add: query_object_def json_escape_address [OF assms(1,2)])
  have "RedactURL (SanitizeLog (?x @ sch @ json_escape u @ CHR ''@'' # ?y)) =
      RedactURL (SanitizeLog ?x) @ sch @ RedactURL (SanitizeLog ?y)"
    unfolding SanitizeLog_address [OF assms(1) e]
    using web_scheme_text [OF assms(1)] credentials_userinfo [OF e] by (intro RedactURL_at) simp_all
  then show ?thesis
    unfolding redactArgs_def RedactStruct_open [OF open_value_call] assms(3) option.case q by (simp only:)
qed

section \<open>Properties\<close>

text \<open>The arguments in the access log are one line of at most 515 bytes without control
  characters, whatever a call contains.\<close>

theorem redactArgs_bounded:
  "length (redactArgs hp (reflect_call call)) \<le> 515 \<and> one_line (redactArgs hp (reflect_call call))"
proof -
  obtain b where b: "Marshal (reflect_call call) = Some b"
    using Marshal_call [of call] with_query_same [of call] by metis
  let ?s = "RedactURL (SanitizeLog b)"
  have o: "one_line s" if "set s \<subseteq> set (SanitizeLog b)" for s
    using that one_line_SanitizeLog [of b] by (auto simp: one_line_def filter_empty_conv)
  have s: "one_line ?s" by (rule o) (use RedactURL_bytes in blast)
  have t: "one_line (take 512 ?s)" by (rule o) (use RedactURL_bytes set_take_subset in fastforce)
  have d: "one_line ''...''" by code_simp
  have "one_line (take 512 ?s @ ''...'')" using t d by (simp add: one_line_def)
  then show ?thesis
    using s by (simp add: redactArgs_def RedactStruct_open b Let_def accessLogMaxArgs_def)
qed

text \<open>C8. Credentials in a query never reach the access log: for every tool and any text around them,
  two calls that differ only in the credentials of a web address in the query are logged with the same
  arguments, also when the line is cut.\<close>

theorem log_hides_credentials:
  assumes "sch = ''http://'' \<or> sch = ''https://''" "credentials u" "credentials v"
  shows "redactArgs hp (reflect_call (with_query (pre @ sch @ u @ ''@'' @ post) call))
    = redactArgs hp (reflect_call (with_query (pre @ sch @ v @ ''@'' @ post) call))"
proof -
  obtain tail where t: "\<And>q. Marshal (reflect_call (with_query q call)) = Some (query_object q tail)"
    using Marshal_call by blast
  have w: "web_scheme sch" using assms(1) by (simp add: web_scheme_def)
  show ?thesis using redactArgs_query [OF w assms(2) t] redactArgs_query [OF w assms(3) t] by simp
qed

definition demo_call :: tool_call where
  "demo_call = CallNews \<lparr>nw_Query = ''go'', nw_Language = '''', nw_Page = 1, nw_SafeSearch = 0, nw_MaxResults = Some 5\<rparr>"

lemma log_hides_credentials_witness:
  "redactArgs simple_host (reflect_call (with_query (''login '' @ ''https://'' @ ''bob:hunter2'' @ ''@'' @ ''host'') demo_call))
   = redactArgs simple_host (reflect_call (with_query (''login '' @ ''https://'' @ ''x'' @ ''@'' @ ''host'') demo_call))"
  by (rule log_hides_credentials) (simp_all add: credentials_def graphic_def)

end
