(* ===== verification/Registration.thy ===== *)
theory Registration
  imports AccessLog
begin

text \<open>
  \<open>handlers/registration.go\<close>: the tools' metadata, and how each tool is wired to its handler in the
  access-log and metrics wrappers. The MCP server is third-party: what it is told is the list of the
  \<open>mcp.AddTool\<close> calls made on it, in order. A panic is an \<open>Inl\<close> with its value.
\<close>

section \<open>Metadata\<close>

record tool_annotations =
  ta_ReadOnlyHint :: bool
  ta_IdempotentHint :: bool
  ta_OpenWorldHint :: "bool option"
  ta_DestructiveHint :: "bool option"

record mcp_tool =
  mt_Name :: string
  mt_Title :: string
  mt_Description :: string
  mt_Annotations :: tool_annotations

definition toolAnnotations :: tool_annotations where
  "toolAnnotations =
     \<lparr>ta_ReadOnlyHint = True, ta_IdempotentHint = True, ta_OpenWorldHint = Some True, ta_DestructiveHint = None\<rparr>"

definition ToolDefinitions :: "mcp_tool list" where
  "ToolDefinitions =
     [\<lparr>mt_Name = ''search'', mt_Title = ''Search the web'',
       mt_Description =
         ''Search the web using SearXNG. Returns search results, answers, suggestions, and '' @
         ''infoboxes. Use for general web queries when you need current information, definitions, facts, or '' @
         ''links. Provide a concise query; optionally narrow with categories, language, time_range, '' @
         ''safesearch, or max_results. Prefer this tool unless the user clearly wants news, images, videos, '' @
         ''or music.'',
       mt_Annotations = toolAnnotations\<rparr>,
      \<lparr>mt_Name = ''search_news'', mt_Title = ''Search news'',
       mt_Description =
         ''Search news using SearXNG. Convenience wrapper around search with categories=[news], '' @
         ''time_range=day. Use when the user wants recent news or time-sensitive current events. '' @
         ''Pass a targeted query and optional language/max_results.'',
       mt_Annotations = toolAnnotations\<rparr>,
      \<lparr>mt_Name = ''search_images'', mt_Title = ''Search images'',
       mt_Description =
         ''Search images using SearXNG. Convenience wrapper around search with categories=[images]. '' @
         ''Use when the user wants pictures, photos, or visual content. '' @
         ''Pass a descriptive query and optional language/max_results.'',
       mt_Annotations = toolAnnotations\<rparr>,
      \<lparr>mt_Name = ''search_videos'', mt_Title = ''Search videos'',
       mt_Description =
         ''Search videos using SearXNG. Convenience wrapper around search with categories=[videos]. '' @
         ''Use when the user wants video content or clips. '' @
         ''Pass a descriptive query and optional language/max_results.'',
       mt_Annotations = toolAnnotations\<rparr>,
      \<lparr>mt_Name = ''search_music'', mt_Title = ''Search music'',
       mt_Description =
         ''Search music using SearXNG. Convenience wrapper around search with categories=[music]. '' @
         ''Use when the user wants songs, artists, albums, or audio content. '' @
         ''Pass a descriptive query and optional language/max_results.'',
       mt_Annotations = toolAnnotations\<rparr>]"

section \<open>Wiring\<close>

text \<open>A handler as it was given to \<open>mcp.AddTool\<close>, by the type of its input.\<close>

datatype 'u added =
    AddSearch "(search_input, 'u) tool_handler"
  | AddNews "(search_news_input, 'u) tool_handler"
  | AddImages "(search_images_input, 'u) tool_handler"
  | AddVideos "(search_videos_input, 'u) tool_handler"
  | AddMusic "(search_music_input, 'u) tool_handler"

type_synonym 'u mcp_server = "(mcp_tool \<times> 'u added) list"

text \<open>The logger is never nil in the program; a handler would dereference it.\<close>

definition registerTool ::
  "(string \<Rightarrow> string option) \<Rightarrow> 'u mcp_server \<Rightarrow> mcp_tool \<Rightarrow> bool \<Rightarrow> logger \<Rightarrow> 'u search_service \<Rightarrow> string
     \<Rightarrow> string + 'u mcp_server" where
  "registerTool hp s tool metrics lg svc source =
     (let name = mt_Name tool in
      if name = ''search'' then
        Inr (s @ [(tool, AddSearch (WrapAccessLog hp reflect_search (Some lg) source name
                    (WrapToolHandler metrics name (\<lambda>c i. NewSearchHandler hp lg svc c i))))])
      else if name = ''search_news'' then
        Inr (s @ [(tool, AddNews (WrapAccessLog hp reflect_news (Some lg) source name
                    (WrapToolHandler metrics name (\<lambda>c i. NewSearchNewsHandler hp lg svc c i))))])
      else if name = ''search_images'' then
        Inr (s @ [(tool, AddImages (WrapAccessLog hp reflect_images (Some lg) source name
                    (WrapToolHandler metrics name (\<lambda>c i. NewSearchImagesHandler hp lg svc c i))))])
      else if name = ''search_videos'' then
        Inr (s @ [(tool, AddVideos (WrapAccessLog hp reflect_videos (Some lg) source name
                    (WrapToolHandler metrics name (\<lambda>c i. NewSearchVideosHandler hp lg svc c i))))])
      else if name = ''search_music'' then
        Inr (s @ [(tool, AddMusic (WrapAccessLog hp reflect_music (Some lg) source name
                    (WrapToolHandler metrics name (\<lambda>c i. NewSearchMusicHandler hp lg svc c i))))])
      else Inl (''unhandled tool in RegisterTools: '' @ name))"

fun registerAll ::
  "(string \<Rightarrow> string option) \<Rightarrow> 'u mcp_server \<Rightarrow> mcp_tool list \<Rightarrow> bool \<Rightarrow> logger \<Rightarrow> 'u search_service \<Rightarrow> string
     \<Rightarrow> string + 'u mcp_server" where
  "registerAll hp s [] metrics lg svc source = Inr s"
| "registerAll hp s (t # ts) metrics lg svc source =
     (case registerTool hp s t metrics lg svc source of
        Inl v \<Rightarrow> Inl v
      | Inr s' \<Rightarrow> registerAll hp s' ts metrics lg svc source)"

fun logToolSurface :: "logger option \<Rightarrow> mcp_tool list \<Rightarrow> 'u world \<Rightarrow> 'u world" where
  "logToolSurface None tools w = w"
| "logToolSurface (Some lg) [] w = w"
| "logToolSurface (Some lg) (t # ts) w =
     logToolSurface (Some lg) ts
       (log_with lg InfoLevel ''mcp_tool_surface''
          [(''tool'', LStr (mt_Name t)), (''title'', LStr (mt_Title t)), (''always_present'', LBool True)] w)"

definition RegisterToolsWithSource ::
  "(string \<Rightarrow> string option) \<Rightarrow> 'u mcp_server \<Rightarrow> bool \<Rightarrow> logger \<Rightarrow> 'u search_service \<Rightarrow> string \<Rightarrow> 'u world
     \<Rightarrow> (string + 'u mcp_server) \<times> 'u world" where
  "RegisterToolsWithSource hp s metrics lg svc source w =
     (case registerAll hp s ToolDefinitions metrics lg svc source of
        Inl v \<Rightarrow> (Inl v, w)
      | Inr s' \<Rightarrow> (Inr s', logToolSurface (Some lg) ToolDefinitions w))"

definition RegisterTools ::
  "(string \<Rightarrow> string option) \<Rightarrow> 'u mcp_server \<Rightarrow> bool \<Rightarrow> logger \<Rightarrow> 'u search_service \<Rightarrow> 'u world
     \<Rightarrow> (string + 'u mcp_server) \<times> 'u world" where
  "RegisterTools hp s metrics lg svc w = RegisterToolsWithSource hp s metrics lg svc ''http'' w"

section \<open>Calling a registered tool\<close>

text \<open>A tool call goes to the handler registered under the tool's name, decoded to the handler's type
  of input.\<close>

fun run_added :: "'u added \<Rightarrow> ctx \<Rightarrow> tool_call \<Rightarrow> 'u world \<Rightarrow> (search_output result \<times> 'u world) option" where
  "run_added (AddSearch h) c (CallSearch i) w = Some (h c i w)"
| "run_added (AddNews h) c (CallNews i) w = Some (h c i w)"
| "run_added (AddImages h) c (CallImages i) w = Some (h c i w)"
| "run_added (AddVideos h) c (CallVideos i) w = Some (h c i w)"
| "run_added (AddMusic h) c (CallMusic i) w = Some (h c i w)"
| "run_added _ c _ w = None"

definition call_tool :: "'u mcp_server \<Rightarrow> ctx \<Rightarrow> tool_call \<Rightarrow> 'u world \<Rightarrow> (search_output result \<times> 'u world) option" where
  "call_tool s c call w =
     (case List.find (\<lambda>(t, h). mt_Name t = call_name call) s of
        None \<Rightarrow> None
      | Some (t, h) \<Rightarrow> run_added h c call w)"

text \<open>The handler every call runs: the tool's own, counted, timed and logged.\<close>

definition observed_call ::
  "(string \<Rightarrow> string option) \<Rightarrow> bool \<Rightarrow> logger \<Rightarrow> 'u search_service \<Rightarrow> string \<Rightarrow> ctx \<Rightarrow> tool_call \<Rightarrow> 'u world
     \<Rightarrow> search_output result \<times> 'u world" where
  "observed_call hp metrics lg svc source c call w =
     WrapAccessLog hp reflect_call (Some lg) source (call_name call)
       (WrapToolHandler metrics (call_name call) (handle_call hp lg svc)) c call w"

lemmas registration_simps = registerTool_def ToolDefinitions_def Let_def

lemma tool_names: "map mt_Name ToolDefinitions = [''search'', ''search_news'', ''search_images'', ''search_videos'', ''search_music'']"
  by (simp add: ToolDefinitions_def)

definition wired :: "(string \<Rightarrow> string option) \<Rightarrow> bool \<Rightarrow> logger \<Rightarrow> 'u search_service \<Rightarrow> string \<Rightarrow> 'u added list" where
  "wired hp metrics lg svc source =
     [AddSearch (WrapAccessLog hp reflect_search (Some lg) source ''search''
        (WrapToolHandler metrics ''search'' (NewSearchHandler hp lg svc))),
      AddNews (WrapAccessLog hp reflect_news (Some lg) source ''search_news''
        (WrapToolHandler metrics ''search_news'' (NewSearchNewsHandler hp lg svc))),
      AddImages (WrapAccessLog hp reflect_images (Some lg) source ''search_images''
        (WrapToolHandler metrics ''search_images'' (NewSearchImagesHandler hp lg svc))),
      AddVideos (WrapAccessLog hp reflect_videos (Some lg) source ''search_videos''
        (WrapToolHandler metrics ''search_videos'' (NewSearchVideosHandler hp lg svc))),
      AddMusic (WrapAccessLog hp reflect_music (Some lg) source ''search_music''
        (WrapToolHandler metrics ''search_music'' (NewSearchMusicHandler hp lg svc)))]"

lemma registerAll_wired:
  "registerAll hp [] ToolDefinitions metrics lg svc source = Inr (zip ToolDefinitions (wired hp metrics lg svc source))"
  by (simp add: registration_simps wired_def)

lemma wrapped_cong:
  assumes "\<And>c w. h c i w = g c j w" "r i = r' j"
  shows "WrapAccessLog hp r lg src n (WrapToolHandler m n h) c i w = WrapAccessLog hp r' lg src n (WrapToolHandler m n g) c j w"
  unfolding WrapAccessLog_def WrapToolHandler_def assms ..

lemma call_tool_wired:
  "call_tool (zip ToolDefinitions (wired hp metrics lg svc source)) c call w =
     Some (observed_call hp metrics lg svc source c call w)"
  by (cases call) (simp_all add: call_tool_def wired_def ToolDefinitions_def observed_call_def, (rule wrapped_cong; simp)+)

lemma registerTool_Inl:
  "isl (registerTool hp s t metrics lg svc source) \<longleftrightarrow> mt_Name t \<notin> set (map mt_Name ToolDefinitions)"
  unfolding tool_names by (simp add: registerTool_def Let_def)

lemma logToolSurface_logs:
  "logs (logToolSurface (Some lg) ts w) = logs w @
     (if IsLevelEnabled lg InfoLevel
      then map (\<lambda>t. \<lparr>le_output = lg_output lg, le_level = InfoLevel, le_msg = ''mcp_tool_surface'',
        le_fields = [(''tool'', LStr (mt_Name t)), (''title'', LStr (mt_Title t)), (''always_present'', LBool True)]\<rparr>) ts
      else [])"
  by (induction ts arbitrary: w) (simp_all add: logs_log_with)

section \<open>Properties\<close>

text \<open>C26. Registration is complete and consistent: it never panics on the program's own definitions (and
  panics on exactly the names they do not have), adds the five tools in order, logs exactly those, and
  afterwards every call of every tool runs that tool's own handler, once, inside the metrics and
  access-log wrappers labelled with the tool's name.\<close>

theorem RegisterTools_wires:
  "\<exists>s w'. RegisterToolsWithSource hp [] metrics lg svc source w = (Inr s, w')
    \<and> map fst s = ToolDefinitions
    \<and> logs w' = logs w @ (if IsLevelEnabled lg InfoLevel
        then map (\<lambda>t. \<lparr>le_output = lg_output lg, le_level = InfoLevel, le_msg = ''mcp_tool_surface'',
          le_fields = [(''tool'', LStr (mt_Name (fst t))), (''title'', LStr (mt_Title (fst t))), (''always_present'', LBool True)]\<rparr>) s
        else [])
    \<and> (\<forall>c call v. call_tool s c call v = Some (observed_call hp metrics lg svc source c call v))
    \<and> (\<forall>t. isl (registerTool hp s t metrics lg svc source) \<longleftrightarrow> mt_Name t \<notin> set (map mt_Name ToolDefinitions))"
proof -
  let ?s = "zip ToolDefinitions (wired hp metrics lg svc source)"
  have f: "map fst ?s = ToolDefinitions" by (simp add: wired_def ToolDefinitions_def)
  have "RegisterToolsWithSource hp [] metrics lg svc source w = (Inr ?s, logToolSurface (Some lg) ToolDefinitions w)"
    by (simp add: RegisterToolsWithSource_def registerAll_wired)
  moreover have "map (\<lambda>t. \<lparr>le_output = lg_output lg, le_level = InfoLevel, le_msg = ''mcp_tool_surface'',
          le_fields = [(''tool'', LStr (mt_Name (fst t))), (''title'', LStr (mt_Title (fst t))), (''always_present'', LBool True)]\<rparr>) ?s
      = map (\<lambda>t. \<lparr>le_output = lg_output lg, le_level = InfoLevel, le_msg = ''mcp_tool_surface'',
          le_fields = [(''tool'', LStr (mt_Name t)), (''title'', LStr (mt_Title t)), (''always_present'', LBool True)]\<rparr>) (map fst ?s)"
    by simp
  ultimately show ?thesis
    using f by (auto simp: logToolSurface_logs call_tool_wired registerTool_Inl)
qed

text \<open>C25. What an observed call adds to the tool's own behaviour: the handler runs with a fresh request
  id in its context and its result is passed on unchanged; the call is counted exactly once, as 4xx
  when it failed and 2xx otherwise, and its duration recorded once; and one access-log line carries the
  same request id, the outcome and the gateway's client address when there is one.\<close>

theorem observed_call_effects:
  "\<exists>w0 w1 res d e.
     snd (New_id (snd (time_Now w))) = w0
     \<and> handle_call hp lg svc (With c (fst (New_id (snd (time_Now w))))) call (snd (time_Now w0)) = (res, w1)
     \<and> (case observed_call hp True lg svc source c call w of (res', w') \<Rightarrow>
          res' = res
          \<and> tool_requests w' = (tool_requests w1)((call_name call, if isl res then ''4xx'' else ''2xx'') :=
               tool_requests w1 (call_name call, if isl res then ''4xx'' else ''2xx'') + 1)
          \<and> tool_durations w' = (tool_durations w1)(call_name call := tool_durations w1 (call_name call) @ [d])
          \<and> upstream w' = upstream w1
          \<and> logs w' = logs w1 @ (if IsLevelEnabled lg InfoLevel then [e] else [])
          \<and> le_msg e = ''mcp_tool''
          \<and> map_of (le_fields e) ''tool'' = Some (LStr (call_name call))
          \<and> map_of (le_fields e) ''request_id'' = Some (LStr (fst (New_id (snd (time_Now w)))))
          \<and> map_of (le_fields e) ''outcome'' = Some (LStr (if isl res then ''error'' else ''ok''))
          \<and> map_of (le_fields e) ''source'' = Some (LStr (if ClientIPFrom c = '''' then source else ClientIPFrom c)))"
proof -
  obtain i w0 where i: "New_id (snd (time_Now w)) = (i, w0)" by force
  obtain res w1 where h: "handle_call hp lg svc (With c i) call (snd (time_Now w0)) = (res, w1)" by force
  have c: "ClientIPFrom (With c i) = ClientIPFrom c" by (simp add: ClientIPFrom_def With_def)
  let ?flds = "\<lambda>d. [(''tool'', LStr (call_name call)), (''args'', LStr (redactArgs hp (reflect_call call))),
      (''source'', LStr (if ClientIPFrom c \<noteq> '''' then ClientIPFrom c else source)), (''request_id'', LStr i),
      (''duration'', LDuration d)] @
      (case res of Inr _ \<Rightarrow> [(''outcome'', LStr ''ok'')]
       | Inl e \<Rightarrow> [(''outcome'', LStr ''error''), (''error'', LStr (SanitizeLog (err_msg e)))])"
  let ?d = "fst (time_Now (snd (time_Now w1))) - fst (time_Now w)"
  have t: "fst (time_Now (v\<lparr>tool_requests := r, tool_durations := s\<rparr>)) = fst (time_Now v)" for v :: "'a world" and r s
    by (simp add: time_Now_def)
  show ?thesis
    using i h c
    by (intro exI [of _ w0] exI [of _ w1] exI [of _ res] exI [of _ "fst (time_Now w1) - fst (time_Now w0)"]
        exI [of _ "\<lparr>le_output = lg_output lg, le_level = InfoLevel, le_msg = ''mcp_tool'', le_fields = ?flds ?d\<rparr>"])
      (cases res; simp add: observed_call_def WrapAccessLog_def WrapToolHandler_def split_beta Let_def t logs_log_with time_Now_def)
qed

end
