(* ===== verification/Client.thy ===== *)
theory Client
  imports GoUrl Models
begin

text \<open>
  \<open>infrastructure/searxng/client.go\<close>: the SearXNG client. The HTTP client library (resty) is
  third-party: the exchange of one GET request is a parameter, stored in the client like the code
  stores it, which answers with a status and a body or fails. The upstream metrics are part of the
  world. The messages of the errors that \<open>encoding/json\<close> and \<open>net/url\<close> report are the parameters
  \<open>je\<close> and \<open>ue\<close>.
\<close>

section \<open>Metrics\<close>

definition statusClass :: "int \<Rightarrow> string" where
  "statusClass code =
     (if code < 300 then ''2xx''
      else if code < 400 then ''3xx''
      else if code < 500 then ''4xx''
      else ''5xx'')"

text \<open>\<open>record\<close>; \<open>False\<close> is the nil collector.\<close>

definition record_upstream :: "bool \<Rightarrow> string \<Rightarrow> int \<Rightarrow> 'u world \<Rightarrow> 'u world" where
  "record_upstream m cls d w =
     (if \<not> m then w
      else w\<lparr>upstream_requests := (upstream_requests w)(cls := upstream_requests w cls + 1),
             upstream_durations := upstream_durations w @ [d]\<rparr>)"

section \<open>The request\<close>

type_synonym url_values = "string \<Rightarrow> string list"

definition Values_Set :: "string \<Rightarrow> string \<Rightarrow> url_values \<Rightarrow> url_values" where
  "Values_Set k v q = q(k := [v])"

definition Values_Add :: "string \<Rightarrow> url_values \<Rightarrow> string \<Rightarrow> url_values" where
  "Values_Add k q v = q(k := q k @ [v])"

definition buildSearchQuery :: "search_params \<Rightarrow> url_values" where
  "buildSearchQuery p =
     (let q0 = (\<lambda>_. []);
          q1 = (if pm_Query p \<noteq> '''' then Values_Set ''q'' (pm_Query p) q0 else q0);
          q2 = foldl (Values_Add ''categories'') q1 (pm_Categories p);
          q3 = (if pm_Language p \<noteq> '''' then Values_Set ''language'' (pm_Language p) q2 else q2);
          q4 = (if pm_Page p > 0 then Values_Set ''pageno'' (Itoa (pm_Page p)) q3 else q3);
          q5 = (if pm_TimeRange p \<noteq> '''' then Values_Set ''time_range'' (pm_TimeRange p) q4 else q4);
          q6 = (if pm_SafeSearch p > 0 then Values_Set ''safesearch'' (Itoa (pm_SafeSearch p)) q5 else q5)
      in Values_Set ''format'' ''json'' q6)"

record http_get =
  hg_URL :: string
  hg_Headers :: "(string \<times> string) list"
  hg_Query :: url_values

text \<open>What a GET request comes to: an answer (status and body stream), or an error, which may come
  with a response whose status is known.\<close>

datatype exchange = Answered int body | Failed "int option" err

record 'u client =
  cli_baseURL :: string
  cli_client :: "http_get \<Rightarrow> 'u world \<Rightarrow> exchange \<times> 'u world"
  cli_metrics :: bool

definition NewClient :: "string \<Rightarrow> (http_get \<Rightarrow> 'u world \<Rightarrow> exchange \<times> 'u world) \<Rightarrow> 'u client" where
  "NewClient baseURL client = \<lparr>cli_baseURL = baseURL, cli_client = client, cli_metrics = False\<rparr>"

definition SetMetrics :: "'u client \<Rightarrow> 'u client" where
  "SetMetrics c = c\<lparr>cli_metrics := True\<rparr>"

section \<open>Joining paths\<close>

text \<open>\<open>path.Clean\<close> of a path that starts with a slash: empty and \<open>.\<close> elements go, \<open>..\<close> removes the
  element before it (nothing at the root).\<close>

fun split_on :: "char \<Rightarrow> string \<Rightarrow> string list" where
  "split_on c [] = [[]]"
| "split_on c (x # xs) =
     (if x = c then [] # split_on c xs
      else (case split_on c xs of [] \<Rightarrow> [[x]] | y # ys \<Rightarrow> (x # y) # ys))"

fun clean_elems :: "string list \<Rightarrow> string list \<Rightarrow> string list" where
  "clean_elems st [] = rev st"
| "clean_elems st (e # es) =
     (if e = '''' \<or> e = ''.'' then clean_elems st es
      else if e = ''..'' then clean_elems (tl st) es
      else clean_elems (e # st) es)"

definition join_slash :: "string list \<Rightarrow> string" where
  "join_slash es = (if es = [] then ''/'' else concat (map (\<lambda>e. CHR ''/'' # e) es))"

definition path_Clean :: "string \<Rightarrow> string" where
  "path_Clean p = join_slash (clean_elems [] (split_on (CHR ''/'') p))"

definition ends_slash :: "string \<Rightarrow> bool" where
  "ends_slash s \<longleftrightarrow> s \<noteq> [] \<and> last s = CHR ''/''"

definition url_joinPath :: "url \<Rightarrow> string \<Rightarrow> url option" where
  "url_joinPath u elem =
     (let ep = EscapedPath u;
          p = (if \<not> has_prefix ep ''/'' then tl (path_Clean (CHR ''/'' # ep @ ''/'' @ elem))
               else path_Clean (ep @ ''/'' @ elem));
          p' = (if ends_slash elem \<and> \<not> ends_slash p then p @ ''/'' else p)
      in setPath u p')"

definition JoinPath :: "(string \<Rightarrow> string option) \<Rightarrow> string \<Rightarrow> string \<Rightarrow> string option" where
  "JoinPath hp base elem =
     (case url_Parse hp base of
        None \<Rightarrow> None
      | Some u \<Rightarrow> map_option url_String (url_joinPath u elem))"

section \<open>Error details\<close>

definition StatusText_table :: "(int \<times> string) list" where
  "StatusText_table =
     [(100, ''Continue''), (101, ''Switching Protocols''), (102, ''Processing''), (103, ''Early Hints''),
      (200, ''OK''), (201, ''Created''), (202, ''Accepted''), (203, ''Non-Authoritative Information''),
      (204, ''No Content''), (205, ''Reset Content''), (206, ''Partial Content''), (207, ''Multi-Status''),
      (208, ''Already Reported''), (226, ''IM Used''), (300, ''Multiple Choices''),
      (301, ''Moved Permanently''), (302, ''Found''), (303, ''See Other''), (304, ''Not Modified''),
      (305, ''Use Proxy''), (307, ''Temporary Redirect''), (308, ''Permanent Redirect''),
      (400, ''Bad Request''), (401, ''Unauthorized''), (402, ''Payment Required''), (403, ''Forbidden''),
      (404, ''Not Found''), (405, ''Method Not Allowed''), (406, ''Not Acceptable''),
      (407, ''Proxy Authentication Required''), (408, ''Request Timeout''), (409, ''Conflict''),
      (410, ''Gone''), (411, ''Length Required''), (412, ''Precondition Failed''),
      (413, ''Request Entity Too Large''), (414, ''Request URI Too Long''), (415, ''Unsupported Media Type''),
      (416, ''Requested Range Not Satisfiable''), (417, ''Expectation Failed''), (418, ''I''@[CHR 0x27]@''m a teapot''),
      (421, ''Misdirected Request''), (422, ''Unprocessable Entity''), (423, ''Locked''),
      (424, ''Failed Dependency''), (425, ''Too Early''), (426, ''Upgrade Required''),
      (428, ''Precondition Required''), (429, ''Too Many Requests''), (431, ''Request Header Fields Too Large''),
      (451, ''Unavailable For Legal Reasons''), (500, ''Internal Server Error''), (501, ''Not Implemented''),
      (502, ''Bad Gateway''), (503, ''Service Unavailable''), (504, ''Gateway Timeout''),
      (505, ''HTTP Version Not Supported''), (506, ''Variant Also Negotiates''), (507, ''Insufficient Storage''),
      (508, ''Loop Detected''), (510, ''Not Extended''), (511, ''Network Authentication Required'')]"

definition StatusText :: "int \<Rightarrow> string" where
  "StatusText code = (case map_of StatusText_table code of None \<Rightarrow> '''' | Some t \<Rightarrow> t)"

definition maxErrorDetailSize :: nat where
  "maxErrorDetailSize = 512"

definition maxResponseBodySize :: nat where
  "maxResponseBodySize = 10 * 2 ^ 20"

text \<open>Decoding into a struct of one text field; \<open>None\<close> when that fails or the field is empty.\<close>

definition text_field :: "string \<Rightarrow> string \<Rightarrow> string option" where
  "text_field name body =
     (case Unmarshal (dec_struct [(name, dec_string)]) '''' body of
        None \<Rightarrow> None
      | Some d \<Rightarrow> if d \<noteq> '''' then Some d else None)"

definition first_line :: "string \<Rightarrow> string" where
  "first_line s = takeWhile (\<lambda>c. c \<noteq> CHR 0x0A \<and> c \<noteq> CHR 0x0D) s"

definition extractErrorDetail :: "string \<Rightarrow> int \<Rightarrow> string" where
  "extractErrorDetail body statusCode =
     (if body = '''' then StatusText statusCode
      else case text_field ''detail'' body of
             Some d \<Rightarrow> d
           | None \<Rightarrow>
               (case text_field ''message'' body of
                  Some m \<Rightarrow> m
                | None \<Rightarrow> first_line (take maxErrorDetailSize body)))"

section \<open>The operations\<close>

definition request_headers :: "ctx \<Rightarrow> (string \<times> string) list" where
  "request_headers c =
     (''Accept'', ''application/json'') # (if From c \<noteq> '''' then [(''X-Request-ID'', From c)] else [])"

definition exchange_status :: "exchange \<Rightarrow> string" where
  "exchange_status x =
     (case x of
        Answered code b \<Rightarrow> statusClass code
      | Failed (Some code) e \<Rightarrow> statusClass code
      | Failed None e \<Rightarrow> ''error'')"

definition api_error :: "int \<Rightarrow> string \<Rightarrow> err" where
  "api_error code body =
     ErrWrap (''API status='' @ Itoa code @ '': '' @ extractErrorDetail body code @ '': '') ErrAPIClient"

definition doRequest ::
  "(string \<Rightarrow> string option) \<Rightarrow> (string \<Rightarrow> err) \<Rightarrow> 'u client \<Rightarrow> ctx \<Rightarrow> string \<Rightarrow> url_values
     \<Rightarrow> 'u world \<Rightarrow> string result \<times> 'u world" where
  "doRequest hp ue c cx path query w =
     (case JoinPath hp (cli_baseURL c) path of
        None \<Rightarrow> (Inl (ErrWrap ''build URL: '' (ue (cli_baseURL c))), w)
      | Some fullURL \<Rightarrow>
          (let (start, w1) = time_Now w;
               (x, w2) = cli_client c \<lparr>hg_URL = fullURL, hg_Headers = request_headers cx, hg_Query = query\<rparr> w1;
               w3 = (if cli_metrics c
                     then (let (now, w') = time_Now w2 in record_upstream True (exchange_status x) (now - start) w')
                     else w2)
           in case x of
                Failed code e \<Rightarrow> (Inl (ErrWrap ''execute request: '' e), w3)
              | Answered code b \<Rightarrow>
                  (case ReadAll (LimitReader maxResponseBodySize b) of
                     Inl e \<Rightarrow> (Inl (ErrWrap ''read response body: '' e), w3)
                   | Inr body \<Rightarrow>
                       if code < 200 \<or> code \<ge> 300 then (Inl (api_error code body), w3)
                       else (Inr body, w3))))"

definition client_Search ::
  "(string \<Rightarrow> string option) \<Rightarrow> (string \<Rightarrow> err) \<Rightarrow> (string \<Rightarrow> err) \<Rightarrow> 'u client \<Rightarrow> 'u repository" where
  "client_Search hp ue je c cx params w =
     (case doRequest hp ue c cx ''/search'' (buildSearchQuery params) w of
        (Inl e, w') \<Rightarrow> (Inl e, w')
      | (Inr body, w') \<Rightarrow>
          (case Unmarshal_response body of
             None \<Rightarrow> (Inl (ErrWrap ''unmarshal search response: '' (je body)), w')
           | Some raw \<Rightarrow> (Inr (response_toDomain raw), w')))"

section \<open>Facts\<close>

lemma Values_Add_foldl: "foldl (Values_Add k) q vs = q(k := q k @ vs)"
  by (induction vs arbitrary: q) (auto simp: Values_Add_def)

lemma buildSearchQuery_at:
  "buildSearchQuery p k =
     (if k = ''format'' then [''json'']
      else if k = ''safesearch'' then (if pm_SafeSearch p > 0 then [Itoa (pm_SafeSearch p)] else [])
      else if k = ''time_range'' then (if pm_TimeRange p \<noteq> '''' then [pm_TimeRange p] else [])
      else if k = ''pageno'' then (if pm_Page p > 0 then [Itoa (pm_Page p)] else [])
      else if k = ''language'' then (if pm_Language p \<noteq> '''' then [pm_Language p] else [])
      else if k = ''categories'' then pm_Categories p
      else if k = ''q'' then (if pm_Query p \<noteq> '''' then [pm_Query p] else [])
      else [])"
  by (simp add: buildSearchQuery_def Let_def Values_Add_foldl Values_Set_def)

lemma Itoa_inject: "0 < m \<Longrightarrow> 0 < n \<Longrightarrow> Itoa m = Itoa n \<Longrightarrow> m = n"
proof -
  assume mn: "0 < m" "0 < n" "Itoa m = Itoa n"
  then have "digits_val (nat_digits (nat m)) = digits_val (nat_digits (nat n))" by (simp add: Itoa_def)
  with mn show "m = n" by simp
qed

lemma opt_singleton_eq: "(if a \<noteq> '''' then [a] else []) = (if b \<noteq> '''' then [b] else []) \<longleftrightarrow> a = (b :: string)"
  by auto

lemma opt_number_eq:
  "(if a > 0 then [Itoa a] else []) = (if b > 0 then [Itoa b] else []) \<longleftrightarrow> max 0 a = max 0 b"
  using Itoa_inject [of a b] by (auto simp: max_def)

text \<open>The endpoint for a base URL without a path.\<close>

lemma JoinPath_search:
  assumes "http_scheme sch" "authority_chars h" "CHR ''@'' \<notin> set h" "h \<noteq> ''''" "noctl h"
    and "hp h = Some h" "url_escape h encodeHost = h" "t = '''' \<or> t = ''/''"
  shows "JoinPath hp (sch @ ''://'' @ h @ t) ''/search'' = Some (sch @ ''://'' @ h @ ''/search'')"
proof -
  have slash: "escape_char encodePath (CHR ''/'') = ''/''" by code_simp
  have un: "url_unescape ''search'' encodePath = Some ''search''" "url_escape ''search'' encodePath = ''search''"
    "url_unescape ''/search'' encodePath = Some ''/search''" "url_escape ''/search'' encodePath = ''/search''"
    by code_simp+
  let ?u = "empty_url\<lparr>Scheme := sch, Host := h, Path := t\<rparr>"
  have pa: "parseAuthority hp h = Some (None, h)"
    using assms(3,6) by (simp add: parseAuthority_def last_index_byte_None [THEN iffD2])
  have sq: "split_query t = (t, '''', False)" and pq: "path_or_query t"
    using assms(8) by (auto simp: split_query_def cut_byte_def path_or_query_def)
  have ctl: "\<not> list_ex ctl_byte h" "\<not> list_ex ctl_byte t"
    using assms(5,8) by (auto simp: noctl_iff ctl_byte_def)
  have core: "parse_core hp (sch @ ''://'' @ h @ t) = Some ?u"
    using assms(8) parse_core_authority [OF assms(1,2) pq sq, of hp]
    by (auto simp: ctl pa setPath_def empty_url_def url_escape_def slash)
  have "CHR ''#'' \<notin> set (sch @ ''://'' @ h @ t)"
    using assms(1,2,8) by (auto simp: http_scheme_def authority_chars_def)
  then have parse: "url_Parse hp (sch @ ''://'' @ h @ t) = Some ?u"
    by (simp add: url_Parse_def cut_byte_none core del: append.simps)
  have ep: "EscapedPath ?u = t"
    using assms(8) by (auto simp: EscapedPath_def empty_url_def url_escape_def slash)
  have clean: "path_Clean ''//search'' = ''/search''" "path_Clean ''///search'' = ''/search''"
    by code_simp+
  have "url_joinPath ?u ''/search'' = setPath ?u (if t = '''' then ''search'' else ''/search'')"
    unfolding url_joinPath_def ep using assms(8)
    by (auto simp: clean has_prefix_def ends_slash_def Let_def)
  also have "\<dots> = Some (?u\<lparr>Path := if t = '''' then ''search'' else ''/search''\<rparr>)"
    by (simp add: setPath_def un empty_url_def)
  finally have "url_joinPath ?u ''/search'' = \<dots>" .
  moreover have "url_String (?u\<lparr>Path := if t = '''' then ''search'' else ''/search''\<rparr>) = sch @ ''://'' @ h @ ''/search''"
    using assms(1,4,7) un
    by (auto simp: url_String_def render_scheme_def render_authority_def render_path_def EscapedPath_def
        empty_url_def http_scheme_def cut_byte_def Let_def)
  ultimately show ?thesis by (simp add: JoinPath_def parse del: append.simps)
qed

section \<open>Properties\<close>

text \<open>C29. The search request carries the parameters faithfully: two searches send the same query
  exactly when they agree in query text, categories (with order), language, time range, and in page
  and safe-search level (where values below one count as unset).\<close>

theorem buildSearchQuery_faithful:
  "buildSearchQuery p = buildSearchQuery p' \<longleftrightarrow>
     pm_Query p = pm_Query p' \<and> pm_Categories p = pm_Categories p' \<and> pm_Language p = pm_Language p'
     \<and> pm_TimeRange p = pm_TimeRange p' \<and> max 0 (pm_Page p) = max 0 (pm_Page p')
     \<and> max 0 (pm_SafeSearch p) = max 0 (pm_SafeSearch p')"
  (is "?l \<longleftrightarrow> ?r")
proof
  assume ?l
  then have k: "buildSearchQuery p k = buildSearchQuery p' k" for k by simp
  show ?r
    using k [of "''q''"] k [of "''categories''"] k [of "''language''"] k [of "''time_range''"] k [of "''pageno''"]
      k [of "''safesearch''"]
    by (simp add: buildSearchQuery_at opt_singleton_eq opt_number_eq)
next
  assume ?r
  then have "buildSearchQuery p k = buildSearchQuery p' k" for k
    using opt_number_eq [of "pm_Page p" "pm_Page p'"] opt_number_eq [of "pm_SafeSearch p" "pm_SafeSearch p'"]
    by (simp only: buildSearchQuery_at) simp
  then show ?l by blast
qed

text \<open>C13. A search succeeds only on a success status: whenever the client returns a response, the
  upstream was asked once, at the search endpoint with the query of the parameters and the request
  id of the context, it answered with a status from 200 to 299, and the response is what the body,
  cut at 10 MB, decodes to.\<close>

theorem client_Search_success:
  "case client_Search hp ue je c cx params w of
     (Inl e, w') \<Rightarrow> True
   | (Inr r, w') \<Rightarrow>
       (\<exists>u code b w2 body raw.
          JoinPath hp (cli_baseURL c) ''/search'' = Some u
          \<and> cli_client c \<lparr>hg_URL = u, hg_Headers = request_headers cx, hg_Query = buildSearchQuery params\<rparr>
              (snd (time_Now w)) = (Answered code b, w2)
          \<and> 200 \<le> code \<and> code < 300
          \<and> ReadAll (LimitReader maxResponseBodySize b) = Inr body \<and> length body \<le> maxResponseBodySize
          \<and> Unmarshal_response body = Some raw \<and> r = response_toDomain raw)"
proof (cases "client_Search hp ue je c cx params w")
  case (Pair res w')
  have len: "length body \<le> n" if "ReadAll (LimitReader n b) = Inr body" for n b body
    using that by (auto simp: ReadAll_def LimitReader_def split: option.splits if_splits)
  show ?thesis
  proof (cases res)
    case (Inr r)
    then show ?thesis using Pair len
      by (auto simp: client_Search_def doRequest_def Let_def time_Now_def not_less
          split: prod.splits sum.splits option.splits exchange.splits if_splits)
  qed (simp add: Pair)
qed


text \<open>C28. Every upstream request is counted exactly once: with metrics installed, a search adds one to
  the counter of the class of the answer's status (or of \<open>error\<close> when there is none) and one
  duration, on success and on every failure of the exchange, of the body and of the decoding; a base
  URL that does not parse is counted nowhere and nothing is sent.\<close>

theorem client_Search_counts:
  "case JoinPath hp (cli_baseURL c) ''/search'' of
     None \<Rightarrow> snd (client_Search hp ue je c cx params w) = w
   | Some u \<Rightarrow>
       (case cli_client c \<lparr>hg_URL = u, hg_Headers = request_headers cx, hg_Query = buildSearchQuery params\<rparr>
               (snd (time_Now w)) of
          (x, w2) \<Rightarrow>
            snd (client_Search hp ue je c cx params w) =
              (if cli_metrics c
               then w2\<lparr>clock_pos := clock_pos w2 + 1,
                       upstream_requests := (upstream_requests w2)(exchange_status x := upstream_requests w2 (exchange_status x) + 1),
                       upstream_durations := upstream_durations w2 @ [clock w2 (clock_pos w2) - clock w (clock_pos w)]\<rparr>
               else w2))"
proof (cases "JoinPath hp (cli_baseURL c) ''/search''")
  case None
  then show ?thesis by (simp add: client_Search_def doRequest_def)
next
  case (Some u)
  obtain x w2 where x: "cli_client c \<lparr>hg_URL = u, hg_Headers = request_headers cx, hg_Query = buildSearchQuery params\<rparr>
      (snd (time_Now w)) = (x, w2)" by fastforce
  have "snd (doRequest hp ue c cx ''/search'' (buildSearchQuery params) w) =
      (if cli_metrics c
       then record_upstream True (exchange_status x) (clock w2 (clock_pos w2) - clock w (clock_pos w))
              (w2\<lparr>clock_pos := clock_pos w2 + 1\<rparr>)
       else w2)"
    using Some x by (auto simp: doRequest_def Let_def time_Now_def split: exchange.split sum.split)
  moreover have "snd (client_Search hp ue je c cx params w)
      = snd (doRequest hp ue c cx ''/search'' (buildSearchQuery params) w)"
    by (simp add: client_Search_def split: prod.split sum.split option.split)
  ultimately show ?thesis using Some x by (simp add: record_upstream_def)
qed

text \<open>The detail of an upstream error that is not JSON is its first line, cut at 512 bytes: it
  never spans lines and never grows with the body; an empty body is described by its status.\<close>

theorem error_detail_bounded:
  "case json_parse body of
     Some j \<Rightarrow> True
   | None \<Rightarrow> extractErrorDetail body code = (if body = '''' then StatusText code else first_line (take 512 body))
       \<and> (if body = '''' then True else length (extractErrorDetail body code) \<le> 512
            \<and> filter (\<lambda>c. c = CHR 0x0A \<or> c = CHR 0x0D) (extractErrorDetail body code) = [])"
proof (cases "json_parse body")
  case None
  have "length (first_line s) \<le> length s" for s by (simp add: first_line_def length_takeWhile_le)
  from this [of "take 512 body"] have l: "length (first_line (take 512 body)) \<le> 512" by simp
  have n: "filter (\<lambda>c. c = CHR 0x0A \<or> c = CHR 0x0D) (first_line s) = []" for s
    by (auto simp: first_line_def filter_empty_conv dest: set_takeWhileD)
  show ?thesis using None l n
    by (simp add: extractErrorDetail_def text_field_def Unmarshal_def maxErrorDetailSize_def)
qed simp


text \<open>The endpoint: for a base URL of scheme, host (as the host parser accepts and prints it) and an
  optional final slash, the search request goes to \<open>/search\<close> on that very host (an exchange that
  only reports the address it is asked for reports this one).\<close>

theorem search_endpoint:
  assumes "http_scheme sch" "authority_chars h" "CHR ''@'' \<notin> set h" "h \<noteq> ''''" "noctl h"
    and "hp h = Some h" "url_escape h encodeHost = h" "t = '''' \<or> t = ''/''"
  shows "fst (doRequest hp ue (NewClient (sch @ ''://'' @ h @ t) (\<lambda>g w. (Failed None (ErrText (hg_URL g)), w)))
      cx ''/search'' q w)
    = Inl (ErrWrap ''execute request: '' (ErrText (sch @ ''://'' @ h @ ''/search'')))"
  using JoinPath_search [where sch = sch and h = h and hp = hp and t = t, OF assms] by (simp add: doRequest_def NewClient_def Let_def split: prod.split)

lemma search_endpoint_witness:
  "\<forall>w :: unit world. fst (doRequest simple_host ErrText
      (NewClient ''https://searx.example:8080/'' (\<lambda>g w. (Failed None (ErrText (hg_URL g)), w)))
      background ''/search'' (\<lambda>_. []) w)
    = Inl (ErrWrap ''execute request: '' (ErrText ''https://searx.example:8080/search''))"
proof -
  have "url_escape ''searx.example:8080'' encodeHost = ''searx.example:8080''"
    "simple_host ''searx.example:8080'' = Some ''searx.example:8080''" "noctl ''searx.example:8080''"
    by code_simp+
  then show ?thesis
    using search_endpoint [where 'a = unit and sch = "''https''" and h = "''searx.example:8080''"
      and hp = simple_host and t = "''/''"]
    by (simp add: http_scheme_def authority_chars_def)
qed

end
