(* ===== verification/RateLimit.thy ===== *)
theory RateLimit
  imports Complex_Main Effects
begin

text \<open>
  \<open>handlers/ratelimit.go\<close>: the token-bucket rate limiter with one global bucket and one bucket per
  client address, and the goroutine that evicts clients not seen for \<open>clientTTL\<close>.

  The buckets are \<open>golang.org/x/time/rate\<close>, third-party: \<open>new_lim\<close> and \<open>allow_lim\<close> are parameters
  of the model, and the locale \<open>token_limiter\<close> states the documented behaviour the code relies on.
  A \<open>rate.Limit\<close> (events per second) is a rational number, a time is in nanoseconds. \<open>Allow\<close> takes the
  readings of the clock it makes as arguments: \<open>tg\<close> inside the global limiter, \<open>ts\<close> for
  \<open>lastSeen\<close> and \<open>tc\<close> inside the client's limiter.
\<close>

section \<open>The token bucket the code relies on\<close>

definition second :: rat where
  "second = 1000000000"

definition refill :: "rat \<Rightarrow> rat \<Rightarrow> int \<Rightarrow> rat \<Rightarrow> rat" where
  "refill r b d x = min b (x + r * of_int d / second)"

lemma refill_zero [simp]: "x \<le> b \<Longrightarrow> refill r b 0 x = x"
  by (simp add: refill_def)

lemma refill_le_burst: "refill r b d x \<le> b"
  by (simp add: refill_def)

lemma refill_le: "refill r b d x \<le> x + r * of_int d / second"
  by (simp add: refill_def)

lemma refill_mono: "0 \<le> r \<Longrightarrow> 0 \<le> d \<Longrightarrow> x \<le> b \<Longrightarrow> x \<le> refill r b d x"
  by (simp add: refill_def second_def)

lemma refill_add:
  assumes "0 \<le> r" "0 \<le> e"
  shows "refill r b e (refill r b d x) = refill r b (d + e) x"
proof -
  have "0 \<le> r * rat_of_int e / second" using assms by (simp add: second_def)
  moreover have "r * rat_of_int (d + e) / second = r * rat_of_int d / second + r * rat_of_int e / second"
    by (simp add: add_divide_distrib distrib_left)
  ultimately show ?thesis by (auto simp: refill_def min_def)
qed

lemma refill_mono_arg: "x \<le> y \<Longrightarrow> refill r b d x \<le> refill r b d y"
  by (auto simp: refill_def min_def)

lemma refill_nonneg: "0 \<le> r \<Longrightarrow> 0 \<le> b \<Longrightarrow> 0 \<le> d \<Longrightarrow> 0 \<le> x \<Longrightarrow> 0 \<le> refill r b d x"
  by (simp add: refill_def second_def)

text \<open>
  \<open>holds l r b t x\<close>: \<open>l\<close> is a limiter of \<open>r\<close> tokens per second and capacity \<open>b\<close> that was last used
  at \<open>t\<close> or before and has \<open>x\<close> tokens at \<open>t\<close>. A new limiter is full, tokens accrue at the rate up to the
  capacity, and a request is granted exactly when a whole token is there, which it takes.
\<close>

locale token_limiter =
  fixes new_lim :: "rat \<Rightarrow> go_int \<Rightarrow> 'l"
    and allow_lim :: "'l \<Rightarrow> int \<Rightarrow> bool \<times> 'l"
    and holds :: "'l \<Rightarrow> rat \<Rightarrow> rat \<Rightarrow> int \<Rightarrow> rat \<Rightarrow> bool"
  assumes new_full: "0 \<le> r \<Longrightarrow> 0 \<le> sint n \<Longrightarrow> holds (new_lim r n) r (of_int (sint n)) t (of_int (sint n))"
    and later: "holds l r b t x \<Longrightarrow> t \<le> t' \<Longrightarrow> holds l r b t' (refill r b (t' - t) x)"
    and allow_grants: "holds l r b t x \<Longrightarrow> fst (allow_lim l t) \<longleftrightarrow> 1 \<le> x"
    and allow_takes: "holds l r b t x \<Longrightarrow> holds (snd (allow_lim l t)) r b t (if 1 \<le> x then x - 1 else x)"

section \<open>The rate limiter\<close>

record rate_limiter_config =
  GlobalLimit :: rat
  GlobalBurst :: go_int
  PerClientLimit :: rat
  PerClientBurst :: go_int

record 'l client_limiter =
  cl_limiter :: 'l
  cl_lastSeen :: int

text \<open>The mutex has no field: every operation runs under it, so operations are atomic. The channel
  \<open>stopCh\<close> is only ever closed: it is the flag \<open>rl_stopped\<close>.\<close>

record 'l rate_limiter =
  rl_config :: rate_limiter_config
  rl_global :: 'l
  rl_clients :: "string \<rightharpoonup> 'l client_limiter"
  rl_stopped :: bool

definition minute :: int where
  "minute = 60 * 1000000000"

definition clientTTL :: int where
  "clientTTL = 30 * minute"

definition defaultBurstMultiplier :: go_int where
  "defaultBurstMultiplier = 2"

text \<open>\<open>int(limit)\<close> truncates towards zero; the product wraps at 64 bits.\<close>

definition limit_int :: "rat \<Rightarrow> go_int" where
  "limit_int r = word_of_int (if 0 \<le> r then \<lfloor>r\<rfloor> else \<lceil>r\<rceil>)"

definition effective_burst :: "rat \<Rightarrow> go_int \<Rightarrow> go_int" where
  "effective_burst limit burst =
     (if sint burst \<le> 0 then limit_int limit * defaultBurstMultiplier else burst)"

definition NewRateLimiter ::
  "(rat \<Rightarrow> go_int \<Rightarrow> 'l) \<Rightarrow> rate_limiter_config \<Rightarrow> 'l rate_limiter" where
  "NewRateLimiter new_lim cfg =
     \<lparr>rl_config = cfg,
      rl_global = new_lim (GlobalLimit cfg) (effective_burst (GlobalLimit cfg) (GlobalBurst cfg)),
      rl_clients = Map.empty,
      rl_stopped = False\<rparr>"

text \<open>\<open>Stop\<close> closes the channel; closing it twice panics (\<open>None\<close>).\<close>

definition Stop :: "'l rate_limiter \<Rightarrow> 'l rate_limiter option" where
  "Stop rl = (if rl_stopped rl then None else Some (rl\<lparr>rl_stopped := True\<rparr>))"

definition client_entry ::
  "(rat \<Rightarrow> go_int \<Rightarrow> 'l) \<Rightarrow> 'l rate_limiter \<Rightarrow> string \<Rightarrow> int \<Rightarrow> 'l client_limiter" where
  "client_entry new_lim rl ip ts =
     (case rl_clients rl ip of
        None \<Rightarrow>
          \<lparr>cl_limiter = new_lim (PerClientLimit (rl_config rl))
             (effective_burst (PerClientLimit (rl_config rl)) (PerClientBurst (rl_config rl))),
           cl_lastSeen = ts\<rparr>
      | Some cl \<Rightarrow> cl\<lparr>cl_lastSeen := ts\<rparr>)"

definition Allow ::
  "(rat \<Rightarrow> go_int \<Rightarrow> 'l) \<Rightarrow> ('l \<Rightarrow> int \<Rightarrow> bool \<times> 'l) \<Rightarrow> 'l rate_limiter \<Rightarrow> string
     \<Rightarrow> int \<Rightarrow> int \<Rightarrow> int \<Rightarrow> bool \<times> 'l rate_limiter" where
  "Allow new_lim allow_lim rl ip tg ts tc =
     (case allow_lim (rl_global rl) tg of
        (False, g) \<Rightarrow> (False, rl\<lparr>rl_global := g\<rparr>)
      | (True, g) \<Rightarrow>
          let cl = client_entry new_lim rl ip ts;
              (ok, l) = allow_lim (cl_limiter cl) tc
          in (ok, rl\<lparr>rl_global := g, rl_clients := (rl_clients rl)(ip \<mapsto> cl\<lparr>cl_limiter := l\<rparr>)\<rparr>))"

text \<open>The eviction; \<open>now ip\<close> is the reading of the clock when the entry of \<open>ip\<close> is looked at (the
  order of Go's map iteration is unspecified).\<close>

definition evictExpired :: "(string \<Rightarrow> int) \<Rightarrow> 'l rate_limiter \<Rightarrow> 'l rate_limiter" where
  "evictExpired now rl =
     rl\<lparr>rl_clients := (\<lambda>ip. case rl_clients rl ip of
          None \<Rightarrow> None
        | Some cl \<Rightarrow> if now ip - cl_lastSeen cl > clientTTL then None else Some cl)\<rparr>"

section \<open>The limiter as a state machine\<close>

text \<open>
  The limiter in use: requests from any client, the eviction goroutine (alive until it has seen the
  closed channel) and \<open>Stop\<close>. The clock readings never go back (Go's monotonic clock), and a
  request's last two readings are at most \<open>slack\<close> apart, which bounds how long the goroutine is
  preempted under the lock. The ticker decides when an eviction happens; every moment is allowed here,
  which includes the moments it picks. An \<open>Evict\<close> event carries the reading for each key and the time
  at which the eviction is over.
\<close>

datatype rl_event =
    Request string int int int bool
  | Evict "string \<Rightarrow> int" int
  | StopCall
  | LoopExit

record 'l rl_system =
  sys_rl :: "'l rate_limiter"
  sys_now :: int
  sys_loop :: bool

inductive rl_step ::
  "(rat \<Rightarrow> go_int \<Rightarrow> 'l) \<Rightarrow> ('l \<Rightarrow> int \<Rightarrow> bool \<times> 'l) \<Rightarrow> int
     \<Rightarrow> 'l rl_system \<Rightarrow> rl_event \<Rightarrow> 'l rl_system \<Rightarrow> bool"
  for new_lim allow_lim slack where
  request: "\<lbrakk>sys_now s \<le> tg; tg \<le> ts; ts \<le> tc; tc \<le> ts + slack;
      Allow new_lim allow_lim (sys_rl s) ip tg ts tc = (ok, rl')\<rbrakk>
    \<Longrightarrow> rl_step new_lim allow_lim slack s (Request ip tg ts tc ok) (s\<lparr>sys_rl := rl', sys_now := tc\<rparr>)"
| evict: "\<lbrakk>sys_loop s; sys_now s \<le> t; \<And>ip. sys_now s \<le> now ip \<and> now ip \<le> t\<rbrakk>
    \<Longrightarrow> rl_step new_lim allow_lim slack s (Evict now t)
          (s\<lparr>sys_rl := evictExpired now (sys_rl s), sys_now := t\<rparr>)"
| stop: "Stop (sys_rl s) = Some rl' \<Longrightarrow> rl_step new_lim allow_lim slack s StopCall (s\<lparr>sys_rl := rl'\<rparr>)"
| loop_exit: "sys_loop s \<Longrightarrow> rl_stopped (sys_rl s)
    \<Longrightarrow> rl_step new_lim allow_lim slack s LoopExit (s\<lparr>sys_loop := False\<rparr>)"

inductive rl_trace ::
  "(rat \<Rightarrow> go_int \<Rightarrow> 'l) \<Rightarrow> ('l \<Rightarrow> int \<Rightarrow> bool \<times> 'l) \<Rightarrow> int
     \<Rightarrow> 'l rl_system \<Rightarrow> rl_event list \<Rightarrow> 'l rl_system \<Rightarrow> bool"
  for new_lim allow_lim slack where
  nil: "rl_trace new_lim allow_lim slack s [] s"
| cons: "rl_step new_lim allow_lim slack s e s' \<Longrightarrow> rl_trace new_lim allow_lim slack s' es s''
    \<Longrightarrow> rl_trace new_lim allow_lim slack s (e # es) s''"

inductive_cases rl_stepE: "rl_step new_lim allow_lim slack s e s'"
inductive_simps rl_trace_simps: "rl_trace new_lim allow_lim slack s [] s'"
  "rl_trace new_lim allow_lim slack s (e # es) s'"

definition initial_system :: "(rat \<Rightarrow> go_int \<Rightarrow> 'l) \<Rightarrow> rate_limiter_config \<Rightarrow> int \<Rightarrow> 'l rl_system" where
  "initial_system new_lim cfg t0 =
     \<lparr>sys_rl = NewRateLimiter new_lim cfg, sys_now = t0, sys_loop = True\<rparr>"

section \<open>Specification: token buckets\<close>

text \<open>
  What the limiter promises: one bucket for everybody and one for each of all possible clients,
  full at the start and never forgotten. Evictions are not part of it: an \<open>Evict\<close> event is a
  passage of time.
\<close>

record buckets =
  bk_now :: int
  bk_global :: rat
  bk_client :: "string \<Rightarrow> rat"

definition global_burst :: "rate_limiter_config \<Rightarrow> rat" where
  "global_burst cfg = of_int (sint (effective_burst (GlobalLimit cfg) (GlobalBurst cfg)))"

definition client_burst :: "rate_limiter_config \<Rightarrow> rat" where
  "client_burst cfg = of_int (sint (effective_burst (PerClientLimit cfg) (PerClientBurst cfg)))"

definition full_buckets :: "rate_limiter_config \<Rightarrow> int \<Rightarrow> buckets" where
  "full_buckets cfg t0 = \<lparr>bk_now = t0, bk_global = global_burst cfg, bk_client = (\<lambda>_. client_burst cfg)\<rparr>"

definition advance :: "rate_limiter_config \<Rightarrow> int \<Rightarrow> buckets \<Rightarrow> buckets" where
  "advance cfg t B =
     \<lparr>bk_now = t,
      bk_global = refill (GlobalLimit cfg) (global_burst cfg) (t - bk_now B) (bk_global B),
      bk_client = (\<lambda>ip. refill (PerClientLimit cfg) (client_burst cfg) (t - bk_now B) (bk_client B ip))\<rparr>"

definition spec_request ::
  "rate_limiter_config \<Rightarrow> string \<Rightarrow> int \<Rightarrow> int \<Rightarrow> buckets \<Rightarrow> bool \<times> buckets" where
  "spec_request cfg ip tg tc B =
     (let B1 = advance cfg tg B in
      if bk_global B1 < 1 then (False, advance cfg tc B1)
      else
        let B2 = advance cfg tc (B1\<lparr>bk_global := bk_global B1 - 1\<rparr>) in
        if bk_client B2 ip < 1 then (False, B2)
        else (True, B2\<lparr>bk_client := (bk_client B2)(ip := bk_client B2 ip - 1)\<rparr>))"

text \<open>The next buckets and the answer the specification gives for an event; the \<open>ok\<close> in the event
  is what the implementation answered.\<close>

definition spec_next :: "rate_limiter_config \<Rightarrow> buckets \<Rightarrow> rl_event \<Rightarrow> buckets" where
  "spec_next cfg B e =
     (case e of
        Request ip tg ts tc ok \<Rightarrow> snd (spec_request cfg ip tg tc B)
      | Evict now t \<Rightarrow> advance cfg t B
      | _ \<Rightarrow> B)"

definition spec_answer :: "rate_limiter_config \<Rightarrow> buckets \<Rightarrow> rl_event \<Rightarrow> bool list" where
  "spec_answer cfg B e =
     (case e of Request ip tg ts tc ok \<Rightarrow> [fst (spec_request cfg ip tg tc B)] | _ \<Rightarrow> [])"

fun spec_answers :: "rate_limiter_config \<Rightarrow> buckets \<Rightarrow> rl_event list \<Rightarrow> bool list" where
  "spec_answers cfg B [] = []"
| "spec_answers cfg B (e # es) = spec_answer cfg B e @ spec_answers cfg (spec_next cfg B e) es"

definition event_answer :: "rl_event \<Rightarrow> bool list" where
  "event_answer e = (case e of Request ip tg ts tc ok \<Rightarrow> [ok] | _ \<Rightarrow> [])"

definition answers :: "rl_event list \<Rightarrow> bool list" where
  "answers es = concat (map event_answer es)"

definition granted :: "rl_event \<Rightarrow> bool" where
  "granted e = (case e of Request ip tg ts tc ok \<Rightarrow> ok | _ \<Rightarrow> False)"

definition granted_to :: "string \<Rightarrow> rl_event \<Rightarrow> bool" where
  "granted_to ip e = (case e of Request ip' tg ts tc ok \<Rightarrow> ok \<and> ip' = ip | _ \<Rightarrow> False)"

text \<open>
  A configuration whose clients' buckets fill up again within the time after which an idle client is
  forgotten.
\<close>

definition sane_config :: "rate_limiter_config \<Rightarrow> int \<Rightarrow> bool" where
  "sane_config cfg slack \<longleftrightarrow>
     0 \<le> GlobalLimit cfg \<and> 0 \<le> PerClientLimit cfg
     \<and> 0 \<le> sint (effective_burst (GlobalLimit cfg) (GlobalBurst cfg))
     \<and> 0 \<le> sint (effective_burst (PerClientLimit cfg) (PerClientBurst cfg))
     \<and> client_burst cfg \<le> PerClientLimit cfg * of_int (clientTTL - slack) / second"

section \<open>The implementation meets the specification\<close>

definition client_rel ::
  "('l \<Rightarrow> rat \<Rightarrow> rat \<Rightarrow> int \<Rightarrow> rat \<Rightarrow> bool) \<Rightarrow> rate_limiter_config \<Rightarrow> int \<Rightarrow> int
     \<Rightarrow> 'l client_limiter option \<Rightarrow> rat \<Rightarrow> bool" where
  "client_rel holds cfg slack now co x \<longleftrightarrow>
     0 \<le> x \<and> x \<le> client_burst cfg
     \<and> (case co of
          None \<Rightarrow> x = client_burst cfg
        | Some cl \<Rightarrow> holds (cl_limiter cl) (PerClientLimit cfg) (client_burst cfg) now x
            \<and> refill (PerClientLimit cfg) (client_burst cfg) (now - cl_lastSeen cl - slack) 0 \<le> x)"

definition limiter_rel ::
  "('l \<Rightarrow> rat \<Rightarrow> rat \<Rightarrow> int \<Rightarrow> rat \<Rightarrow> bool) \<Rightarrow> rate_limiter_config \<Rightarrow> int
     \<Rightarrow> int \<Rightarrow> 'l rate_limiter \<Rightarrow> buckets \<Rightarrow> bool" where
  "limiter_rel holds cfg slack now rl B \<longleftrightarrow>
     bk_now B = now \<and> rl_config rl = cfg
     \<and> 0 \<le> bk_global B \<and> bk_global B \<le> global_burst cfg
     \<and> holds (rl_global rl) (GlobalLimit cfg) (global_burst cfg) now (bk_global B)
     \<and> (\<forall>ip. client_rel holds cfg slack now (rl_clients rl ip) (bk_client B ip))"

lemma refill_full: "b \<le> r * of_int d / second \<Longrightarrow> refill r b d 0 = b"
  by (simp add: refill_def)

lemma refill_nonpos: "0 \<le> r \<Longrightarrow> d \<le> 0 \<Longrightarrow> 0 \<le> x \<Longrightarrow> refill r b d 0 \<le> x"
  using mult_nonneg_nonpos [of r "rat_of_int d"]
  by (auto simp: refill_def min_def second_def)

lemma advance_advance:
  assumes "sane_config cfg slack" "t \<le> u"
  shows "advance cfg u (advance cfg t B) = advance cfg u B"
  using assms by (simp add: advance_def refill_add sane_config_def)

lemma Allow_config: "rl_config (snd (Allow new_lim allow_lim rl ip tg ts tc)) = rl_config rl"
  by (auto simp: Allow_def Let_def split: prod.split bool.split)

lemma rate_add: "(r :: rat) * of_int (u - t) / second + r * of_int (t - s) / second = r * of_int (u - s) / second"
  by (simp add: add_divide_distrib [symmetric] distrib_left [symmetric])

lemma advance_bound:
  "bk_client (advance cfg t B) ip \<le> bk_client B ip + PerClientLimit cfg * of_int (t - bk_now B) / second"
  "bk_global (advance cfg t B) \<le> bk_global B + GlobalLimit cfg * of_int (t - bk_now B) / second"
  by (simp_all add: advance_def refill_le del: of_int_diff)

lemma spec_request_pays:
  "bk_client (snd (spec_request cfg ip' tg tc B)) ip
     \<le> bk_client B ip + PerClientLimit cfg * of_int (tc - bk_now B) / second
        - of_bool (fst (spec_request cfg ip' tg tc B) \<and> ip' = ip)
   \<and> bk_global (snd (spec_request cfg ip' tg tc B))
     \<le> bk_global B + GlobalLimit cfg * of_int (tc - bk_now B) / second
        - of_bool (fst (spec_request cfg ip' tg tc B))"
  (is "?c \<and> ?g")
proof -
  define B1 where "B1 = advance cfg tg B"
  define B0 where "B0 = (if bk_global B1 < 1 then B1 else B1\<lparr>bk_global := bk_global B1 - 1\<rparr>)"
  define B2 where "B2 = advance cfg tc B0"
  have n: "bk_now B0 = tg" "bk_client B0 = bk_client B1" by (auto simp: B0_def B1_def advance_def)
  have c: "bk_client B2 ip \<le> bk_client B ip + PerClientLimit cfg * of_int (tc - bk_now B) / second"
    using advance_bound(1) [of cfg tc B0 ip] advance_bound(1) [of cfg tg B ip]
      rate_add [of "PerClientLimit cfg" tc tg "bk_now B"] n
    by (simp add: B2_def B1_def del: of_int_diff)
  have g: "bk_global B2 \<le> bk_global B + GlobalLimit cfg * of_int (tc - bk_now B) / second
      - of_bool (\<not> bk_global B1 < 1)"
    using advance_bound(2) [of cfg tc B0] advance_bound(2) [of cfg tg B]
      rate_add [of "GlobalLimit cfg" tc tg "bk_now B"] n
    by (auto simp: B2_def B1_def B0_def simp del: of_int_diff)
  show ?thesis
    using c g by (auto simp: spec_request_def Let_def B1_def [symmetric] B0_def B2_def simp del: of_int_diff)
qed

lemma spec_next_pays:
  assumes "event_answer e = spec_answer cfg B e" "sane_config cfg slack"
  shows "bk_client (spec_next cfg B e) ip
     \<le> bk_client B ip + PerClientLimit cfg * of_int (bk_now (spec_next cfg B e) - bk_now B) / second
        - of_bool (granted_to ip e)
   \<and> bk_global (spec_next cfg B e)
     \<le> bk_global B + GlobalLimit cfg * of_int (bk_now (spec_next cfg B e) - bk_now B) / second
        - of_bool (granted e)"
proof (cases e)
  case (Request ip' tg ts tc ok)
  have "bk_now (snd (spec_request cfg ip' tg tc B)) = tc"
    by (simp add: spec_request_def Let_def advance_def)
  then show ?thesis
    using Request assms(1) spec_request_pays [of cfg ip' tg tc B ip]
    by (simp add: spec_next_def spec_answer_def event_answer_def granted_def granted_to_def del: of_int_diff)
next
  case (Evict now t)
  then show ?thesis using advance_bound [of cfg t B]
    by (simp add: spec_next_def granted_def granted_to_def advance_def refill_le del: of_int_diff)
qed (simp_all add: spec_next_def granted_def granted_to_def)

lemma sane_bursts: "sane_config cfg slack \<Longrightarrow> 0 \<le> client_burst cfg \<and> 0 \<le> global_burst cfg"
  by (simp only: sane_config_def client_burst_def global_burst_def of_int_0_le_iff)

context token_limiter
begin

lemma client_rel_later:
  assumes "client_rel holds cfg slack t co x" "sane_config cfg s" "t \<le> u"
  shows "client_rel holds cfg slack u co (refill (PerClientLimit cfg) (client_burst cfg) (u - t) x)"
proof (cases co)
  case None
  then have "refill (PerClientLimit cfg) (client_burst cfg) (u - t) (client_burst cfg) = client_burst cfg"
    using assms(2,3) by (simp add: refill_def second_def sane_config_def)
  with None assms(1) show ?thesis by (simp add: client_rel_def)
next
  case (Some cl)
  let ?r = "PerClientLimit cfg" and ?b = "client_burst cfg"
  have r: "0 \<le> ?r" "0 \<le> ?b" using assms(2) sane_bursts by (auto simp: sane_config_def)
  have "refill ?r ?b (u - t) (refill ?r ?b (t - cl_lastSeen cl - slack) 0)
      = refill ?r ?b (u - cl_lastSeen cl - slack) 0"
    using refill_add [of ?r "u - t"] r(1) assms(3) by (simp add: algebra_simps)
  moreover have "refill ?r ?b (t - cl_lastSeen cl - slack) 0 \<le> x"
    using assms(1) Some by (simp add: client_rel_def)
  ultimately show ?thesis
    using assms Some r later refill_nonneg [of ?r ?b "u - t" x]
    by (auto simp: client_rel_def refill_le_burst dest: refill_mono_arg [of _ x ?r ?b "u - t"])
qed

lemma limiter_rel_later:
  assumes "limiter_rel holds cfg slack t rl B" "sane_config cfg s" "t \<le> u"
  shows "limiter_rel holds cfg slack u rl (advance cfg u B)"
  using assms client_rel_later [OF _ assms(2,3)] later sane_bursts [OF assms(2)]
  by (auto simp: limiter_rel_def advance_def refill_le_burst sane_config_def
      intro!: refill_nonneg)

lemma client_rel_evict:
  assumes "client_rel holds cfg slack t co x" "sane_config cfg slack" "now \<le> t"
  shows "client_rel holds cfg slack t
           (case co of None \<Rightarrow> None | Some cl \<Rightarrow> if now - cl_lastSeen cl > clientTTL then None else Some cl) x"
proof (cases co)
  case (Some cl)
  let ?r = "PerClientLimit cfg" and ?b = "client_burst cfg"
  have "x = ?b" if "now - cl_lastSeen cl > clientTTL"
  proof -
    have "of_int (clientTTL - slack) \<le> rat_of_int (t - cl_lastSeen cl - slack)"
      using that assms(3) by linarith
    then have "?r * of_int (clientTTL - slack) / second \<le> ?r * rat_of_int (t - cl_lastSeen cl - slack) / second"
      using assms(2) by (simp add: sane_config_def second_def divide_right_mono mult_left_mono)
    then have "refill ?r ?b (t - cl_lastSeen cl - slack) 0 = ?b"
      using assms(2) by (intro refill_full) (auto simp: sane_config_def)
    then show ?thesis using assms(1) Some by (simp add: client_rel_def)
  qed
  with assms(1) Some show ?thesis by (auto simp: client_rel_def)
qed (use assms in simp)

lemma limiter_rel_evict:
  assumes "limiter_rel holds cfg slack t rl B" "sane_config cfg slack" "\<And>ip. now ip \<le> t"
  shows "limiter_rel holds cfg slack t (evictExpired now rl) B"
  using assms client_rel_evict by (simp add: limiter_rel_def evictExpired_def)

lemma entry_holds:
  assumes "limiter_rel holds cfg slack tc rl B" "sane_config cfg slack"
  shows "holds (cl_limiter (client_entry new_lim rl ip ts)) (PerClientLimit cfg) (client_burst cfg) tc (bk_client B ip)"
proof -
  have c: "client_rel holds cfg slack tc (rl_clients rl ip) (bk_client B ip)" "rl_config rl = cfg"
    using assms(1) by (auto simp: limiter_rel_def)
  have n: "holds (new_lim (PerClientLimit cfg) (effective_burst (PerClientLimit cfg) (PerClientBurst cfg)))
      (PerClientLimit cfg) (client_burst cfg) tc (client_burst cfg)"
    unfolding client_burst_def by (rule new_full) (use assms(2) in \<open>simp_all add: sane_config_def\<close>)
  show ?thesis using c n by (auto simp: client_entry_def client_rel_def split: option.splits)
qed

lemma client_grant:
  assumes rel: "limiter_rel holds cfg slack tc rl B" and s: "sane_config cfg slack" "tc \<le> ts + slack"
    and a: "allow_lim (cl_limiter (client_entry new_lim rl ip ts)) tc = (ok, l)"
  shows "(ok \<longleftrightarrow> 1 \<le> bk_client B ip)
    \<and> client_rel holds cfg slack tc (Some (client_entry new_lim rl ip ts\<lparr>cl_limiter := l\<rparr>))
        (if 1 \<le> bk_client B ip then bk_client B ip - 1 else bk_client B ip)"
proof -
  note h = entry_holds [OF rel s(1), of ip ts]
  have x: "0 \<le> bk_client B ip" "bk_client B ip \<le> client_burst cfg"
    using rel by (auto simp: limiter_rel_def client_rel_def)
  have ts: "cl_lastSeen (client_entry new_lim rl ip ts) = ts"
    by (auto simp: client_entry_def split: option.split)
  have "refill (PerClientLimit cfg) (client_burst cfg) (tc - ts - slack) 0 \<le> y" if "0 \<le> y" for y
    using s that by (intro refill_nonpos) (auto simp: sane_config_def)
  then show ?thesis
    using allow_grants [OF h] allow_takes [OF h] x ts a by (auto simp: client_rel_def)
qed

lemma Allow_rel:
  assumes rel: "limiter_rel holds cfg slack t rl B" and s: "sane_config cfg slack"
    and t: "t \<le> tg" "tg \<le> ts" "ts \<le> tc" "tc \<le> ts + slack"
    and a: "Allow new_lim allow_lim rl ip tg ts tc = (ok, rl')"
  shows "ok = fst (spec_request cfg ip tg tc B)
    \<and> limiter_rel holds cfg slack tc rl' (snd (spec_request cfg ip tg tc B))"
proof -
  define B1 where "B1 = advance cfg tg B"
  have r1: "limiter_rel holds cfg slack tg rl B1"
    unfolding B1_def by (rule limiter_rel_later [OF rel s t(1)])
  obtain gok g where g: "allow_lim (rl_global rl) tg = (gok, g)" by fastforce
  have h: "holds (rl_global rl) (GlobalLimit cfg) (global_burst cfg) tg (bk_global B1)"
    using r1 by (simp add: limiter_rel_def)
  have gk: "gok \<longleftrightarrow> 1 \<le> bk_global B1" using allow_grants [OF h] g by simp
  have tgc: "tg \<le> tc" using t by simp
  show ?thesis
  proof (cases gok)
    case False
    then have "limiter_rel holds cfg slack tg (rl\<lparr>rl_global := g\<rparr>) B1"
      using r1 allow_takes [OF h] g gk by (simp add: limiter_rel_def)
    from limiter_rel_later [OF this s tgc] show ?thesis
      using a g gk False by (auto simp: Allow_def spec_request_def Let_def B1_def)
  next
    case True
    define rl1 B2 where "rl1 = rl\<lparr>rl_global := g\<rparr>"
      and "B2 = advance cfg tc (B1\<lparr>bk_global := bk_global B1 - 1\<rparr>)"
    have "limiter_rel holds cfg slack tg rl1 (B1\<lparr>bk_global := bk_global B1 - 1\<rparr>)"
      using r1 allow_takes [OF h] g gk True by (simp add: limiter_rel_def rl1_def)
    then have r2: "limiter_rel holds cfg slack tc rl1 B2"
      unfolding B2_def by (rule limiter_rel_later [OF _ s tgc])
    have e: "client_entry new_lim rl1 ip ts = client_entry new_lim rl ip ts"
      by (simp add: client_entry_def rl1_def split: option.split)
    obtain cok l where l: "allow_lim (cl_limiter (client_entry new_lim rl1 ip ts)) tc = (cok, l)"
      by fastforce
    note c = client_grant [OF r2 s t(4) l]
    have rl': "ok = cok" "rl' = rl1\<lparr>rl_clients := (rl_clients rl1)(ip \<mapsto> client_entry new_lim rl1 ip ts\<lparr>cl_limiter := l\<rparr>)\<rparr>"
      unfolding e using a g True l [unfolded e] by (auto simp: Allow_def Let_def rl1_def)
    have sp: "spec_request cfg ip tg tc B = (1 \<le> bk_client B2 ip,
        B2\<lparr>bk_client := (bk_client B2)(ip := if 1 \<le> bk_client B2 ip then bk_client B2 ip - 1 else bk_client B2 ip)\<rparr>)"
      using True gk by (auto simp: spec_request_def Let_def B1_def B2_def)
    show ?thesis using c r2 rl' by (auto simp: sp limiter_rel_def)
  qed
qed

definition system_rel :: "rate_limiter_config \<Rightarrow> int \<Rightarrow> 'l rl_system \<Rightarrow> buckets \<Rightarrow> bool" where
  "system_rel cfg slack s B \<longleftrightarrow> limiter_rel holds cfg slack (sys_now s) (sys_rl s) B"

lemma system_rel_initial:
  assumes "sane_config cfg slack"
  shows "system_rel cfg slack (initial_system new_lim cfg t0) (full_buckets cfg t0)"
proof -
  have "holds (new_lim (GlobalLimit cfg) (effective_burst (GlobalLimit cfg) (GlobalBurst cfg)))
      (GlobalLimit cfg) (global_burst cfg) t0 (global_burst cfg)"
    unfolding global_burst_def by (rule new_full) (use assms in \<open>simp_all add: sane_config_def\<close>)
  then show ?thesis using sane_bursts [OF assms]
    by (simp add: system_rel_def limiter_rel_def initial_system_def NewRateLimiter_def full_buckets_def
        client_rel_def)
qed

text \<open>One step of the machine is one step of the specification, with the same answer.\<close>

lemma step_rel:
  assumes "rl_step new_lim allow_lim slack s e s'" "system_rel cfg slack s B" "sane_config cfg slack"
  shows "system_rel cfg slack s' (spec_next cfg B e) \<and> event_answer e = spec_answer cfg B e
    \<and> sys_now s \<le> sys_now s'"
  using assms(1)
proof (cases rule: rl_step.cases)
  case (request tg ts tc ip ok rl')
  then show ?thesis
    using Allow_rel [OF assms(2) [unfolded system_rel_def] assms(3) request(3-7)]
    by (auto simp: system_rel_def spec_next_def spec_answer_def event_answer_def)
next
  case (evict t now)
  have "limiter_rel holds cfg slack t (sys_rl s) (advance cfg t B)"
    using limiter_rel_later assms(2,3) evict(4) by (simp add: system_rel_def)
  then have "limiter_rel holds cfg slack t (evictExpired now (sys_rl s)) (advance cfg t B)"
    by (rule limiter_rel_evict) (use assms evict in auto)
  then show ?thesis using evict
    by (simp add: system_rel_def spec_next_def spec_answer_def event_answer_def)
next
  case (stop rl')
  then show ?thesis using assms(2)
    by (auto simp: system_rel_def limiter_rel_def Stop_def spec_next_def spec_answer_def event_answer_def
        split: if_splits)
next
  case loop_exit
  then show ?thesis using assms(2)
    by (simp add: system_rel_def spec_next_def spec_answer_def event_answer_def)
qed

lemma trace_answers:
  assumes "rl_trace new_lim allow_lim slack s es s'" "system_rel cfg slack s B" "sane_config cfg slack"
  shows "answers es = spec_answers cfg B es"
  using assms
proof (induction arbitrary: B rule: rl_trace.induct)
  case (nil s)
  then show ?case by (simp add: answers_def)
next
  case (cons s e s' es s'')
  from step_rel [OF cons.hyps(1) cons.prems] have "answers es = spec_answers cfg (spec_next cfg B e) es"
    "event_answer e = spec_answer cfg B e"
    using cons.IH cons.prems(2) by auto
  then show ?case by (simp add: answers_def)
qed

text \<open>Every grant is paid for by a token of the client's bucket and one of the global bucket.\<close>

lemma trace_pays:
  assumes "rl_trace new_lim allow_lim slack s es s'" "system_rel cfg slack s B" "sane_config cfg slack"
  shows "of_nat (length (filter (granted_to ip) es))
      \<le> bk_client B ip + PerClientLimit cfg * of_int (sys_now s' - sys_now s) / second
    \<and> of_nat (length (filter granted es))
      \<le> bk_global B + GlobalLimit cfg * of_int (sys_now s' - sys_now s) / second"
  using assms
proof (induction arbitrary: B rule: rl_trace.induct)
  case (nil s)
  then show ?case by (auto simp: system_rel_def limiter_rel_def client_rel_def)
next
  case (cons s e s' es s'')
  note st = step_rel [OF cons.hyps(1) cons.prems]
  have now: "bk_now B = sys_now s" "bk_now (spec_next cfg B e) = sys_now s'"
    using st cons.prems(1) by (auto simp: system_rel_def limiter_rel_def)
  have ih: "of_nat (length (filter (granted_to ip) es))
      \<le> bk_client (spec_next cfg B e) ip + PerClientLimit cfg * of_int (sys_now s'' - sys_now s') / second"
    "of_nat (length (filter granted es))
      \<le> bk_global (spec_next cfg B e) + GlobalLimit cfg * of_int (sys_now s'' - sys_now s') / second"
    using cons.IH st cons.prems(2) by auto
  have "event_answer e = spec_answer cfg B e" using st by simp
  from spec_next_pays [OF this cons.prems(2), of ip] now ih show ?case
    by (auto simp: add_divide_distrib right_diff_distrib diff_divide_distrib)
qed

end

section \<open>A token bucket\<close>

text \<open>A limiter that meets the laws, as the documentation of \<open>rate.Limiter\<close> describes it: it starts
  full, stores the tokens at the last grant and computes the refill when asked.\<close>

record bucket =
  bt_limit :: rat
  bt_burst :: rat
  bt_tokens :: rat
  bt_last :: "int option"

definition new_bucket :: "rat \<Rightarrow> go_int \<Rightarrow> bucket" where
  "new_bucket r n = \<lparr>bt_limit = r, bt_burst = of_int (sint n), bt_tokens = of_int (sint n), bt_last = None\<rparr>"

definition bucket_avail :: "bucket \<Rightarrow> int \<Rightarrow> rat" where
  "bucket_avail k t =
     (case bt_last k of
        None \<Rightarrow> bt_tokens k
      | Some l \<Rightarrow> refill (bt_limit k) (bt_burst k) (t - l) (bt_tokens k))"

definition allow_bucket :: "bucket \<Rightarrow> int \<Rightarrow> bool \<times> bucket" where
  "allow_bucket k t =
     (if 1 \<le> bucket_avail k t
      then (True, k\<lparr>bt_tokens := bucket_avail k t - 1, bt_last := Some t\<rparr>)
      else (False, k))"

definition bucket_holds :: "bucket \<Rightarrow> rat \<Rightarrow> rat \<Rightarrow> int \<Rightarrow> rat \<Rightarrow> bool" where
  "bucket_holds k r b t x \<longleftrightarrow>
     bt_limit k = r \<and> bt_burst k = b \<and> 0 \<le> r \<and> x = bucket_avail k t
     \<and> (case bt_last k of None \<Rightarrow> bt_tokens k = b | Some l \<Rightarrow> l \<le> t \<and> bt_tokens k \<le> b)"

lemma bucket_later:
  assumes "bucket_holds k r b t x" "t \<le> u"
  shows "bucket_holds k r b u (refill r b (u - t) x)"
proof (cases "bt_last k")
  case None
  then have "refill r b (u - t) b = b" using assms by (simp add: refill_def bucket_holds_def second_def)
  with None assms show ?thesis by (auto simp: bucket_holds_def bucket_avail_def)
next
  case (Some l)
  then show ?thesis using assms refill_add [of r "u - t" b "t - l"]
    by (auto simp: bucket_holds_def bucket_avail_def)
qed

lemma bucket_takes:
  assumes "bucket_holds k r b t x"
  shows "bucket_holds (snd (allow_bucket k t)) r b t (if 1 \<le> x then x - 1 else x)"
proof -
  have "x \<le> b" using assms
    by (auto simp: bucket_holds_def bucket_avail_def refill_le_burst split: option.splits)
  moreover have "allow_bucket k t = (if 1 \<le> x then (True, k\<lparr>bt_tokens := x - 1, bt_last := Some t\<rparr>) else (False, k))"
    using assms by (simp add: bucket_holds_def allow_bucket_def)
  ultimately show ?thesis using assms
    by (cases "1 \<le> x") (simp_all add: bucket_holds_def bucket_avail_def)
qed

lemma bucket_grants: "bucket_holds k r b t x \<Longrightarrow> fst (allow_bucket k t) \<longleftrightarrow> 1 \<le> x"
  by (simp add: bucket_holds_def allow_bucket_def)

interpretation bucket: token_limiter new_bucket allow_bucket bucket_holds
proof unfold_locales
  show "bucket_holds (new_bucket r n) r (of_int (sint n)) t (of_int (sint n))" if "0 \<le> r" for r n t
    using that by (simp add: bucket_holds_def new_bucket_def bucket_avail_def)
qed (simp_all add: bucket_later bucket_takes bucket_grants)

section \<open>An example run\<close>

text \<open>A client of one request per second and burst one: granted, refused a nanosecond later, evicted
  half an hour later, granted again.\<close>

lemma rl_trace_request:
  assumes "sys_now s \<le> tg" "tg \<le> ts" "ts \<le> tc" "tc \<le> ts + slack"
    and "Allow new_lim allow_lim (sys_rl s) ip tg ts tc = (ok, rl')"
    and "rl_trace new_lim allow_lim slack (s\<lparr>sys_rl := rl', sys_now := tc\<rparr>) es s'"
  shows "rl_trace new_lim allow_lim slack s (Request ip tg ts tc ok # es) s'"
  using assms by (blast intro: rl_trace.cons rl_step.request)

lemma rl_trace_evict:
  assumes "sys_loop s" "sys_now s \<le> t"
    and "rl_trace new_lim allow_lim slack (s\<lparr>sys_rl := evictExpired (\<lambda>_. t) (sys_rl s), sys_now := t\<rparr>) es s'"
  shows "rl_trace new_lim allow_lim slack s (Evict (\<lambda>_. t) t # es) s'"
  using assms by (auto intro: rl_trace.cons rl_step.evict)

definition demo_config :: rate_limiter_config where
  "demo_config = \<lparr>GlobalLimit = 100, GlobalBurst = 200, PerClientLimit = 1, PerClientBurst = 1\<rparr>"

definition demo_events :: "rl_event list" where
  "demo_events =
     [Request ''a'' 0 0 0 True, Request ''a'' 1 1 1 False, Evict (\<lambda>_. 1801000000000) 1801000000000,
      Request ''a'' 1801000000000 1801000000000 1801000000000 True]"

lemma demo_sane: "sane_config demo_config 0"
  by (simp add: sane_config_def demo_config_def effective_burst_def client_burst_def clientTTL_def
      minute_def second_def)

text \<open>The limiter after a request whose answer is known.\<close>

definition demo_limiter :: "rat \<Rightarrow> int option \<Rightarrow> (rat \<times> int \<times> int) option \<Rightarrow> bucket rate_limiter" where
  "demo_limiter g gl c =
     \<lparr>rl_config = demo_config,
      rl_global = \<lparr>bt_limit = 100, bt_burst = 200, bt_tokens = g, bt_last = gl\<rparr>,
      rl_clients = (case c of
          None \<Rightarrow> Map.empty
        | Some (x, l, seen) \<Rightarrow>
            [''a'' \<mapsto> \<lparr>cl_limiter = \<lparr>bt_limit = 1, bt_burst = 1, bt_tokens = x, bt_last = Some l\<rparr>,
                        cl_lastSeen = seen\<rparr>]),
      rl_stopped = False\<rparr>"

lemmas demo_defs = demo_limiter_def Allow_def client_entry_def allow_bucket_def bucket_avail_def
  new_bucket_def effective_burst_def refill_def second_def demo_config_def

lemma demo_first:
  "NewRateLimiter new_bucket demo_config = demo_limiter 200 None None"
  "Allow new_bucket allow_bucket (demo_limiter 200 None None) ''a'' 0 0 0
     = (True, demo_limiter 199 (Some 0) (Some (0, 0, 0)))"
  by (simp_all add: NewRateLimiter_def demo_defs)

lemma demo_second:
  "Allow new_bucket allow_bucket (demo_limiter 199 (Some 0) (Some (0, 0, 0))) ''a'' 1 1 1
     = (False, demo_limiter (1980000001 / 10000000) (Some 1) (Some (0, 0, 1)))"
  by (simp add: demo_defs)

lemma demo_third:
  "evictExpired (\<lambda>_. 1801000000000) (demo_limiter g (Some 1) (Some (0, 0, 1))) = demo_limiter g (Some 1) None"
  "Allow new_bucket allow_bucket (demo_limiter (1980000001 / 10000000) (Some 1) None) ''a''
     1801000000000 1801000000000 1801000000000
     = (True, demo_limiter 199 (Some 1801000000000) (Some (0, 1801000000000, 1801000000000)))"
  by (auto simp: demo_defs evictExpired_def clientTTL_def minute_def)

lemma demo_trace:
  "\<exists>s. sys_now s = 1801000000000
     \<and> rl_trace new_bucket allow_bucket 0 (initial_system new_bucket demo_config 0) demo_events s"
  unfolding demo_events_def initial_system_def demo_first(1)
  by (intro exI [of _ "\<lparr>sys_rl = demo_limiter 199 (Some 1801000000000) (Some (0, 1801000000000, 1801000000000)),
        sys_now = 1801000000000, sys_loop = True\<rparr>"] conjI
      rl_trace_request [where rl' = "demo_limiter 199 (Some 0) (Some (0, 0, 0))"]
      rl_trace_request [where rl' = "demo_limiter (1980000001 / 10000000) (Some 1) (Some (0, 0, 1))"]
      rl_trace_request [where rl' = "demo_limiter 199 (Some 1801000000000) (Some (0, 1801000000000, 1801000000000))"]
      rl_trace_evict)
    (simp_all add: demo_first(2) demo_second demo_third rl_trace.nil)

section \<open>The life of the eviction goroutine\<close>

definition is_evict :: "rl_event \<Rightarrow> bool" where
  "is_evict e = (case e of Evict now t \<Rightarrow> True | _ \<Rightarrow> False)"

lemma Allow_stopped: "Allow new_lim allow_lim rl ip tg ts tc = (ok, rl') \<Longrightarrow> rl_stopped rl' = rl_stopped rl"
  by (auto simp: Allow_def Let_def split: prod.splits bool.splits)

lemma step_loop:
  assumes "rl_step new_lim allow_lim slack s e s'"
  shows "rl_stopped (sys_rl s') = (rl_stopped (sys_rl s) \<or> e = StopCall)"
    and "e = StopCall \<Longrightarrow> \<not> rl_stopped (sys_rl s)"
    and "e = LoopExit \<Longrightarrow> rl_stopped (sys_rl s)"
    and "sys_loop s' = (sys_loop s \<and> e \<noteq> LoopExit)"
    and "\<not> sys_loop s \<Longrightarrow> \<not> is_evict e \<and> e \<noteq> LoopExit"
  using assms
  by (cases rule: rl_step.cases;
      auto simp: evictExpired_def Stop_def is_evict_def dest: Allow_stopped split: if_splits)+

lemma trace_loop:
  assumes "rl_trace new_lim allow_lim slack s es s'"
  shows "(rl_stopped (sys_rl s') \<longleftrightarrow> rl_stopped (sys_rl s) \<or> StopCall \<in> set es)
    \<and> length (filter ((=) StopCall) es) \<le> (if rl_stopped (sys_rl s) then 0 else 1)
    \<and> (sys_loop s' \<longleftrightarrow> sys_loop s \<and> LoopExit \<notin> set es)
    \<and> (\<not> sys_loop s \<longrightarrow> filter is_evict es = [] \<and> LoopExit \<notin> set es)
    \<and> filter is_evict (dropWhile (\<lambda>e. e \<noteq> LoopExit) es) = []
    \<and> (LoopExit \<in> set es \<longrightarrow> rl_stopped (sys_rl s'))"
  using assms
proof (induction rule: rl_trace.induct)
  case (nil s)
  then show ?case by simp
next
  case (cons s e s' es s'')
  note st = step_loop [OF cons.hyps(1)]
  have "\<not> is_evict LoopExit" by (simp add: is_evict_def)
  then show ?case using cons.IH st by (cases "e = StopCall"; cases "e = LoopExit") auto
qed

section \<open>Properties\<close>

text \<open>C3. The rate limiter implements plain token buckets: over any interleaving of requests from any
  clients with evictions, \<open>Stop\<close> and the end of the eviction goroutine, each answer is the one of a
  specification that has a bucket for every client and forgets none. So evicting idle clients is
  unobservable, and one client's requests touch no other client's bucket.\<close>

theorem limiter_refines_buckets:
  assumes "token_limiter new_lim allow_lim holds" "sane_config cfg slack"
    and "rl_trace new_lim allow_lim slack (initial_system new_lim cfg t0) es s"
  shows "answers es = spec_answers cfg (full_buckets cfg t0) es"
  using token_limiter.trace_answers [OF assms(1,3)] token_limiter.system_rel_initial [OF assms(1,2)] assms(2)
  by blast

lemma limiter_refines_buckets_witness:
  "spec_answers demo_config (full_buckets demo_config 0) demo_events = [True, False, True]"
proof -
  obtain s where "rl_trace new_bucket allow_bucket 0 (initial_system new_bucket demo_config 0) demo_events s"
    using demo_trace by blast
  from limiter_refines_buckets [OF bucket.token_limiter_axioms demo_sane this] show ?thesis
    by (simp add: answers_def event_answer_def demo_events_def)
qed

text \<open>No client exceeds its budget: from the start to any later moment a client is granted at
  most its burst plus its rate times the elapsed time, even though its limiter may have been evicted
  and re-created, full, any number of times in between.\<close>

theorem client_grants_bounded:
  assumes "token_limiter new_lim allow_lim holds" "sane_config cfg slack"
    and "rl_trace new_lim allow_lim slack (initial_system new_lim cfg t0) es s"
  shows "of_nat (length (filter (granted_to ip) es))
    \<le> client_burst cfg + PerClientLimit cfg * of_int (sys_now s - t0) / second"
  using token_limiter.trace_pays [OF assms(1,3) token_limiter.system_rel_initial [OF assms(1,2)] assms(2), of ip]
  by (simp add: full_buckets_def initial_system_def)

lemma client_grants_bounded_witness:
  "of_nat (length (filter (granted_to ''a'') demo_events))
     \<le> client_burst demo_config + PerClientLimit demo_config * of_int (1801000000000 - 0) / second"
  using demo_trace client_grants_bounded [OF bucket.token_limiter_axioms demo_sane, of 0 demo_events _ "''a''"]
  by fastforce

text \<open>All clients together are granted at most the global burst plus the global rate times the
  elapsed time.\<close>

theorem global_grants_bounded:
  assumes "token_limiter new_lim allow_lim holds" "sane_config cfg slack"
    and "rl_trace new_lim allow_lim slack (initial_system new_lim cfg t0) es s"
  shows "of_nat (length (filter granted es))
    \<le> global_burst cfg + GlobalLimit cfg * of_int (sys_now s - t0) / second"
  using token_limiter.trace_pays [OF assms(1,3) token_limiter.system_rel_initial [OF assms(1,2)] assms(2)]
  by (simp add: full_buckets_def initial_system_def)

lemma global_grants_bounded_witness:
  "of_nat (length (filter granted demo_events))
     \<le> global_burst demo_config + GlobalLimit demo_config * of_int (1801000000000 - 0) / second"
  using demo_trace global_grants_bounded [OF bucket.token_limiter_axioms demo_sane, of 0 demo_events]
  by fastforce



end
