(* ===== verification/ClientIP.thy ===== *)
theory ClientIP
  imports Effects
begin

text \<open>
  HTTP requests as the program sees them, and the two notions of a client's address:
  \<open>extractClientIP\<close> of \<open>handlers/ratelimit.go\<close>, which names the bucket a request is counted in, and
  \<open>proxyClientIP\<close> of \<open>handlers/clientip.go\<close>, which the access log records.
\<close>

section \<open>Requests\<close>

text \<open>A request with the body that can still be read and the context it carries.\<close>

record http_request =
  rq_Method :: string
  rq_Path :: string
  rq_RemoteAddr :: string
  rq_Header :: header
  rq_Body :: body
  rq_Context :: ctx

section \<open>Addresses\<close>

text \<open>The host of a \<open>host:port\<close>, or the text itself when it has no such form.\<close>

definition host_or_self :: "string \<Rightarrow> string" where
  "host_or_self s = (case SplitHostPort s of Some (host, port) \<Rightarrow> host | None \<Rightarrow> s)"

definition first_hop :: "string \<Rightarrow> string" where
  "first_hop fwd =
     (case index_byte (CHR '','') fwd of
        Some idx \<Rightarrow> TrimSpace (take idx fwd)
      | None \<Rightarrow> fwd)"

definition extractClientIP :: "http_request \<Rightarrow> string" where
  "extractClientIP r =
     (let clientIP = header_get (rq_Header r) ''X-Client-Ip'' in
      if clientIP \<noteq> '''' then host_or_self clientIP
      else
        let fwd = header_get (rq_Header r) ''X-Forwarded-For'' in
        if fwd \<noteq> '''' then host_or_self (first_hop fwd)
        else host_or_self (rq_RemoteAddr r))"

definition proxyClientIP :: "http_request \<Rightarrow> string option" where
  "proxyClientIP r =
     (let ip = TrimSpace (header_get (rq_Header r) ''X-Real-IP'') in
      if ip \<noteq> '''' then Some ip
      else
        let fwd = header_get (rq_Header r) ''X-Forwarded-For'' in
        if fwd \<noteq> '''' then Some (first_hop fwd) else None)"

section \<open>Facts\<close>

text \<open>\<open>net.JoinHostPort\<close>, as the form in which addresses with a port are written.\<close>

definition JoinHostPort :: "string \<Rightarrow> string \<Rightarrow> string" where
  "JoinHostPort h p = (if CHR '':'' \<in> set h then ''['' @ h @ '']:'' @ p else h @ '':'' @ p)"

definition address :: "string \<Rightarrow> string \<Rightarrow> bool" where
  "address h p \<longleftrightarrow> list_all (\<lambda>c. graphic c \<and> c \<noteq> CHR ''['' \<and> c \<noteq> CHR '']'' \<and> c \<noteq> CHR '','') (h @ p)
     \<and> CHR '':'' \<notin> set p \<and> h \<noteq> '''' \<and> p \<noteq> ''''"

lemma host_or_self_JoinHostPort:
  assumes "address h p"
  shows "host_or_self (JoinHostPort h p) = h"
proof -
  have p: "plain_host p" and b: "CHR ''['' \<notin> set h" "CHR '']'' \<notin> set h"
    using assms by (auto simp: address_def plain_host_def list_all_iff)
  show ?thesis
  proof (cases "CHR '':'' \<in> set h")
    case True
    then show ?thesis using SplitHostPort_bracket [OF b p] by (simp add: JoinHostPort_def host_or_self_def)
  next
    case False
    then have "plain_host h" using b by (simp add: plain_host_def)
    then show ?thesis using False SplitHostPort_plain [OF _ p] by (simp add: JoinHostPort_def host_or_self_def)
  qed
qed

lemma address_graphic:
  "address h p \<Longrightarrow> list_all (\<lambda>c. graphic c \<and> c \<noteq> CHR '','') (JoinHostPort h p) \<and> JoinHostPort h p \<noteq> ''''"
  by (auto simp: address_def JoinHostPort_def list_all_iff graphic_def)

lemma TrimSpace_all_graphic: "list_all graphic s \<Longrightarrow> TrimSpace s = s"
  by (cases s) (auto intro!: TrimSpace_graphic simp: list_all_iff)

lemma first_hop_chain:
  assumes "list_all (\<lambda>c. graphic c \<and> c \<noteq> CHR '','') s"
  shows "first_hop (s @ CHR '','' # rest) = s" "first_hop s = s"
proof -
  have n: "CHR '','' \<notin> set s" and g: "list_all graphic s" using assms by (auto simp: list_all_iff)
  show "first_hop (s @ CHR '','' # rest) = s"
    using index_byte_append [OF n, of rest] TrimSpace_all_graphic [OF g] by (simp add: first_hop_def)
  show "first_hop s = s" using n by (simp add: first_hop_def index_byte_None [THEN iffD2])
qed

lemma header_names:
  "CanonicalHeaderKey ''X-Client-Ip'' = ''X-Client-Ip''"
  "CanonicalHeaderKey ''X-Forwarded-For'' = ''X-Forwarded-For''"
  "CanonicalHeaderKey ''X-Real-IP'' = ''X-Real-Ip''"
  by code_simp+

section \<open>Properties\<close>

text \<open>C37. The identity a client is rate-limited under is its host, wherever it comes from: the port
  (IPv4, name or bracketed IPv6 form) never matters, so a client cannot get a fresh budget by
  reconnecting; with an \<open>X-Forwarded-For\<close> chain it is the leftmost entry whatever follows, and
  \<open>X-Client-Ip\<close> overrides the chain, which overrides the connection.\<close>

theorem extractClientIP_host:
  assumes "address h p" "rest = '''' \<or> (\<exists>more. rest = CHR '','' # more)"
  shows "extractClientIP (r\<lparr>rq_Header := hs(''X-Client-Ip'' := [JoinHostPort h p])\<rparr>) = h
    \<and> extractClientIP (r\<lparr>rq_Header := hs(''X-Client-Ip'' := [], ''X-Forwarded-For'' := [JoinHostPort h p @ rest])\<rparr>) = h
    \<and> extractClientIP (r\<lparr>rq_Header := hs(''X-Client-Ip'' := [], ''X-Forwarded-For'' := []),
           rq_RemoteAddr := JoinHostPort h p\<rparr>) = h"
proof -
  have f: "first_hop (JoinHostPort h p @ rest) = JoinHostPort h p"
    using first_hop_chain address_graphic [OF assms(1)] assms(2) by auto
  show ?thesis
    using f host_or_self_JoinHostPort [OF assms(1)] address_graphic [OF assms(1)]
    by (simp add: extractClientIP_def header_get_def header_names Let_def)
qed

definition demo_request :: http_request where
  "demo_request = \<lparr>rq_Method = ''POST'', rq_Path = ''/'', rq_RemoteAddr = ''127.0.0.1:80'',
     rq_Header = (\<lambda>_. []), rq_Body = ('''', None), rq_Context = background\<rparr>"

lemma extractClientIP_host_witness:
  "extractClientIP (demo_request\<lparr>rq_Header := (\<lambda>_. [])(''X-Client-Ip'' := [],
     ''X-Forwarded-For'' := [JoinHostPort ''2001:db8::1'' ''443'' @ '', 10.0.0.1''])\<rparr>) = ''2001:db8::1''"
  by (rule extractClientIP_host [THEN conjunct2, THEN conjunct1]) (simp_all add: address_def graphic_def)

text \<open>C38. The identity in the access log is another one: \<open>X-Real-IP\<close> without the blanks around it,
  else the leftmost entry of \<open>X-Forwarded-For\<close>, else none; the rate limiter never looks at
  \<open>X-Real-IP\<close>, so behind a proxy that sets only this header all clients share one bucket while the log
  tells them apart.\<close>

theorem proxyClientIP_identity:
  assumes "list_all (\<lambda>c. graphic c \<and> c \<noteq> CHR '','') ip" "ip \<noteq> ''''"
    and "rest = '''' \<or> (\<exists>more. rest = CHR '','' # more)"
  shows "proxyClientIP (r\<lparr>rq_Header := hs(''X-Real-Ip'' := [ip])\<rparr>) = Some ip
    \<and> proxyClientIP (r\<lparr>rq_Header := hs(''X-Real-Ip'' := [], ''X-Forwarded-For'' := [ip @ rest])\<rparr>) = Some ip
    \<and> proxyClientIP (r\<lparr>rq_Header := hs(''X-Real-Ip'' := [], ''X-Forwarded-For'' := [])\<rparr>) = None
    \<and> extractClientIP (r\<lparr>rq_Header := hs(''X-Real-Ip'' := [ip])\<rparr>) = extractClientIP (r\<lparr>rq_Header := hs\<rparr>)"
proof -
  have t: "TrimSpace ip = ip" "TrimSpace '''' = ''''"
    by (rule TrimSpace_all_graphic; use assms(1) in \<open>simp add: list_all_iff\<close>)+
  have f: "first_hop (ip @ rest) = ip" using first_hop_chain [OF assms(1)] assms(3) by auto
  have c: "proxyClientIP (r\<lparr>rq_Header := hs(''X-Real-Ip'' := [ip])\<rparr>) = Some ip"
    using t assms(2) by (simp add: proxyClientIP_def header_get_def header_names Let_def)
  moreover have "proxyClientIP (r\<lparr>rq_Header := hs(''X-Real-Ip'' := [], ''X-Forwarded-For'' := [ip @ rest])\<rparr>) = Some ip"
    using t f assms(2) by (simp add: proxyClientIP_def header_get_def header_names Let_def)
  moreover have "proxyClientIP (r\<lparr>rq_Header := hs(''X-Real-Ip'' := [], ''X-Forwarded-For'' := [])\<rparr>) = None"
    using t by (simp add: proxyClientIP_def header_get_def header_names Let_def)
  moreover have "extractClientIP (r\<lparr>rq_Header := hs(''X-Real-Ip'' := [ip])\<rparr>) = extractClientIP (r\<lparr>rq_Header := hs\<rparr>)"
    by (simp add: extractClientIP_def header_get_def header_names Let_def)
  ultimately show ?thesis by blast
qed

lemma proxyClientIP_identity_witness:
  "proxyClientIP (demo_request\<lparr>rq_Header := (\<lambda>_. [])(''X-Real-Ip'' := [''10.1.2.3''])\<rparr>) = Some ''10.1.2.3''"
  using proxyClientIP_identity [where ip = "''10.1.2.3''" and rest = "''''" and r = demo_request] by (simp add: graphic_def)

end
