(* ===== verification/Middleware.thy ===== *)
theory Middleware
  imports RateLimit ClientIP Models LogSafety
begin

text \<open>
  \<open>handlers/middleware.go\<close>, \<open>MetricsMiddleware\<close> of \<open>handlers/metrics.go\<close>, \<open>RateLimitMiddleware\<close> of
  \<open>handlers/ratelimit.go\<close> and \<open>ClientIPMiddleware\<close> of \<open>handlers/clientip.go\<close>. An \<open>http.Handler\<close> is a
  function from a request and the server's state to how it ended (it returned or panicked), the calls
  it made on the \<open>ResponseWriter\<close>, in order, and the state. A middleware maps handlers to handlers.
\<close>

section \<open>Handlers\<close>

text \<open>\<open>Write b n\<close> is a write of \<open>b\<close> of which the writer accepted \<open>n\<close> bytes.\<close>

datatype wcall = SetHeader string string | DelHeader string | WriteHeader int | Write string nat

datatype outcome = Done | Panicked string

record ('l, 'u) http_state =
  st_world :: "'u world"
  st_limiter :: "'l rate_limiter"

type_synonym ('l, 'u) http_handler =
  "http_request \<Rightarrow> ('l, 'u) http_state \<Rightarrow> outcome \<times> wcall list \<times> ('l, 'u) http_state"

abbreviation on_world :: "('u world \<Rightarrow> 'u world) \<Rightarrow> ('l, 'u) http_state \<Rightarrow> ('l, 'u) http_state" where
  "on_world f st \<equiv> st\<lparr>st_world := f (st_world st)\<rparr>"

text \<open>\<open>http.Error\<close>: the message with a line feed as a plain-text body.\<close>

definition http_Error :: "string \<Rightarrow> int \<Rightarrow> wcall list" where
  "http_Error msg code =
     [DelHeader ''Content-Length'', SetHeader ''Content-Type'' ''text/plain; charset=utf-8'',
      SetHeader ''X-Content-Type-Options'' ''nosniff'', WriteHeader code,
      Write (msg @ [CHR 0x0A]) (length msg + 1)]"

text \<open>The status the client sees: the first one that is not informational; a write without one
  makes it 200, as does the end of the handler.\<close>

fun response_status :: "wcall list \<Rightarrow> int" where
  "response_status [] = 200"
| "response_status (WriteHeader c # cs) = (if 100 \<le> c \<and> c < 200 \<and> c \<noteq> 101 then response_status cs else c)"
| "response_status (Write b n # cs) = 200"
| "response_status (_ # cs) = response_status cs"

section \<open>Recovery and metrics\<close>

definition RecoveryMiddleware :: "logger \<Rightarrow> ('l, 'u) http_handler \<Rightarrow> ('l, 'u) http_handler" where
  "RecoveryMiddleware lg next_h r st =
     (case next_h r st of
        (Done, calls, st') \<Rightarrow> (Done, calls, st')
      | (Panicked v, calls, st') \<Rightarrow>
          (Done, calls @ http_Error ''Internal Server Error'' 500,
           on_world (log_with lg ErrorLevel ''panic recovered'' [(''panic'', LStr (SanitizeLog v))]) st'))"

text \<open>The decrement is deferred, so it also happens when the handler panics.\<close>

definition MetricsMiddleware :: "('l, 'u) http_handler \<Rightarrow> ('l, 'u) http_handler" where
  "MetricsMiddleware next_h r st =
     (case next_h r (on_world (\<lambda>w. w\<lparr>active_requests := active_requests w + 1\<rparr>) st) of
        (out, calls, st') \<Rightarrow> (out, calls, on_world (\<lambda>w. w\<lparr>active_requests := active_requests w - 1\<rparr>) st'))"

section \<open>Rate limiting\<close>

text \<open>\<open>limiter.Allow\<close> with the readings it takes from the clock: one when the global limiter refuses,
  three otherwise.\<close>

definition Allow_now ::
  "(rat \<Rightarrow> go_int \<Rightarrow> 'l) \<Rightarrow> ('l \<Rightarrow> int \<Rightarrow> bool \<times> 'l) \<Rightarrow> string \<Rightarrow> ('l, 'u) http_state
     \<Rightarrow> bool \<times> ('l, 'u) http_state" where
  "Allow_now new_lim allow_lim ip st =
     (let w = st_world st;
          tg = clock w (clock_pos w);
          n = (if fst (allow_lim (rl_global (st_limiter st)) tg) then 3 else 1);
          (ok, rl') = Allow new_lim allow_lim (st_limiter st) ip tg (clock w (clock_pos w + 1)) (clock w (clock_pos w + 2))
      in (ok, \<lparr>st_world = w\<lparr>clock_pos := clock_pos w + n\<rparr>, st_limiter = rl'\<rparr>))"

definition RateLimitMiddleware ::
  "(rat \<Rightarrow> go_int \<Rightarrow> 'l) \<Rightarrow> ('l \<Rightarrow> int \<Rightarrow> bool \<times> 'l) \<Rightarrow> logger \<Rightarrow> ('l, 'u) http_handler \<Rightarrow> ('l, 'u) http_handler" where
  "RateLimitMiddleware new_lim allow_lim lg next_h r st =
     (let clientIP = extractClientIP r in
      case Allow_now new_lim allow_lim clientIP st of
        (False, st') \<Rightarrow>
          (Done, http_Error ''Too Many Requests'' 429,
           on_world (log_with lg WarnLevel ''rate_limit exceeded''
             [(''client_ip'', LStr (SanitizeLog clientIP)), (''http_method'', LStr (SanitizeLog (rq_Method r)))]) st')
      | (True, st') \<Rightarrow> next_h r st')"

section \<open>Bodies\<close>

definition DefaultMaxRequestBodySize :: nat where
  "DefaultMaxRequestBodySize = 2 ^ 20"

definition MaxBatchSize :: nat where
  "MaxBatchSize = 100"

text \<open>\<open>http.MaxBytesReader\<close>: reading past the limit fails, at the limit it does not.\<close>

definition MaxBytesReader :: "nat \<Rightarrow> body \<Rightarrow> body" where
  "MaxBytesReader n b = (if n < length (fst b) then (take n (fst b), Some ErrMaxBytes) else b)"

definition BodyLimitMiddleware :: "nat \<Rightarrow> ('l, 'u) http_handler \<Rightarrow> ('l, 'u) http_handler" where
  "BodyLimitMiddleware maxBytes next_h r st = next_h (r\<lparr>rq_Body := MaxBytesReader maxBytes (rq_Body r)\<rparr>) st"

text \<open>\<open>MaxBytesError\<close>: the error, or one it wraps, is the reader's; \<open>None\<close> is the nil error.\<close>

fun err_as_max_bytes :: "err \<Rightarrow> bool" where
  "err_as_max_bytes ErrMaxBytes = True"
| "err_as_max_bytes (ErrWrap p e) = err_as_max_bytes e"
| "err_as_max_bytes _ = False"

definition MaxBytesError :: "err option \<Rightarrow> bool" where
  "MaxBytesError e = (case e of None \<Rightarrow> False | Some e \<Rightarrow> err_as_max_bytes e)"

text \<open>Unmarshalling into raw messages: a document that is not an array (or null) leaves the slice nil,
  as does a malformed one.\<close>

definition raw_messages :: "string \<Rightarrow> json list" where
  "raw_messages s = (case Unmarshal (dec_list dec_raw JNull) [] s of Some vs \<Rightarrow> vs | None \<Rightarrow> [])"

definition checkBatchSize :: "string \<Rightarrow> err option" where
  "checkBatchSize body =
     (let trimmed = trim_left body in
      if trimmed = '''' \<or> hd trimmed \<noteq> CHR ''['' then None
      else if length (raw_messages trimmed) > MaxBatchSize
      then Some (ErrText (''batch size '' @ Itoa (int (length (raw_messages trimmed))) @ '' exceeds maximum of ''
                          @ Itoa (int MaxBatchSize)))
      else None)"

record rpc_params =
  rpp_Name :: string

record rpc_request =
  rpc_Method :: string
  rpc_Params :: rpc_params

definition rpc_fields :: "rpc_request struct_fields" where
  "rpc_fields =
     [(''method'', \<lambda>r j. map_option (\<lambda>m. r\<lparr>rpc_Method := m\<rparr>) (dec_string (rpc_Method r) j)),
      (''params'', \<lambda>r j. map_option (\<lambda>p. r\<lparr>rpc_Params := p\<rparr>)
         (dec_struct [(''name'', \<lambda>p j. map_option (\<lambda>n. p\<lparr>rpp_Name := n\<rparr>) (dec_string (rpp_Name p) j))] (rpc_Params r) j))]"

definition mcpRequestMethod :: "string \<Rightarrow> string" where
  "mcpRequestMethod body =
     (if body = '''' then ''empty_body''
      else case Unmarshal (dec_struct rpc_fields) \<lparr>rpc_Method = '''', rpc_Params = \<lparr>rpp_Name = ''''\<rparr>\<rparr> body of
             None \<Rightarrow> ''parse_error''
           | Some req \<Rightarrow>
               if rpc_Method req = ''tools/call'' \<and> rpp_Name (rpc_Params req) \<noteq> '''' then rpp_Name (rpc_Params req)
               else if rpc_Method req \<noteq> '''' then rpc_Method req
               else ''no_method'')"

section \<open>Logging\<close>

text \<open>What \<open>loggingResponseWriter\<close> has recorded after the calls on it: the last status, the bytes
  accepted.\<close>

fun lrw_statusCode :: "int \<Rightarrow> wcall list \<Rightarrow> int" where
  "lrw_statusCode s [] = s"
| "lrw_statusCode s (WriteHeader c # cs) = lrw_statusCode c cs"
| "lrw_statusCode s (_ # cs) = lrw_statusCode s cs"

fun lrw_bodySize :: "wcall list \<Rightarrow> nat" where
  "lrw_bodySize [] = 0"
| "lrw_bodySize (Write b n # cs) = n + lrw_bodySize cs"
| "lrw_bodySize (_ # cs) = lrw_bodySize cs"

definition mcp_log ::
  "logger \<Rightarrow> http_request \<Rightarrow> string \<Rightarrow> int \<Rightarrow> nat \<Rightarrow> nat \<Rightarrow> int \<Rightarrow> 'u world \<Rightarrow> 'u world" where
  "mcp_log lg r mcpMethod duration reqSize respSize status =
     log_with lg InfoLevel ''mcp_log''
       [(''http_method'', LStr (SanitizeLog (rq_Method r))), (''path'', LStr (SanitizeLog (rq_Path r))),
        (''method'', LStr mcpMethod), (''duration'', LDuration duration), (''req_size'', LInt (int reqSize)),
        (''resp_size'', LInt (int respSize)), (''status'', LInt status)]"

definition LoggingMiddleware :: "logger \<Rightarrow> ('l, 'u) http_handler \<Rightarrow> ('l, 'u) http_handler" where
  "LoggingMiddleware lg next_h r st =
     (let (start, w0) = time_Now (st_world st); st0 = st\<lparr>st_world := w0\<rparr> in
      case ReadAll (rq_Body r) of
        Inl e \<Rightarrow>
          (Done, http_Error ''Request body too large'' 413,
           on_world (log_with lg ErrorLevel ''mcp_log request_error=read_body'' [(''error'', LStr (err_msg e))]) st0)
      | Inr body \<Rightarrow>
          let r' = r\<lparr>rq_Body := (body, None)\<rparr>;
              mcpMethod = SanitizeLog (mcpRequestMethod body)
          in case checkBatchSize body of
               Some e \<Rightarrow>
                 let (now, w1) = time_Now (st_world st0) in
                 (Done, http_Error (err_msg e) 400,
                  st0\<lparr>st_world := mcp_log lg r mcpMethod (now - start) (length body) 0 400 w1\<rparr>)
             | None \<Rightarrow>
                 (case next_h r' st0 of
                    (Panicked v, calls, st1) \<Rightarrow> (Panicked v, calls, st1)
                  | (Done, calls, st1) \<Rightarrow>
                      let (now, w1) = time_Now (st_world st1) in
                      (Done, calls,
                       st1\<lparr>st_world := mcp_log lg r mcpMethod (now - start) (length body) (lrw_bodySize calls)
                              (lrw_statusCode 200 calls) w1\<rparr>)))"

definition ClientIPMiddleware :: "('l, 'u) http_handler \<Rightarrow> ('l, 'u) http_handler" where
  "ClientIPMiddleware next_h r st =
     (case proxyClientIP r of
        Some ip \<Rightarrow> next_h (r\<lparr>rq_Context := WithClientIP (rq_Context r) ip\<rparr>) st
      | None \<Rightarrow> next_h r st)"

section \<open>The chain\<close>

text \<open>The handler \<open>buildHTTPHandler\<close> of \<open>cmd/server/main.go\<close> composes around the MCP handler, which is
  third-party and a parameter.\<close>

definition http_chain ::
  "(rat \<Rightarrow> go_int \<Rightarrow> 'l) \<Rightarrow> ('l \<Rightarrow> int \<Rightarrow> bool \<times> 'l) \<Rightarrow> logger \<Rightarrow> ('l, 'u) http_handler \<Rightarrow> ('l, 'u) http_handler" where
  "http_chain new_lim allow_lim lg mcpHandler =
     RecoveryMiddleware lg
       (MetricsMiddleware
         (RateLimitMiddleware new_lim allow_lim lg
           (BodyLimitMiddleware DefaultMaxRequestBodySize
             (LoggingMiddleware lg
               (ClientIPMiddleware mcpHandler)))))"

section \<open>What a request is answered\<close>

text \<open>The gateway's promise: which requests are refused, with what answer, and what the MCP handler is
  given of the others.\<close>

datatype admission = Refused int string | Admitted http_request

definition admit :: "bool \<Rightarrow> http_request \<Rightarrow> admission" where
  "admit allowed r =
     (if \<not> allowed then Refused 429 ''Too Many Requests''
      else if length (fst (rq_Body r)) > 2 ^ 20 \<or> snd (rq_Body r) \<noteq> None then Refused 413 ''Request body too large''
      else case checkBatchSize (fst (rq_Body r)) of
             Some e \<Rightarrow> Refused 400 (err_msg e)
           | None \<Rightarrow>
               Admitted (case proxyClientIP r of
                           Some ip \<Rightarrow> r\<lparr>rq_Context := WithClientIP (rq_Context r) ip\<rparr>
                         | None \<Rightarrow> r))"

abbreviation tick :: "('l, 'u) http_state \<Rightarrow> ('l, 'u) http_state" where
  "tick st \<equiv> on_world (\<lambda>w. snd (time_Now w)) st"

definition gauge :: "int \<Rightarrow> ('l, 'u) http_state \<Rightarrow> ('l, 'u) http_state" where
  "gauge n st = on_world (\<lambda>w. w\<lparr>active_requests := active_requests w + n\<rparr>) st"

text \<open>Everything of the world but the log and the clock.\<close>

definition calm :: "'u world \<Rightarrow> 'u world" where
  "calm w = w\<lparr>logs := [], clock_pos := 0\<rparr>"

lemma calm_simps [simp]:
  "calm (log_with lg l m f w) = calm w"
  "calm (mcp_log lg r m d rs ss s w) = calm w"
  "calm (w\<lparr>clock_pos := n\<rparr>) = calm w"
  "calm (snd (time_Now w)) = calm w"
  "active_requests (calm w) = active_requests w"
  "calm (calm w) = calm w"
  by (simp_all add: calm_def log_with_def mcp_log_def time_Now_def)

lemma calm_iff:
  "calm v = calm w \<longleftrightarrow>
     upstream v = upstream w \<and> clock v = clock w \<and> random_bytes v = random_bytes w \<and> random_pos v = random_pos w
     \<and> tool_requests v = tool_requests w \<and> tool_durations v = tool_durations w
     \<and> active_requests v = active_requests w \<and> upstream_requests v = upstream_requests w
     \<and> upstream_durations v = upstream_durations w"
  by (cases v, cases w) (auto simp: calm_def)

lemma Allow_now_calm: "calm (st_world (snd (Allow_now nl al ip st))) = calm (st_world st)"
  by (simp add: Allow_now_def Let_def split: prod.splits)

lemma MaxBytesReader_ReadAll:
  "ReadAll (MaxBytesReader n b) =
     (if length (fst b) > n then Inl ErrMaxBytes else case snd b of None \<Rightarrow> Inr (fst b) | Some e \<Rightarrow> Inl e)"
  by (simp add: MaxBytesReader_def ReadAll_def)

lemma rq_Body_same: "rq_Body r = (b, None) \<Longrightarrow> r\<lparr>rq_Body := (b, None)\<rparr> = r"
  by (cases r) simp

lemma proxyClientIP_body [simp]: "proxyClientIP (r\<lparr>rq_Body := b\<rparr>) = proxyClientIP r"
  by (simp add: proxyClientIP_def Let_def)

lemma http_request_ext:
  "rq_Method r = rq_Method s \<Longrightarrow> rq_Path r = rq_Path s \<Longrightarrow> rq_RemoteAddr r = rq_RemoteAddr s \<Longrightarrow>
   rq_Header r = rq_Header s \<Longrightarrow> rq_Body r = rq_Body s \<Longrightarrow> rq_Context r = rq_Context s \<Longrightarrow> r = (s :: http_request)"
  by (cases r, cases s) simp

text \<open>The part of the chain behind the rate limiter.\<close>

abbreviation body_chain :: "logger \<Rightarrow> ('l, 'u) http_handler \<Rightarrow> ('l, 'u) http_handler" where
  "body_chain lg mcp \<equiv>
     BodyLimitMiddleware DefaultMaxRequestBodySize (LoggingMiddleware lg (ClientIPMiddleware mcp))"

lemma body_chain_admit:
  "case admit True r of
     Refused code msg \<Rightarrow> \<exists>st'. body_chain lg mcp r st = (Done, http_Error msg code, st')
        \<and> calm (st_world st') = calm (st_world st) \<and> st_limiter st' = st_limiter st
   | Admitted r' \<Rightarrow>
       (case mcp r' (tick st) of
          (Done, calls, st1) \<Rightarrow> \<exists>st'. body_chain lg mcp r st = (Done, calls, st')
             \<and> calm (st_world st') = calm (st_world st1) \<and> st_limiter st' = st_limiter st1
        | (Panicked v, calls, st1) \<Rightarrow> body_chain lg mcp r st = (Panicked v, calls, st1))"
proof (cases "ReadAll (MaxBytesReader DefaultMaxRequestBodySize (rq_Body r))")
  case (Inl e)
  then have "length (fst (rq_Body r)) > 2 ^ 20 \<or> snd (rq_Body r) \<noteq> None"
    by (auto simp: MaxBytesReader_ReadAll DefaultMaxRequestBodySize_def split: if_splits option.splits)
  with Inl show ?thesis
    by (auto simp: admit_def BodyLimitMiddleware_def LoggingMiddleware_def time_Now_def)
next
  case (Inr body)
  then have le: "\<not> (length body > 2 ^ 20)" and b: "rq_Body r = (body, None)"
    by (auto simp: MaxBytesReader_ReadAll DefaultMaxRequestBodySize_def prod_eq_iff split: if_splits option.splits)
  let ?r = "r\<lparr>rq_Body := MaxBytesReader DefaultMaxRequestBodySize (rq_Body r)\<rparr>"
  have r: "?r\<lparr>rq_Body := (body, None)\<rparr> = r" using b by (intro http_request_ext) simp_all
  have p: "proxyClientIP ?r = proxyClientIP r" by simp
  show ?thesis
  proof (cases "checkBatchSize body")
    case (Some e)
    then show ?thesis using Inr le b
      by (auto simp: admit_def BodyLimitMiddleware_def LoggingMiddleware_def Let_def split_beta)
  next
    case None
    have "BodyLimitMiddleware DefaultMaxRequestBodySize (LoggingMiddleware lg next_h) r st =
       (case next_h r (tick st) of
          (Panicked v, calls, st1) \<Rightarrow> (Panicked v, calls, st1)
        | (Done, calls, st1) \<Rightarrow>
            (Done, calls, st1\<lparr>st_world := mcp_log lg ?r (SanitizeLog (mcpRequestMethod body))
               (fst (time_Now (st_world st1)) - fst (time_Now (st_world st))) (length body) (lrw_bodySize calls)
               (lrw_statusCode 200 calls) (snd (time_Now (st_world st1)))\<rparr>))" for next_h
      using Inr None r by (simp add: BodyLimitMiddleware_def LoggingMiddleware_def time_Now_def Let_def split: prod.split outcome.split)
    then show ?thesis using None le b
      by (auto simp: admit_def ClientIPMiddleware_def split: option.split prod.split outcome.split)
  qed
qed

lemma not_admitted: "admit False r = Refused 429 ''Too Many Requests''"
  by (simp add: admit_def)

lemma gauge_simps [simp]:
  "st_limiter (gauge n st) = st_limiter st"
  "active_requests (st_world (gauge n st)) = active_requests (st_world st) + n"
  by (simp_all add: gauge_def)

lemma gauge_calm:
  "calm (st_world st') = calm (st_world (gauge 1 st)) \<Longrightarrow> calm (st_world (gauge (- 1) st')) = calm (st_world st)"
  by (simp add: gauge_def calm_iff)

lemma calm_gauge: "calm (st_world st) = calm (st_world st') \<Longrightarrow> calm (st_world (gauge n st)) = calm (st_world (gauge n st'))"
  by (simp add: gauge_def calm_iff)

lemma MetricsMiddleware_gauge:
  "MetricsMiddleware h r st = (case h r (gauge 1 st) of (out, calls, st') \<Rightarrow> (out, calls, gauge (- 1) st'))"
  by (simp add: MetricsMiddleware_def gauge_def)

lemma http_chain_refused:
  assumes "Allow_now nl al (extractClientIP r) (gauge 1 st) = (False, st1)"
  shows "\<exists>st'. http_chain nl al lg mcp r st = (Done, http_Error ''Too Many Requests'' 429, st')
    \<and> calm (st_world st') = calm (st_world st) \<and> st_limiter st' = st_limiter st1"
proof -
  have "calm (st_world st1) = calm (st_world (gauge 1 st))"
    using Allow_now_calm [of nl al "extractClientIP r" "gauge 1 st"] assms by simp
  then show ?thesis using assms
    by (auto simp: http_chain_def RecoveryMiddleware_def MetricsMiddleware_gauge RateLimitMiddleware_def
        intro!: gauge_calm)
qed

lemma http_chain_allowed:
  assumes "Allow_now nl al (extractClientIP r) (gauge 1 st) = (True, st1)"
  shows "http_chain nl al lg mcp r st =
     (case body_chain lg mcp r st1 of
        (Done, calls, st2) \<Rightarrow> (Done, calls, gauge (- 1) st2)
      | (Panicked v, calls, st2) \<Rightarrow>
          (Done, calls @ http_Error ''Internal Server Error'' 500,
           on_world (log_with lg ErrorLevel ''panic recovered'' [(''panic'', LStr (SanitizeLog v))]) (gauge (- 1) st2)))"
  using assms
  by (simp add: http_chain_def RecoveryMiddleware_def MetricsMiddleware_gauge RateLimitMiddleware_def
      split: prod.split outcome.split)

text \<open>The whole chain: the answer, and what becomes of the state.\<close>

lemma http_chain_cases:
  assumes "Allow_now nl al (extractClientIP r) (gauge 1 st) = (ok, st0)"
  shows "case admit ok r of
     Refused code msg \<Rightarrow> \<exists>st'. http_chain nl al lg mcp r st = (Done, http_Error msg code, st')
        \<and> calm (st_world st') = calm (st_world st) \<and> st_limiter st' = st_limiter st0
   | Admitted r' \<Rightarrow>
       (case mcp r' (tick st0) of
          (Done, calls, st1) \<Rightarrow> \<exists>st'. http_chain nl al lg mcp r st = (Done, calls, st')
             \<and> calm (st_world st') = calm (st_world (gauge (- 1) st1)) \<and> st_limiter st' = st_limiter st1
        | (Panicked v, calls, st1) \<Rightarrow>
            http_chain nl al lg mcp r st =
              (Done, calls @ http_Error ''Internal Server Error'' 500,
               on_world (log_with lg ErrorLevel ''panic recovered'' [(''panic'', LStr (SanitizeLog v))])
                 (gauge (- 1) st1)))"
proof (cases ok)
  case False
  then show ?thesis using assms http_chain_refused by (auto simp: not_admitted)
next
  case True
  have st0: "calm (st_world st0) = calm (st_world (gauge 1 st))"
    using Allow_now_calm [of nl al "extractClientIP r" "gauge 1 st"] assms by simp
  note c = http_chain_allowed [OF assms [unfolded True [THEN eqTrueI]], of lg mcp]
  show ?thesis
  proof (cases "admit True r")
    case (Refused code msg)
    then obtain st' where "body_chain lg mcp r st0 = (Done, http_Error msg code, st')"
      "calm (st_world st') = calm (st_world st0)" "st_limiter st' = st_limiter st0"
      using body_chain_admit [of lg mcp r st0] by auto
    then show ?thesis using True Refused c st0 by (simp add: gauge_calm)
  next
    case (Admitted r')
    obtain out calls st1 where m: "mcp r' (tick st0) = (out, calls, st1)" by (cases "mcp r' (tick st0)")
    show ?thesis
    proof (cases out)
      case Done
      then obtain st' where st': "body_chain lg mcp r st0 = (Done, calls, st')"
        "calm (st_world st') = calm (st_world st1)" "st_limiter st' = st_limiter st1"
        using body_chain_admit [of lg mcp r st0] Admitted m by auto
      have "http_chain nl al lg mcp r st = (Done, calls, gauge (- 1) st')" using c st'(1) by simp
      then show ?thesis using True Admitted m Done calm_gauge [OF st'(2), of "- 1"] st'(3) by simp
    next
      case (Panicked v)
      then show ?thesis using body_chain_admit [of lg mcp r st0] True Admitted c m by simp
    qed
  qed
qed

section \<open>Properties\<close>

text \<open>C2. The HTTP chain answers every request: 429 when the limiter refuses its client, else 413 when
  the body exceeds one mebibyte or cannot be read, else 400 when it is a batch of more than 100
  requests; such a request changes nothing but the limiter, the log and the clock. Every other request
  reaches the MCP handler, once, with its body whole and the gateway's client address in its context,
  and is answered what that handler writes; when the handler panics, 500 is written after it.\<close>

theorem http_chain_gateway:
  "case admit (fst (Allow_now nl al (extractClientIP r) (gauge 1 st))) r of
     Refused code msg \<Rightarrow> \<exists>st'. http_chain nl al lg mcp r st = (Done, http_Error msg code, st')
        \<and> response_status (http_Error msg code) = code
        \<and> calm (st_world st') = calm (st_world st)
   | Admitted r' \<Rightarrow>
       (case mcp r' (tick (snd (Allow_now nl al (extractClientIP r) (gauge 1 st)))) of
          (Done, calls, st1) \<Rightarrow> \<exists>st'. http_chain nl al lg mcp r st = (Done, calls, st')
        | (Panicked v, calls, st1) \<Rightarrow>
            \<exists>st'. http_chain nl al lg mcp r st = (Done, calls @ http_Error ''Internal Server Error'' 500, st'))"
proof -
  have s: "admit ok r = Refused code msg \<Longrightarrow> response_status (http_Error msg code) = code" for ok code msg
    by (auto simp: admit_def http_Error_def split: if_splits option.splits)
  obtain ok st0 where a: "Allow_now nl al (extractClientIP r) (gauge 1 st) = (ok, st0)"
    by (cases "Allow_now nl al (extractClientIP r) (gauge 1 st)")
  show ?thesis
    using http_chain_cases [OF a, of lg mcp] s
    by (cases "admit ok r") (auto simp: a split: prod.splits outcome.splits)
qed

text \<open>C16. The gauge of requests in flight is balanced: for any handler that itself leaves it as it found
  it, whether it returns or panics, the whole chain does too, on every path, while that handler runs
  with the gauge one higher.\<close>

theorem http_chain_gauge:
  assumes "\<forall>r st. active_requests (st_world (snd (snd (mcp r st)))) = active_requests (st_world st)"
  shows "active_requests (st_world (snd (snd (http_chain nl al lg mcp r st)))) = active_requests (st_world st)
    \<and> active_requests (st_world (tick (snd (Allow_now nl al ip (gauge 1 st))))) = active_requests (st_world st) + 1"
proof -
  obtain ok st0 where a: "Allow_now nl al (extractClientIP r) (gauge 1 st) = (ok, st0)"
    by (cases "Allow_now nl al (extractClientIP r) (gauge 1 st)")
  have g: "active_requests (st_world (snd (Allow_now nl al i (gauge 1 st)))) = active_requests (st_world st) + 1" for i
    using Allow_now_calm [of nl al i "gauge 1 st"] by (simp add: calm_iff)
  have m: "active_requests (st_world st2) = active_requests (st_world st) + 1" if "mcp r' (tick st0) = (out, calls, st2)" for r' out calls st2
    using assms [rule_format, of r' "tick st0"] that g [of "extractClientIP r"] a by (simp add: time_Now_def)
  show ?thesis
    using http_chain_cases [OF a, of lg mcp] g [of ip]
    by (cases "admit ok r") (auto simp: calm_iff time_Now_def [of "st_world (snd _)"] dest: m split: prod.splits outcome.splits)
qed

definition demo_logger :: logger where
  "demo_logger = \<lparr>lg_output = Stdout, lg_formatter = TextFormatter, lg_level = InfoLevel\<rparr>"

definition demo_state :: "(bucket, unit) http_state" where
  "demo_state =
     \<lparr>st_world = \<lparr>upstream = (), clock = int, clock_pos = 0, random_bytes = (\<lambda>_. CHR 0x00), random_pos = 0, logs = [],
        tool_requests = (\<lambda>_. 0), tool_durations = (\<lambda>_. []), active_requests = 0,
        upstream_requests = (\<lambda>_. 0), upstream_durations = []\<rparr>,
      st_limiter = NewRateLimiter new_bucket demo_config\<rparr>"

lemma http_chain_gauge_witness:
  "active_requests (st_world (snd (snd (http_chain new_bucket allow_bucket demo_logger
      (\<lambda>r st. (Panicked ''boom'', [WriteHeader 200], st)) demo_request demo_state)))) = 0"
  using http_chain_gauge [of "\<lambda>r st. (Panicked ''boom'', [WriteHeader 200], st)" new_bucket allow_bucket
      demo_logger demo_request demo_state]
  by (simp add: demo_state_def)

definition safe_logs :: "('l, 'u) http_state \<Rightarrow> bool" where
  "safe_logs st \<longleftrightarrow> list_all safe_entry (logs (st_world st))"

lemma one_line_messages [simp]:
  "one_line ''mcp_log''" "one_line ''rate_limit exceeded''" "one_line ''panic recovered''"
  "one_line ''mcp_log request_error=read_body''" "one_line ''http: request body too large''"
  by code_simp+

lemma safe_mcp_log:
  "list_all safe_entry (logs w) \<Longrightarrow> list_all safe_entry (logs (mcp_log lg r (SanitizeLog m) d rs ss s w))"
  by (simp add: mcp_log_def safe_log_with)

lemma safe_logs_gauge [simp]: "safe_logs (gauge n st) = safe_logs st"
  by (simp add: safe_logs_def gauge_def)

lemma safe_logs_Allow_now [simp]: "safe_logs (snd (Allow_now nl al ip st)) = safe_logs st"
  by (simp add: safe_logs_def Allow_now_def Let_def split: prod.splits)

lemma safe_logs_tick [simp]: "safe_logs (st\<lparr>st_world := snd (time_Now (st_world st))\<rparr>) = safe_logs st"
  by (simp add: safe_logs_def time_Now_def)

text \<open>A handler that keeps logs safe, and what a layer of the chain owes the layers around it: around such
  a handler it is one itself.\<close>

abbreviation keeps_safe :: "('l, 'u) http_handler \<Rightarrow> http_request \<Rightarrow> bool" where
  "keeps_safe h r \<equiv> (\<forall>st. safe_logs st \<longrightarrow> safe_logs (snd (snd (h r st))))"

locale log_keeper =
  fixes layer :: "('l, 'u) http_handler \<Rightarrow> ('l, 'u) http_handler"
  assumes keeps: "keeps_safe h r \<Longrightarrow> keeps_safe (layer h) r"

context log_keeper begin

lemma keeps_around: "log_keeper g \<Longrightarrow> keeps_safe h r \<Longrightarrow> keeps_safe (layer (g h)) r"
  by (rule keeps) (rule log_keeper.keeps)

end

lemma keeps_safe_Recovery: "keeps_safe h r \<Longrightarrow> keeps_safe (RecoveryMiddleware lg h) r"
  by (fastforce simp: RecoveryMiddleware_def safe_logs_def safe_log_with split: prod.splits outcome.splits)

lemma keeps_safe_Metrics: "keeps_safe h r \<Longrightarrow> keeps_safe (MetricsMiddleware h) r"
  by (auto simp: MetricsMiddleware_gauge split: prod.splits) (metis safe_logs_gauge snd_conv)

lemma keeps_safe_RateLimit: "keeps_safe h r \<Longrightarrow> keeps_safe (RateLimitMiddleware nl al lg h) r"
proof -
  assume h: "keeps_safe h r"
  have "safe_logs (snd (snd (RateLimitMiddleware nl al lg h r st)))" if s: "safe_logs st" for st
  proof -
    obtain ok st1 where a: "Allow_now nl al (extractClientIP r) st = (ok, st1)" by force
    then have "safe_logs st1" using s safe_logs_Allow_now by (metis snd_conv)
    then show ?thesis using a h by (cases ok) (auto simp: RateLimitMiddleware_def safe_logs_def safe_log_with)
  qed
  then show ?thesis by blast
qed

interpretation recovery: log_keeper "RecoveryMiddleware lg" for lg
  by unfold_locales (rule keeps_safe_Recovery)

interpretation in_flight: log_keeper MetricsMiddleware
  by unfold_locales (rule keeps_safe_Metrics)

interpretation rate: log_keeper "RateLimitMiddleware nl al lg" for nl al lg
  by unfold_locales (rule keeps_safe_RateLimit)

lemma keeps_safe_Logging:
  assumes "\<forall>r. keeps_safe h r" "\<forall>e. snd (rq_Body r) = Some e \<longrightarrow> one_line (err_msg e)"
  shows "keeps_safe (LoggingMiddleware lg h) r"
proof -
  have "safe_logs (snd (snd (LoggingMiddleware lg h r st)))" if s: "safe_logs st" for st
  proof (cases "snd (rq_Body r)")
    case (Some e)
    then show ?thesis using s assms(2)
      by (simp add: LoggingMiddleware_def ReadAll_def time_Now_def safe_logs_def safe_log_with)
  next
    case None
    let ?r = "r\<lparr>rq_Body := (fst (rq_Body r), None)\<rparr>"
    let ?st = "st\<lparr>st_world := snd (time_Now (st_world st))\<rparr>"
    have i: "safe_logs (snd (snd (h ?r ?st)))" using assms(1) s by simp
    show ?thesis
    proof (cases "checkBatchSize (fst (rq_Body r))")
      case (Some e)
      then show ?thesis using s None
        by (simp add: LoggingMiddleware_def ReadAll_def time_Now_def safe_logs_def safe_mcp_log)
    next
      case c: None
      then show ?thesis using i None
        by (auto simp: LoggingMiddleware_def ReadAll_def time_Now_def safe_logs_def safe_mcp_log
            split: prod.splits outcome.splits)
    qed
  qed
  then show ?thesis by blast
qed

lemma keeps_safe_BodyLimit:
  assumes "\<forall>r. keeps_safe h r" "\<forall>e. snd (rq_Body r) = Some e \<longrightarrow> one_line (err_msg e)"
  shows "keeps_safe (BodyLimitMiddleware n (LoggingMiddleware lg h)) r"
  using keeps_safe_Logging [of h "r\<lparr>rq_Body := MaxBytesReader n (rq_Body r)\<rparr>" lg] assms
  by (auto simp: BodyLimitMiddleware_def MaxBytesReader_def)

lemma keeps_safe_ClientIP: "\<forall>r. keeps_safe h r \<Longrightarrow> keeps_safe (ClientIPMiddleware h) r"
  by (auto simp: ClientIPMiddleware_def split: option.splits)



lemma dec_elems_raw: "dec_elems dec_raw z old js = Some js"
  by (induction js arbitrary: old) (simp_all add: dec_raw_def)

lemma json_text_Arr: "json_text (JArr vs) = CHR ''['' # concat (map token_text (separated (map json_tokens vs) @ [TEndArr]))"
  by (simp add: json_text_def)

lemma json_text_Obj: "\<exists>s. json_text (JObj kvs) = CHR 0x7B # s"
  by (simp add: json_text_def)

lemma trim_left_json_Arr: "trim_left (json_text (JArr vs)) = json_text (JArr vs)"
  by (rule trim_left_graphic) (simp add: json_text_Arr graphic_def)

lemma raw_messages_Arr:
  assumes "wf_json (JArr vs)" "json_height (JArr vs) \<le> maxNestingDepth"
  shows "raw_messages (json_text (JArr vs)) = vs"
  using json_parse_text [OF assms] by (simp add: raw_messages_def Unmarshal_def dec_list_def dec_elems_raw)

lemma blank_runes: "is_ws c \<Longrightarrow> byte_val c < 0x80 \<and> is_space (byte_val c)"
  by (auto simp: is_ws_def is_space_def space_runes_def)

lemma trim_left_n_blanks:
  "list_all is_ws ws \<Longrightarrow> length ws \<le> n \<Longrightarrow> trim_left_n n (ws @ s) = trim_left_n (n - length ws) s"
proof (induction ws arbitrary: n)
  case (Cons c cs)
  then obtain m where n: "n = Suc m" by (cases n) auto
  from Cons.prems blank_runes [of c] have "byte_val c < 0x80" "is_space (byte_val c)" by auto
  then show ?case using Cons n by (simp add: decode_rune_ascii)
qed simp

lemma trim_left_blanks: "list_all is_ws ws \<Longrightarrow> trim_left (ws @ s) = trim_left s"
  by (simp add: trim_left_def trim_left_n_blanks)

lemma checkBatchSize_Obj: "checkBatchSize (json_text (JObj kvs)) = None"
proof -
  obtain s where s: "json_text (JObj kvs) = CHR 0x7B # s" using json_text_Obj by blast
  have "trim_left (json_text (JObj kvs)) = json_text (JObj kvs)"
    by (rule trim_left_graphic) (simp add: s graphic_def)
  then show ?thesis by (simp add: checkBatchSize_def) (simp add: s)
qed

lemma checkBatchSize_blanks: "list_all is_ws ws \<Longrightarrow> checkBatchSize (ws @ s) = checkBatchSize s"
  by (simp add: checkBatchSize_def trim_left_blanks)

text \<open>C27. The batch limit on every JSON document a client may send, with any blanks before it: an array
  is let through exactly when it has at most 100 elements, whatever they contain, and is refused with
  its number of elements otherwise; an object, a single request, always passes.\<close>

theorem batch_limit:
  assumes "wf_json (JArr vs)" "json_height (JArr vs) \<le> maxNestingDepth" "list_all is_ws ws"
  shows "checkBatchSize (ws @ json_text (JArr vs)) =
      (if length vs \<le> 100 then None
       else Some (ErrText (''batch size '' @ Itoa (int (length vs)) @ '' exceeds maximum of 100'')))
    \<and> checkBatchSize (ws @ json_text (JObj kvs)) = None"
proof -
  have i: "Itoa (int 100) = ''100''" by code_simp
  have h: "json_text (JArr vs) \<noteq> []" "hd (json_text (JArr vs)) = CHR ''[''" by (simp_all add: json_text_Arr)
  have "checkBatchSize (json_text (JArr vs)) =
      (if length vs \<le> 100 then None
       else Some (ErrText (''batch size '' @ Itoa (int (length vs)) @ '' exceeds maximum of 100'')))"
    using i h by (simp add: checkBatchSize_def trim_left_json_Arr raw_messages_Arr [OF assms(1,2)]
        MaxBatchSize_def Let_def)
  then show ?thesis by (simp add: checkBatchSize_blanks [OF assms(3)] checkBatchSize_Obj)
qed

lemma batch_limit_witness:
  "checkBatchSize ('' '' @ json_text (JArr (replicate 101 JNull))) =
     Some (ErrText (''batch size '' @ Itoa 101 @ '' exceeds maximum of 100''))"
proof -
  have "foldr (\<lambda>v n. max (json_height v) n) (replicate 101 JNull) 0 = 0" by code_simp
  then show ?thesis
    using batch_limit [of "replicate 101 JNull" "'' ''" "[]"]
    by (simp add: is_ws_def maxNestingDepth_def)
qed

text \<open>The name a JSON-RPC request is logged under. The keys are those of the protocol; the id, and the
  arguments of a tool call, can be anything.\<close>

definition rpc_message :: "json \<Rightarrow> string \<Rightarrow> string \<Rightarrow> json \<Rightarrow> json" where
  "rpc_message i m n args =
     JObj [(''jsonrpc'', JStr ''2.0''), (''id'', i), (''method'', JStr m),
           (''params'', JObj [(''name'', JStr n), (''arguments'', args)])]"

definition request_name :: "string \<Rightarrow> string \<Rightarrow> string" where
  "request_name m n = (if m = ''tools/call'' \<and> n \<noteq> '''' then n else if m \<noteq> '''' then m else ''no_method'')"

lemma rpc_names:
  "find_field rpc_fields (unquote ''jsonrpc'') = None" "find_field rpc_fields (unquote ''id'') = None"
  by code_simp+

lemma rpc_keys: "plain_ascii ''method''" "plain_ascii ''params''" "plain_ascii ''name''" "plain_ascii ''arguments''"
  by code_simp+

lemma rpc_param_names:
  "List.find (\<lambda>(n, d). fold_name n = fold_name ''arguments'') [(''name'', d)] = None"
  by (simp add: fold_name_def rune_simps) code_simp

lemma mcpRequestMethod_message:
  assumes "json_parse body = Some (rpc_message i m n args)" "plain_ascii m" "plain_ascii n"
  shows "mcpRequestMethod body = request_name m n"
proof -
  have "body \<noteq> ''''" using assms(1) by (auto simp: json_parse_def tokenize.simps)
  moreover have "find_field [(''name'', d)] (unquote ''arguments'') = None" for d :: "rpc_params decoder"
    using rpc_param_names [of d] by (simp add: find_field_def unquote_plain [OF rpc_keys(4)])
  ultimately show ?thesis
    using assms
    by (simp add: mcpRequestMethod_def Unmarshal_def rpc_message_def dec_struct_def rpc_names)
      (simp add: request_name_def find_field_def rpc_fields_def dec_struct_def dec_string_def
        unquote_plain rpc_keys)
qed

text \<open>A handler that writes a status at most once, before the body, and no informational one.\<close>

fun is_status :: "wcall \<Rightarrow> bool" where
  "is_status (WriteHeader c) = True"
| "is_status _ = False"

fun proper_calls :: "wcall list \<Rightarrow> bool" where
  "proper_calls [] = True"
| "proper_calls (WriteHeader c # cs) = ((c = 101 \<or> c < 100 \<or> 200 \<le> c) \<and> list_all (\<lambda>w. \<not> is_status w) cs)"
| "proper_calls (Write b n # cs) = list_all (\<lambda>w. \<not> is_status w) cs"
| "proper_calls (_ # cs) = proper_calls cs"

lemma lrw_no_status: "list_all (\<lambda>w. \<not> is_status w) cs \<Longrightarrow> lrw_statusCode s cs = s"
  by (induction s cs rule: lrw_statusCode.induct) auto

lemma lrw_status_seen: "proper_calls cs \<Longrightarrow> lrw_statusCode 200 cs = response_status cs"
  by (induction cs rule: proper_calls.induct) (auto simp: lrw_no_status)

text \<open>C36. A JSON-RPC request that the MCP handler completes leaves exactly one line in the log, after
  the handler's own: its tool (or method) name, the size of its body, the bytes written and the status
  the client has seen, for any handler that sets a status at most once and before the body.\<close>

theorem mcp_log_entry:
  assumes "wf_json (rpc_message i m n args)" "json_height (rpc_message i m n args) \<le> maxNestingDepth"
    and "plain_ascii m" "plain_ascii n"
    and "rq_Body r = (json_text (rpc_message i m n args), None)"
    and "IsLevelEnabled lg InfoLevel"
    and "h r (tick st) = (Done, calls, st1)" "proper_calls calls"
  shows "\<exists>d st'. LoggingMiddleware lg h r st = (Done, calls, st')
    \<and> logs (st_world st') = logs (st_world st1) @
        [\<lparr>le_output = lg_output lg, le_level = InfoLevel, le_msg = ''mcp_log'', le_fields =
           [(''http_method'', LStr (SanitizeLog (rq_Method r))), (''path'', LStr (SanitizeLog (rq_Path r))),
            (''method'', LStr (SanitizeLog (request_name m n))), (''duration'', LDuration d),
            (''req_size'', LInt (int (length (fst (rq_Body r))))), (''resp_size'', LInt (int (lrw_bodySize calls))),
            (''status'', LInt (response_status calls))]\<rparr>]"
proof -
  let ?b = "json_text (rpc_message i m n args)"
  have n: "mcpRequestMethod ?b = request_name m n"
    by (rule mcpRequestMethod_message [OF json_parse_text [OF assms(1,2)] assms(3,4)])
  have c: "checkBatchSize ?b = None" by (simp add: rpc_message_def checkBatchSize_Obj)
  have r: "r\<lparr>rq_Body := (?b, None)\<rparr> = r" using assms(5) by (rule rq_Body_same)
  show ?thesis
    using assms(5-7) c
    by (simp add: LoggingMiddleware_def ReadAll_def r n time_Now_def lrw_status_seen [OF assms(8)])
      (auto simp: mcp_log_def logs_log_with)
qed

lemma mcp_log_entry_witness:
  "\<exists>d st'. LoggingMiddleware demo_logger (\<lambda>r st. (Done, [WriteHeader 404], st))
      (demo_request\<lparr>rq_Body := (json_text (rpc_message (JNum ''1'') ''tools/call'' ''search'' JNull), None)\<rparr>) demo_state
      = (Done, [WriteHeader 404], st')
    \<and> logs (st_world st') = logs (st_world (tick demo_state)) @
        [\<lparr>le_output = Stdout, le_level = InfoLevel, le_msg = ''mcp_log'', le_fields =
           [(''http_method'', LStr (SanitizeLog ''POST'')), (''path'', LStr (SanitizeLog ''/'')),
            (''method'', LStr (SanitizeLog ''search'')), (''duration'', LDuration d),
            (''req_size'', LInt (int (length (json_text (rpc_message (JNum ''1'') ''tools/call'' ''search'' JNull))))),
            (''resp_size'', LInt 0), (''status'', LInt 404)]\<rparr>]"
proof -
  let ?j = "rpc_message (JNum ''1'') ''tools/call'' ''search'' JNull"
  have "wf_json ?j" "json_height ?j \<le> maxNestingDepth" "IsLevelEnabled demo_logger InfoLevel"
    "plain_ascii ''tools/call''" "plain_ascii ''search''" by code_simp+
  from mcp_log_entry [OF this(1,2,4,5) _ this(3), where h = "\<lambda>r st. (Done, [WriteHeader 404], st)"
      and r = "demo_request\<lparr>rq_Body := (json_text ?j, None)\<rparr>" and st = demo_state]
  show ?thesis by (simp add: request_name_def) (simp add: demo_request_def demo_logger_def)
qed

end
