(* ===== verification/Telemetry.thy ===== *)
theory Telemetry
  imports GoStrings
begin

text \<open>
  The Prometheus collectors and their registration: \<open>NewMetrics\<close> and \<open>RegisterMetricsOnRegistry\<close> of
  \<open>handlers/metrics.go\<close>, \<open>InstrumentServer\<close> of \<open>handlers/observability.go\<close> and \<open>NewUpstreamMetrics\<close> of
  \<open>infrastructure/searxng/client.go\<close>. Prometheus is third-party; what the code relies on is that a
  registry refuses a collector one of whose metrics is registered already, and that
  \<open>MustRegister\<close> panics then (\<open>None\<close>). The collectors of the Go runtime and of the process are
  parameters: the names of their metrics. What the metrics count is in the world (\<open>Effects\<close>).
\<close>

section \<open>Collectors and registries\<close>

datatype metric_kind = CounterVec | HistogramVec | Gauge

record metric =
  me_kind :: metric_kind
  me_Name :: string
  me_Help :: string
  me_labels :: "string list"

datatype collector = Own metric | Runtime "string list"

fun collector_names :: "collector \<Rightarrow> string list" where
  "collector_names (Own m) = [me_Name m]"
| "collector_names (Runtime ns) = ns"

type_synonym registry = "collector list"

definition registered :: "registry \<Rightarrow> string list" where
  "registered reg = concat (map collector_names reg)"

definition Register :: "collector \<Rightarrow> registry \<Rightarrow> registry option" where
  "Register c reg =
     (if list_ex (\<lambda>n. n \<in> set (registered reg)) (collector_names c) then None else Some (reg @ [c]))"

fun MustRegister :: "collector list \<Rightarrow> registry \<Rightarrow> registry option" where
  "MustRegister [] reg = Some reg"
| "MustRegister (c # cs) reg = (case Register c reg of None \<Rightarrow> None | Some reg' \<Rightarrow> MustRegister cs reg')"

section \<open>The program's collectors\<close>

record metrics =
  toolRequestsTotal :: metric
  toolDuration :: metric
  activeRequests :: metric

definition tool_metrics :: metrics where
  "tool_metrics =
     \<lparr>toolRequestsTotal = \<lparr>me_kind = CounterVec, me_Name = ''mcp_tool_requests_total'',
        me_Help = ''Total number of MCP tool requests partitioned by tool name and status class.'',
        me_labels = [''tool'', ''status_class'']\<rparr>,
      toolDuration = \<lparr>me_kind = HistogramVec, me_Name = ''mcp_tool_duration_seconds'',
        me_Help = ''Histogram of MCP tool request durations in seconds, partitioned by tool name.'',
        me_labels = [''tool'']\<rparr>,
      activeRequests = \<lparr>me_kind = Gauge, me_Name = ''mcp_active_requests'',
        me_Help = ''Current number of in-flight MCP requests.'', me_labels = []\<rparr>\<rparr>"

definition NewMetrics :: "registry \<Rightarrow> (metrics \<times> registry) option" where
  "NewMetrics reg =
     map_option (Pair tool_metrics)
       (MustRegister [Own (toolRequestsTotal tool_metrics), Own (toolDuration tool_metrics),
          Own (activeRequests tool_metrics)] reg)"

record upstream_metrics =
  requestsTotal :: metric
  upstreamDuration :: metric

definition NewUpstreamMetrics :: "registry \<Rightarrow> (upstream_metrics \<times> registry) option" where
  "NewUpstreamMetrics reg =
     (let m = \<lparr>requestsTotal = \<lparr>me_kind = CounterVec, me_Name = ''mcp_searxng_upstream_requests_total'',
                 me_Help = ''Total SearXNG upstream requests partitioned by status class.'',
                 me_labels = [''status_class'']\<rparr>,
               upstreamDuration = \<lparr>me_kind = HistogramVec, me_Name = ''mcp_searxng_upstream_duration_seconds'',
                 me_Help = ''SearXNG upstream request duration in seconds.'', me_labels = []\<rparr>\<rparr>
      in map_option (Pair m) (MustRegister [Own (requestsTotal m), Own (upstreamDuration m)] reg))"

text \<open>The instrumented handler passes every request on; what is left is the registration.\<close>

definition InstrumentServer :: "registry \<Rightarrow> registry option" where
  "InstrumentServer reg =
     MustRegister
       [Own \<lparr>me_kind = HistogramVec, me_Name = ''http_request_duration_seconds'',
          me_Help = ''HTTP request duration in seconds.'', me_labels = [''code'', ''method'']\<rparr>,
        Own \<lparr>me_kind = CounterVec, me_Name = ''http_requests_total'',
          me_Help = ''Total number of HTTP requests.'', me_labels = [''code'', ''method'']\<rparr>,
        Own \<lparr>me_kind = HistogramVec, me_Name = ''http_response_size_bytes'',
          me_Help = ''HTTP response size in bytes.'', me_labels = [''code'', ''method'']\<rparr>] reg"

record runtime =
  go_collector :: "string list"
  process_collector :: "string list"

definition RegisterMetricsOnRegistry :: "runtime \<Rightarrow> registry \<Rightarrow> registry option" where
  "RegisterMetricsOnRegistry rt reg =
     (case MustRegister [Runtime (go_collector rt)] reg of
        None \<Rightarrow> None
      | Some reg' \<Rightarrow> MustRegister [Runtime (process_collector rt)] reg')"

section \<open>Registering\<close>

lemma registered_append [simp]: "registered (a @ b) = registered a @ registered b"
  and registered_simps [simp]: "registered [] = []" "registered (c # r) = collector_names c @ registered r"
  by (simp_all add: registered_def)

text \<open>A registration succeeds exactly when nothing is registered twice.\<close>

lemma MustRegister_iff:
  "MustRegister cs reg = Some reg' \<longleftrightarrow>
     reg' = reg @ cs
     \<and> (\<forall>i < length cs. set (collector_names (cs ! i)) \<inter> set (registered (reg @ take i cs)) = {})"
proof (induction cs arbitrary: reg)
  case (Cons c cs)
  have all: "(\<forall>i < length (c # cs). P i) \<longleftrightarrow> P 0 \<and> (\<forall>i < length cs. P (Suc i))" for P
    by (auto simp: less_Suc_eq_0_disj)
  show ?case
    unfolding all using Cons.IH
    by (auto simp: Register_def list_ex_iff disjoint_iff)
qed auto

text \<open>The names of the runtime's metrics.\<close>

definition runtime_named :: "runtime \<Rightarrow> bool" where
  "runtime_named rt \<longleftrightarrow> list_all (\<lambda>n. has_prefix n ''go_'') (go_collector rt)
     \<and> list_all (\<lambda>n. has_prefix n ''process_'') (process_collector rt)"

text \<open>What the code relies on of the names: the runtime's metrics have prefixes of their own.\<close>

definition foreign :: "string \<Rightarrow> bool" where
  "foreign n \<longleftrightarrow> has_prefix n ''go_'' \<or> has_prefix n ''process_''"

lemma has_prefix_hd: "has_prefix n (c # p) \<Longrightarrow> hd n = c"
  by (cases n) (auto simp: has_prefix_def)

lemma RegisterMetricsOnRegistry_ok:
  assumes "runtime_named rt" "list_all (\<lambda>n. \<not> foreign n) (registered reg)"
  shows "RegisterMetricsOnRegistry rt reg = Some (reg @ [Runtime (go_collector rt), Runtime (process_collector rt)])"
proof -
  have f: "n \<in> set (go_collector rt) \<Longrightarrow> foreign n \<and> hd n = CHR ''g''"
      "n \<in> set (process_collector rt) \<Longrightarrow> foreign n \<and> hd n = CHR ''p''" for n
    using assms(1) has_prefix_hd [of n] by (auto simp: runtime_named_def foreign_def list_all_iff)
  have o: "n \<in> set (registered reg) \<Longrightarrow> \<not> foreign n" for n using assms(2) by (simp add: list_all_iff)
  have 1: "set (go_collector rt) \<inter> set (registered reg) = {}" using f(1) o by blast
  have "n \<notin> set (process_collector rt)" if "n \<in> set (go_collector rt)" for n using f [of n] that by auto
  then have 2: "set (process_collector rt) \<inter> (set (registered reg) \<union> set (go_collector rt)) = {}" using f(2) o by blast
  have "MustRegister [Runtime (go_collector rt)] reg = Some (reg @ [Runtime (go_collector rt)])"
    unfolding MustRegister_iff using 1 by simp
  moreover have "MustRegister [Runtime (process_collector rt)] (reg @ [Runtime (go_collector rt)])
      = Some ((reg @ [Runtime (go_collector rt)]) @ [Runtime (process_collector rt)])"
    unfolding MustRegister_iff using 2 by simp
  ultimately show ?thesis by (simp add: RegisterMetricsOnRegistry_def)
qed

lemma RegisterMetricsOnRegistry_twice:
  assumes "RegisterMetricsOnRegistry rt reg = Some reg'" "go_collector rt \<noteq> []"
  shows "RegisterMetricsOnRegistry rt reg' = None"
proof -
  have "set (go_collector rt) \<subseteq> set (registered reg')"
    using assms(1) by (auto simp: RegisterMetricsOnRegistry_def Register_def split: option.splits if_splits)
  moreover have "hd (go_collector rt) \<in> set (go_collector rt)" using assms(2) by simp
  ultimately have "Register (Runtime (go_collector rt)) reg' = None"
    unfolding Register_def by (auto simp: list_ex_iff)
  then show ?thesis by (simp add: RegisterMetricsOnRegistry_def)
qed

text \<open>The registry after \<open>buildServer\<close>, and after the instrumentation of the HTTP mode.\<close>

definition program_registry :: registry where
  "program_registry = (case NewUpstreamMetrics [] of None \<Rightarrow> [] | Some (u, r) \<Rightarrow>
     (case NewMetrics r of None \<Rightarrow> [] | Some (m, r') \<Rightarrow> r'))"

lemma program_registry:
  "\<exists>u r m. NewUpstreamMetrics [] = Some (u, r) \<and> NewMetrics r = Some (m, program_registry)"
proof -
  have "NewUpstreamMetrics [] \<noteq> None" "NewMetrics (snd (the (NewUpstreamMetrics []))) \<noteq> None" by code_simp+
  then show ?thesis by (auto simp: program_registry_def)
qed

lemma program_registry_names:
  "registered program_registry = [''mcp_searxng_upstream_requests_total'', ''mcp_searxng_upstream_duration_seconds'',
     ''mcp_tool_requests_total'', ''mcp_tool_duration_seconds'', ''mcp_active_requests'']"
  by code_simp

lemma InstrumentServer_registry:
  "\<exists>r. InstrumentServer program_registry = Some r
     \<and> registered r = registered program_registry
         @ [''http_request_duration_seconds'', ''http_requests_total'', ''http_response_size_bytes'']"
proof -
  have "case InstrumentServer program_registry of None \<Rightarrow> False | Some r \<Rightarrow> registered r = registered program_registry
         @ [''http_request_duration_seconds'', ''http_requests_total'', ''http_response_size_bytes'']" by code_simp
  then show ?thesis by (simp split: option.splits)
qed

end
