(* ===== verification/Config.thy ===== *)
theory Config
  imports GoUrl Logging GoValue
begin

text \<open>
  \<open>config/config.go\<close>: the configuration, its validation and its loading from the environment. Both
  libraries it uses are third-party: \<open>envconfig.Process\<close> is a parameter that reads the environment
  into a configuration or fails; of ozzo-validation the struct validator and the rules \<open>Required\<close> and
  \<open>Min\<close> are parameters with their documented behaviour (locale \<open>ozzo\<close>).
\<close>

section \<open>The configuration\<close>

record config =
  SearXNGURL :: string
  ListenAddr :: string
  InternalAddr :: string
  RateLimitGlobal :: go_int
  RateLimitPerClient :: go_int
  WriteTimeout :: int
  Mode :: string
  LogLevel :: "string option"
  LogFormat :: string
  LogFilename :: string

text \<open>The struct as reflection sees it; only \<open>SearXNGURL\<close> is annotated as a secret.\<close>

definition config_field :: "string \<Rightarrow> go_value \<Rightarrow> field_info \<times> go_value" where
  "config_field n v =
     (\<lparr>fi_name = n, fi_exported = True, fi_json = n, fi_omitempty = False, fi_secret = n = ''SearXNGURL''\<rparr>, v)"

definition reflect_config :: "config \<Rightarrow> go_value" where
  "reflect_config c = GStruct
     [config_field ''SearXNGURL'' (GString (SearXNGURL c)),
      config_field ''ListenAddr'' (GString (ListenAddr c)),
      config_field ''InternalAddr'' (GString (InternalAddr c)),
      config_field ''RateLimitGlobal'' (GInt (sint (RateLimitGlobal c))),
      config_field ''RateLimitPerClient'' (GInt (sint (RateLimitPerClient c))),
      config_field ''WriteTimeout'' (GDuration (WriteTimeout c)),
      config_field ''Mode'' (GString (Mode c)),
      config_field ''LogLevel'' (GPtr (map_option GString (LogLevel c))),
      config_field ''LogFormat'' (GString (LogFormat c)),
      config_field ''LogFilename'' (GString (LogFilename c))]"

section \<open>The rules\<close>

text \<open>One constructor for each error the rules return; \<open>RuleError\<close> is an error of a library rule.\<close>

datatype config_error =
    RuleError string
  | ModeError string
  | LoggingError logger_error
  | NotPositive int
  | URLParseError
  | SchemeError string
  | NoHost

text \<open>The rules receive the field's own type, so the assertions on the dynamic type succeed.\<close>

definition validateMode :: "string \<Rightarrow> config_error option" where
  "validateMode s = (if s \<noteq> ''http'' \<and> s \<noteq> ''stdio'' then Some (ModeError s) else None)"

definition validateLogLevel :: "string option \<Rightarrow> config_error option" where
  "validateLogLevel s =
     (case s of
        None \<Rightarrow> None
      | Some l \<Rightarrow> (case ParseLevel l of Inl e \<Rightarrow> Some (LoggingError e) | Inr _ \<Rightarrow> None))"

definition validateLogFormat :: "string \<Rightarrow> config_error option" where
  "validateLogFormat s = (case ParseFormat s of Inl e \<Rightarrow> Some (LoggingError e) | Inr _ \<Rightarrow> None)"

definition validatePositiveInt :: "go_int \<Rightarrow> config_error option" where
  "validatePositiveInt n = (if sint n < 1 then Some (NotPositive (sint n)) else None)"

definition validateURLScheme :: "(string \<Rightarrow> string option) \<Rightarrow> string \<Rightarrow> config_error option" where
  "validateURLScheme hp s =
     (case url_Parse hp s of
        None \<Rightarrow> Some URLParseError
      | Some u \<Rightarrow> if Scheme u \<noteq> ''http'' \<and> Scheme u \<noteq> ''https'' then Some (SchemeError (Scheme u)) else None)"

definition validateURLHost :: "(string \<Rightarrow> string option) \<Rightarrow> string \<Rightarrow> config_error option" where
  "validateURLHost hp s =
     (case url_Parse hp s of
        None \<Rightarrow> Some URLParseError
      | Some u \<Rightarrow> if Host u = '''' then Some NoHost else None)"

section \<open>Validation\<close>

text \<open>What the code relies on: a struct is valid when every rule of every field is, \<open>Required\<close> rejects
  the empty value, \<open>Min\<close> rejects what is below the bound, the empty value excepted.\<close>

locale ozzo =
  fixes ValidateStruct :: "(string \<times> config_error option list) list \<Rightarrow> 'v option"
    and Required :: "string \<Rightarrow> config_error option"
    and MinRule :: "int \<Rightarrow> int \<Rightarrow> config_error option"
  assumes struct_ok: "ValidateStruct fs = None \<longleftrightarrow> list_all (\<lambda>(n, rs). list_all (\<lambda>r. r = None) rs) fs"
    and required_ok: "Required s = None \<longleftrightarrow> s \<noteq> ''''"
    and min_ok: "MinRule b n = None \<longleftrightarrow> n = 0 \<or> b \<le> n"

definition validate ::
  "((string \<times> config_error option list) list \<Rightarrow> 'v option) \<Rightarrow> (string \<Rightarrow> config_error option)
     \<Rightarrow> (int \<Rightarrow> int \<Rightarrow> config_error option) \<Rightarrow> (string \<Rightarrow> string option) \<Rightarrow> config \<Rightarrow> 'v option" where
  "validate ValidateStruct Required MinRule hp c = ValidateStruct
     [(''SearXNGURL'', [Required (SearXNGURL c), validateURLScheme hp (SearXNGURL c), validateURLHost hp (SearXNGURL c)]),
      (''RateLimitGlobal'', [validatePositiveInt (RateLimitGlobal c)]),
      (''RateLimitPerClient'', [validatePositiveInt (RateLimitPerClient c)]),
      (''WriteTimeout'', [MinRule 0 (WriteTimeout c)]),
      (''Mode'', [validateMode (Mode c)]),
      (''LogLevel'', [validateLogLevel (LogLevel c)]),
      (''LogFormat'', [validateLogFormat (LogFormat c)])]"

definition Validate ::
  "((string \<times> config_error option list) list \<Rightarrow> 'v option) \<Rightarrow> (string \<Rightarrow> config_error option)
     \<Rightarrow> (int \<Rightarrow> int \<Rightarrow> config_error option) \<Rightarrow> (string \<Rightarrow> string option) \<Rightarrow> config \<Rightarrow> 'v option" where
  "Validate vs req mn hp c = validate vs req mn hp c"

section \<open>Loading\<close>

type_synonym environ = "string \<Rightarrow> string option"

definition Getenv :: "environ \<Rightarrow> string \<Rightarrow> string" where
  "Getenv env k = (case env k of None \<Rightarrow> '''' | Some v \<Rightarrow> v)"

definition legacyMetricsAddr :: string where
  "legacyMetricsAddr = ''PROMETHEUS_METRICS_ADDR''"

definition legacy_shim :: "environ \<Rightarrow> config \<Rightarrow> config" where
  "legacy_shim env cfg =
     (if Getenv env ''INTERNAL_ADDR'' = '''' then
        (if Getenv env legacyMetricsAddr \<noteq> '''' then cfg\<lparr>InternalAddr := Getenv env legacyMetricsAddr\<rparr> else cfg)
      else cfg)"

text \<open>The error is that of the environment (\<open>config: \<close>) or of the validation (\<open>config validation: \<close>).\<close>

definition Load ::
  "((string \<times> config_error option list) list \<Rightarrow> 'v option) \<Rightarrow> (string \<Rightarrow> config_error option)
     \<Rightarrow> (int \<Rightarrow> int \<Rightarrow> config_error option) \<Rightarrow> (string \<Rightarrow> string option) \<Rightarrow> (environ \<Rightarrow> err + config)
     \<Rightarrow> environ \<Rightarrow> (err + 'v) + config" where
  "Load vs req mn hp process env =
     (case process env of
        Inl e \<Rightarrow> Inl (Inl e)
      | Inr cfg0 \<Rightarrow>
          let cfg = legacy_shim env cfg0 in
          case validate vs req mn hp cfg of
            Some e \<Rightarrow> Inl (Inr e)
          | None \<Rightarrow> Inr cfg)"

section \<open>Well-formed configurations\<close>

text \<open>What the rest of the program may assume.\<close>

definition web_url :: "(string \<Rightarrow> string option) \<Rightarrow> string \<Rightarrow> bool" where
  "web_url hp s \<longleftrightarrow>
     (case url_Parse hp s of
        None \<Rightarrow> False
      | Some u \<Rightarrow> (Scheme u = ''http'' \<or> Scheme u = ''https'') \<and> Host u \<noteq> '''')"

definition known_level :: "string \<Rightarrow> bool" where
  "known_level l \<longleftrightarrow> ToLower l \<in> set [''debug'', ''info'', ''warn'', ''warning'', ''error'', ''fatal'', ''panic'']"

definition valid_config :: "(string \<Rightarrow> string option) \<Rightarrow> config \<Rightarrow> bool" where
  "valid_config hp c \<longleftrightarrow>
     SearXNGURL c \<noteq> '''' \<and> web_url hp (SearXNGURL c)
     \<and> 1 \<le> sint (RateLimitGlobal c) \<and> 1 \<le> sint (RateLimitPerClient c) \<and> 0 \<le> WriteTimeout c
     \<and> (Mode c = ''http'' \<or> Mode c = ''stdio'')
     \<and> (case LogLevel c of None \<Rightarrow> True | Some l \<Rightarrow> known_level l)
     \<and> ToLower (LogFormat c) \<in> set ['''', ''text'', ''json'']"

lemma ParseLevel_known: "(\<exists>l. ParseLevel s = Inr l) \<longleftrightarrow> known_level s"
  by (simp add: ParseLevel_def known_level_def Let_def)

lemma ParseFormat_known: "(\<exists>f. ParseFormat s = Inr f) \<longleftrightarrow> ToLower s \<in> set ['''', ''text'', ''json'']"
  by (auto simp: ParseFormat_def Let_def)

lemma rules_ok:
  "validateMode m = None \<longleftrightarrow> m = ''http'' \<or> m = ''stdio''"
  "validateLogLevel l = None \<longleftrightarrow> (case l of None \<Rightarrow> True | Some s \<Rightarrow> known_level s)"
  "validateLogFormat f = None \<longleftrightarrow> ToLower f \<in> set ['''', ''text'', ''json'']"
  "validatePositiveInt n = None \<longleftrightarrow> 1 \<le> sint n"
  "validateURLScheme hp u = None \<and> validateURLHost hp u = None \<longleftrightarrow> web_url hp u"
  unfolding ParseFormat_known [symmetric]
  by (auto simp: validateMode_def validateLogLevel_def validateLogFormat_def validatePositiveInt_def
      validateURLScheme_def validateURLHost_def web_url_def ParseLevel_known [symmetric]
      split: option.splits sum.splits if_splits)

context ozzo
begin

lemma validate_ok: "validate ValidateStruct Required MinRule hp c = None \<longleftrightarrow> valid_config hp c"
proof -
  have "validate ValidateStruct Required MinRule hp c = None \<longleftrightarrow>
      SearXNGURL c \<noteq> [] \<and> (validateURLScheme hp (SearXNGURL c) = None \<and> validateURLHost hp (SearXNGURL c) = None)
      \<and> validatePositiveInt (RateLimitGlobal c) = None \<and> validatePositiveInt (RateLimitPerClient c) = None
      \<and> (WriteTimeout c = 0 \<or> 0 \<le> WriteTimeout c)
      \<and> validateMode (Mode c) = None \<and> validateLogLevel (LogLevel c) = None \<and> validateLogFormat (LogFormat c) = None"
    by (simp add: validate_def struct_ok required_ok min_ok)
  also have "\<dots> \<longleftrightarrow> valid_config hp c" unfolding rules_ok valid_config_def by auto
  finally show ?thesis .
qed

lemma Load_ok:
  "Load ValidateStruct Required MinRule hp process env = Inr cfg \<longleftrightarrow>
     (\<exists>c0. process env = Inr c0 \<and> cfg = legacy_shim env c0 \<and> valid_config hp cfg)"
  unfolding Load_def validate_ok [symmetric] by (auto simp: Let_def split: sum.splits option.splits)

end

text \<open>A validator with that behaviour: the fields with their first failing rule.\<close>

fun first_error :: "config_error option list \<Rightarrow> config_error option" where
  "first_error [] = None"
| "first_error (None # rs) = first_error rs"
| "first_error (Some e # rs) = Some e"

fun field_errors :: "(string \<times> config_error option list) list \<Rightarrow> (string \<times> config_error) list" where
  "field_errors [] = []"
| "field_errors ((n, rs) # fs) = (case first_error rs of None \<Rightarrow> [] | Some e \<Rightarrow> [(n, e)]) @ field_errors fs"

definition errors_of :: "(string \<times> config_error option list) list \<Rightarrow> (string \<times> config_error) list option" where
  "errors_of fs = (if field_errors fs = [] then None else Some (field_errors fs))"

definition non_empty :: "string \<Rightarrow> config_error option" where
  "non_empty s = (if s = '''' then Some (RuleError ''cannot be blank'') else None)"

definition at_least :: "int \<Rightarrow> int \<Rightarrow> config_error option" where
  "at_least b n = (if n = 0 \<or> b \<le> n then None else Some (RuleError ''must be no less''))"

lemma first_error_None: "first_error rs = None \<longleftrightarrow> list_all (\<lambda>r. r = None) rs"
  by (induction rs rule: first_error.induct) auto

lemma field_errors_Nil: "field_errors fs = [] \<longleftrightarrow> list_all (\<lambda>(n, rs). list_all (\<lambda>r. r = None) rs) fs"
  by (induction fs rule: field_errors.induct) (auto simp: first_error_None [symmetric] split: option.split)

interpretation rules: ozzo errors_of non_empty at_least
  by unfold_locales (simp_all add: errors_of_def field_errors_Nil non_empty_def at_least_def)

lemma legacy_shim_valid: "valid_config hp (legacy_shim env c) = valid_config hp c"
  by (simp add: legacy_shim_def valid_config_def)

section \<open>Properties\<close>

definition demo_cfg :: config where
  "demo_cfg = \<lparr>SearXNGURL = ''http://u:pw@searx:8888'', ListenAddr = '':8080'', InternalAddr = '':8081'',
     RateLimitGlobal = 100, RateLimitPerClient = 10, WriteTimeout = 60000000000, Mode = ''stdio'',
     LogLevel = Some ''WARN'', LogFormat = ''text'', LogFilename = ''''\<rparr>"

lemma demo_url:
  "url_Parse simple_host ''http://u:pw@searx:8888'' =
     Some (empty_url\<lparr>Scheme := ''http'', User := Some (''u'', Some ''pw''), Host := ''searx:8888''\<rparr>)"
proof -
  have c: "cut_byte (CHR ''#'') ''http://u:pw@searx:8888'' = (''http'' @ ''://'' @ ''u:pw@searx:8888'' @ [], [])"
    by (simp add: cut_byte_def)
  have s: "split_query [] = ([], [], False)" by code_simp
  have a: "parseAuthority simple_host ''u:pw@searx:8888'' = Some (Some (''u'', Some ''pw''), ''searx:8888'')" by code_simp
  have p: "setPath u [] = Some (u\<lparr>Path := [], RawPath := []\<rparr>)" for u
    by (simp add: setPath_def url_escape_def)
  have "parse_core simple_host (''http'' @ ''://'' @ ''u:pw@searx:8888'' @ []) =
     Some (empty_url\<lparr>Scheme := ''http'', User := Some (''u'', Some ''pw''), Host := ''searx:8888''\<rparr>)"
    using parse_core_authority [of "''http''" "''u:pw@searx:8888''" "[]", OF _ _ _ s, of simple_host]
    by (simp add: http_scheme_def authority_chars_def path_or_query_def ctl_byte_def a p empty_url_def)
  then show ?thesis by (simp only: url_Parse_def c Let_def prod.case option.case if_True simp_thms)
qed

lemma demo_cfg_valid:
  "valid_config simple_host demo_cfg" "valid_config simple_host (demo_cfg\<lparr>Mode := ''http''\<rparr>)"
  "\<not> valid_config simple_host (demo_cfg\<lparr>Mode := ''htpp''\<rparr>)"
proof -
  have l: "known_level ''WARN''" "ToLower ''text'' = ''text''" by code_simp+
  have "web_url simple_host (SearXNGURL demo_cfg)" by (simp add: web_url_def demo_cfg_def demo_url empty_url_def)
  then show "valid_config simple_host demo_cfg" "valid_config simple_host (demo_cfg\<lparr>Mode := ''http''\<rparr>)"
      "\<not> valid_config simple_host (demo_cfg\<lparr>Mode := ''htpp''\<rparr>)"
    using l by (simp_all add: valid_config_def demo_cfg_def)
qed

text \<open>C19. Validation accepts exactly the well-formed configurations: an http(s) URL with a host for
  SearXNG, positive rate limits, a non-negative write timeout, one of the two modes, and level and
  format that the logger knows, so what is accepted is what the other components assume.\<close>

theorem Validate_config:
  assumes "ozzo vs req mn"
  shows "(Validate vs req mn hp c = None) = valid_config hp c"
  unfolding Validate_def by (rule ozzo.validate_ok [OF assms])

lemma Validate_config_witness:
  "Validate errors_of non_empty at_least simple_host demo_cfg = None
   \<and> Validate errors_of non_empty at_least simple_host (demo_cfg\<lparr>Mode := ''htpp''\<rparr>) \<noteq> None"
  using Validate_config [OF rules.ozzo_axioms] demo_cfg_valid by blast

text \<open>C18. Loading yields only well-formed configurations, and every failure has its cause: the environment
  cannot be read, or what was read is not well-formed. The legacy variable for the internal address
  counts exactly when the current one is unset or empty, and nothing else of what was read is changed.\<close>

theorem Load_config:
  assumes "ozzo vs req mn"
  shows "case Load vs req mn hp process env of
      Inr cfg \<Rightarrow> valid_config hp cfg \<and> (\<exists>c0. process env = Inr c0 \<and> cfg = c0\<lparr>InternalAddr :=
          (if Getenv env ''INTERNAL_ADDR'' = '''' \<and> Getenv env ''PROMETHEUS_METRICS_ADDR'' \<noteq> ''''
           then Getenv env ''PROMETHEUS_METRICS_ADDR'' else InternalAddr c0)\<rparr>)
    | Inl (Inl e) \<Rightarrow> process env = Inl e
    | Inl (Inr v) \<Rightarrow> \<exists>c0. process env = Inr c0 \<and> \<not> valid_config hp c0"
proof (cases "process env")
  case (Inr c0)
  have "legacy_shim env c0 = c0\<lparr>InternalAddr :=
      (if Getenv env ''INTERNAL_ADDR'' = '''' \<and> Getenv env ''PROMETHEUS_METRICS_ADDR'' \<noteq> ''''
       then Getenv env ''PROMETHEUS_METRICS_ADDR'' else InternalAddr c0)\<rparr>"
    by (simp add: legacy_shim_def legacyMetricsAddr_def)
  then show ?thesis
    using Inr ozzo.validate_ok [OF assms, of hp "legacy_shim env c0"] legacy_shim_valid [of hp env c0]
    by (cases "validate vs req mn hp (legacy_shim env c0)") (simp_all add: Load_def)
qed (simp add: Load_def)

lemma Load_config_witness:
  "\<exists>cfg. Load errors_of non_empty at_least simple_host (\<lambda>_. Inr demo_cfg) [''PROMETHEUS_METRICS_ADDR'' \<mapsto> '':9090''] = Inr cfg
     \<and> InternalAddr cfg = '':9090''"
proof -
  let ?env = "[''PROMETHEUS_METRICS_ADDR'' \<mapsto> '':9090'']"
  show ?thesis
    using Load_config [OF rules.ozzo_axioms, where hp = simple_host and process = "\<lambda>_. Inr demo_cfg" and env = ?env] demo_cfg_valid(1)
    by (auto simp: Getenv_def split: sum.splits)
qed

end
