(* ===== verification/Slog.thy ===== *)
theory Slog
  imports Effects "HOL-Library.AList"
begin

text \<open>
  \<open>logging/slog.go\<close>: the \<open>slog.Handler\<close> through which the MCP SDK logs into the program's logger. An
  attribute's value is a plain value, a group of attributes, or a \<open>LogValuer\<close> with what its
  \<open>LogValue\<close> returns.
\<close>

section \<open>Records\<close>

datatype slog_value =
    SPlain log_value
  | SGroup "(string \<times> slog_value) list"
  | SValuer slog_value

type_synonym slog_attr = "string \<times> slog_value"

text \<open>\<open>Resolve\<close> calls \<open>LogValue\<close> at most 100 times, and after the last call does not look at the result:
  it gives an error, whose text also names the type.\<close>

fun resolve_n :: "nat \<Rightarrow> slog_value \<Rightarrow> slog_value" where
  "resolve_n 0 v = SPlain (LStr ''LogValue called too many times'')"
| "resolve_n (Suc n) (SValuer v) = resolve_n n v"
| "resolve_n (Suc n) v = v"

definition Resolve :: "slog_value \<Rightarrow> slog_value" where
  "Resolve v = resolve_n 100 v"

lemma Resolve_plain [simp]: "Resolve (SPlain x) = SPlain x" "Resolve (SGroup as) = SGroup as"
  by (simp_all add: Resolve_def numeral_eq_Suc)

text \<open>So a value behind 99 calls is reached, and one behind 100 is not.\<close>

lemma resolve_n_valuers:
  "resolve_n n ((SValuer ^^ k) (SPlain x)) = (if k < n then SPlain x else SPlain (LStr ''LogValue called too many times''))"
proof (induction n arbitrary: k)
  case (Suc n)
  then show ?case by (cases k) simp_all
qed simp

text \<open>The levels of slog are integers around its four names.\<close>

definition slog_level_String :: "int \<Rightarrow> string" where
  "slog_level_String l =
     (let str = (\<lambda>base (v :: int). if v = 0 then base else base @ (if v > 0 then ''+'' else '''') @ Itoa v) in
      if l < 0 then str ''DEBUG'' (l + 4)
      else if l < 4 then str ''INFO'' l
      else if l < 8 then str ''WARN'' (l - 4)
      else str ''ERROR'' (l - 8))"

record slog_record =
  sg_Time :: "int option"
  sg_Level :: int
  sg_Message :: string
  sg_Attrs :: "slog_attr list"

section \<open>The handler\<close>

definition slogLevelToLogrus :: "int \<Rightarrow> level" where
  "slogLevelToLogrus l =
     (if l < 0 then DebugLevel else if l < 4 then InfoLevel else if l < 8 then WarnLevel else ErrorLevel)"

record attrEntry =
  ae_attr :: slog_attr
  ae_groups :: "string list"

record logrusHandler =
  lh_logger :: logger
  lh_attrs :: "attrEntry list"
  lh_groups :: "string list"

definition NewSlogHandler :: "logger \<Rightarrow> logrusHandler" where
  "NewSlogHandler lg = \<lparr>lh_logger = lg, lh_attrs = [], lh_groups = []\<rparr>"

definition handler_Enabled :: "logrusHandler \<Rightarrow> int \<Rightarrow> bool" where
  "handler_Enabled h l = IsLevelEnabled (lh_logger h) (slogLevelToLogrus l)"

definition WithAttrs :: "logrusHandler \<Rightarrow> slog_attr list \<Rightarrow> logrusHandler" where
  "WithAttrs h attrs =
     h\<lparr>lh_attrs := lh_attrs h @ map (\<lambda>a. \<lparr>ae_attr = a, ae_groups = lh_groups h\<rparr>) attrs\<rparr>"

definition WithGroup :: "logrusHandler \<Rightarrow> string \<Rightarrow> logrusHandler" where
  "WithGroup h name = (if name = '''' then h else h\<lparr>lh_groups := lh_groups h @ [name]\<rparr>)"

text \<open>\<open>strings.Join\<close> with a dot.\<close>

fun join_dots :: "string list \<Rightarrow> string" where
  "join_dots [] = ''''"
| "join_dots [s] = s"
| "join_dots (s # ss) = s @ ''.'' @ join_dots ss"

text \<open>\<open>logrus.Fields\<close> is a map: an association list under update.\<close>

type_synonym log_fields = "(string \<times> log_value) list"

lemma resolve_n_size: "resolve_n n v = SGroup sub \<Longrightarrow> size (SGroup sub) \<le> size v"
  by (induction n v rule: resolve_n.induct) auto

lemma Resolve_smaller [termination_simp]:
  "Resolve v = SGroup sub \<Longrightarrow> a \<in> set sub \<Longrightarrow> size (snd a) < size v"
proof -
  assume r: "Resolve v = SGroup sub" "a \<in> set sub"
  have "size (snd a) \<le> size_list (size_prod (\<lambda>x. 0) size) sub" 
    using r(2) by (induction sub) auto
  then have "size (snd a) < size (SGroup sub)" by simp
  also have "\<dots> \<le> size v" using resolve_n_size [of 100 v sub] r(1) by (simp add: Resolve_def)
  finally show ?thesis by simp
qed

function appendAttr :: "log_fields \<Rightarrow> slog_attr \<Rightarrow> string list \<Rightarrow> log_fields" where
  "appendAttr flds (k, v) groups =
     (case Resolve v of
        SGroup sub \<Rightarrow> foldl (\<lambda>f a. appendAttr f a (groups @ [k])) flds sub
      | SPlain x \<Rightarrow> AList.update (if groups \<noteq> [] then join_dots (groups @ [k]) else k) x flds
      | SValuer _ \<Rightarrow> flds)"
  by pat_completeness auto
termination
  by (relation "measure (\<lambda>(f, a, g). size (snd a))") (auto dest: Resolve_smaller)

declare appendAttr.simps [simp del]

text \<open>\<open>Handle\<close> never fails.\<close>

definition record_fields :: "logrusHandler \<Rightarrow> slog_record \<Rightarrow> log_fields" where
  "record_fields h r =
     (let f0 = foldl (\<lambda>f e. appendAttr f (ae_attr e) (ae_groups e)) [] (lh_attrs h);
          f1 = foldl (\<lambda>f a. appendAttr f a (lh_groups h)) f0 (sg_Attrs r);
          f2 = (case sg_Time r of Some t \<Rightarrow> AList.update ''slog_time'' (LTime t) f1 | None \<Rightarrow> f1)
      in AList.update ''slog_level'' (LStr (slog_level_String (sg_Level r))) f2)"

definition handler_Handle :: "logrusHandler \<Rightarrow> slog_record \<Rightarrow> 'u world \<Rightarrow> 'u world" where
  "handler_Handle h r w =
     log_with (lh_logger h) (slogLevelToLogrus (sg_Level r)) (sg_Message r) (record_fields h r) w"

section \<open>The reference\<close>

text \<open>What the handlers of \<open>log/slog\<close> promise: each attribute is a leaf under the path of the groups open
  when it was added and of the groups it is nested in; of two leaves with one name the later wins. In one
  point this follows the code and not slog's documentation: a group with an empty key is not inlined
  (\<open>empty_group_not_inlined\<close>).\<close>

datatype slog_op = Attrs "slog_attr list" | Group string

fun with_op :: "slog_op \<Rightarrow> logrusHandler \<Rightarrow> logrusHandler" where
  "with_op (Attrs as) h = WithAttrs h as"
| "with_op (Group n) h = WithGroup h n"

fun bound :: "string list \<Rightarrow> slog_op list \<Rightarrow> (string list \<times> slog_attr) list" where
  "bound gs [] = []"
| "bound gs (Attrs as # ops) = map (\<lambda>a. (gs, a)) as @ bound gs ops"
| "bound gs (Group n # ops) = bound (if n = '''' then gs else gs @ [n]) ops"

fun open_groups :: "string list \<Rightarrow> slog_op list \<Rightarrow> string list" where
  "open_groups gs [] = gs"
| "open_groups gs (Attrs as # ops) = open_groups gs ops"
| "open_groups gs (Group n # ops) = open_groups (if n = '''' then gs else gs @ [n]) ops"

function leaves :: "string list \<Rightarrow> slog_attr \<Rightarrow> (string \<times> log_value) list" where
  "leaves gs (k, v) =
     (case Resolve v of
        SGroup sub \<Rightarrow> concat (map (leaves (gs @ [k])) sub)
      | SPlain x \<Rightarrow> [(join_dots (gs @ [k]), x)]
      | SValuer _ \<Rightarrow> [])"
  by pat_completeness auto
termination
  by (relation "measure (\<lambda>(g, a). size (snd a))") (auto dest: Resolve_smaller)

declare leaves.simps [simp del]

definition last_wins :: "(string \<times> log_value) list \<Rightarrow> string \<rightharpoonup> log_value" where
  "last_wins kvs = map_of (rev kvs)"

section \<open>Agreement\<close>

lemma foldl_update: "map_of (foldl (\<lambda>f (k, v). AList.update k v f) f kvs) = map_of f ++ map_of (rev kvs)"
  by (induction kvs arbitrary: f) (auto simp: update_conv' map_add_def fun_eq_iff split: option.split)

lemma join_key: "(if gs \<noteq> [] then join_dots (gs @ [k]) else k) = join_dots (gs @ [k])"
  by simp

lemma appendAttr_leaves: "appendAttr f a gs = foldl (\<lambda>f (k, v). AList.update k v f) f (leaves gs a)"
proof (induction f a gs rule: appendAttr.induct)
  case (1 f k v gs)
  show ?case
  proof (cases "Resolve v")
    case (SGroup sub)
    have "foldl (\<lambda>f a. appendAttr f a (gs @ [k])) f' as
        = foldl (\<lambda>f (k, v). AList.update k v f) f' (concat (map (leaves (gs @ [k])) as))"
      if "set as \<subseteq> set sub" for f' as
      using that 1 [OF SGroup] by (induction as arbitrary: f') auto
    from this [of sub f] show ?thesis using SGroup by (simp add: appendAttr.simps leaves.simps)
  qed (simp_all add: appendAttr.simps leaves.simps)
qed

lemma foldl_appendAttr:
  "foldl (\<lambda>f x. appendAttr f (at x) (gr x)) f xs
    = foldl (\<lambda>f (k, v). AList.update k v f) f (concat (map (\<lambda>x. leaves (gr x) (at x)) xs))"
  by (induction xs arbitrary: f) (simp_all add: appendAttr_leaves)

lemma with_ops:
  "lh_attrs (fold with_op ops h) = lh_attrs h @ map (\<lambda>(gs, a). \<lparr>ae_attr = a, ae_groups = gs\<rparr>) (bound (lh_groups h) ops)
   \<and> lh_groups (fold with_op ops h) = open_groups (lh_groups h) ops
   \<and> lh_logger (fold with_op ops h) = lh_logger h"
  by (induction "lh_groups h" ops arbitrary: h rule: bound.induct) (auto simp: WithAttrs_def WithGroup_def comp_def)

lemma empty_group_not_inlined:
  "appendAttr [] ([], SGroup [(''k'', SPlain x)]) [''g''] = [(''g..k'', x)]"
  by (simp add: appendAttr.simps)

section \<open>Properties\<close>

text \<open>C23. The handler agrees with the reference on every record, through any sequence of \<open>WithAttrs\<close> and
  \<open>WithGroup\<close>: a field is the last attribute bound to its dotted path, where a group prefixes only what
  was added after it was opened, nesting included, and the record's level and time override attributes
  of those names; the entry has the record's message and the level that slog's corresponds to, and is
  written exactly when the handler reports that level as enabled.\<close>

theorem slog_handler_refines:
  "\<exists>flds. handler_Handle (fold with_op ops (NewSlogHandler lg)) r w
        = (if handler_Enabled (fold with_op ops (NewSlogHandler lg)) (sg_Level r)
           then w\<lparr>logs := logs w @ [\<lparr>le_output = lg_output lg, le_level = slogLevelToLogrus (sg_Level r),
              le_msg = sg_Message r, le_fields = flds\<rparr>]\<rparr>
           else w)
    \<and> map_of flds = last_wins
        (concat (map (\<lambda>(gs, a). leaves gs a) (bound [] ops @ map (\<lambda>a. (open_groups [] ops, a)) (sg_Attrs r)))
         @ (case sg_Time r of Some t \<Rightarrow> [(''slog_time'', LTime t)] | None \<Rightarrow> [])
         @ [(''slog_level'', LStr (slog_level_String (sg_Level r)))])"
proof -
  let ?h = "fold with_op ops (NewSlogHandler lg)"
  note h = with_ops [of ops "NewSlogHandler lg", unfolded NewSlogHandler_def logrusHandler.simps, folded NewSlogHandler_def]
  let ?attrs = "concat (map (\<lambda>(gs, a). leaves gs a) (bound [] ops)) @ concat (map (leaves (open_groups [] ops)) (sg_Attrs r))"
  have "record_fields ?h r = foldl (\<lambda>f (k, v). AList.update k v f) []
      (?attrs @ (case sg_Time r of Some t \<Rightarrow> [(''slog_time'', LTime t)] | None \<Rightarrow> [])
         @ [(''slog_level'', LStr (slog_level_String (sg_Level r)))])"
    using h foldl_appendAttr [of "\<lambda>a. a" "\<lambda>_. open_groups [] ops"]
    by (simp add: record_fields_def foldl_appendAttr comp_def case_prod_unfold split: option.split)
  then have "map_of (record_fields ?h r) = last_wins
      (?attrs @ (case sg_Time r of Some t \<Rightarrow> [(''slog_time'', LTime t)] | None \<Rightarrow> [])
         @ [(''slog_level'', LStr (slog_level_String (sg_Level r)))])"
    by (simp only: foldl_update last_wins_def map_of.simps(1)) simp
  then show ?thesis using h
    by (intro exI [of _ "record_fields ?h r"])
      (simp add: handler_Handle_def handler_Enabled_def log_with_def comp_def case_prod_unfold)
qed

end
