(* ===== verification/Server.thy ===== *)
theory Server
  imports Registration Observability Config Slog
begin

text \<open>
  \<open>cmd/server/main.go\<close>: the composition root. Start-up (configuration, mode flag, logger), the shared
  dependencies, the HTTP handler with its rate limits, the listeners and servers of the two modes, and
  shutdown. Parameters: the libraries of \<open>Config\<close>, the opening of the log file, the results of
  \<open>net.Listen\<close>, the exchange of one upstream request for given client settings, the names of the Go
  runtime's metrics, and how the MCP server runs on a transport and the HTTP servers until the wait
  ends. A signal that arrives while a shutdown is already running is left out.
\<close>

section \<open>Constants\<close>

definition seconds :: "int \<Rightarrow> int" where
  "seconds n = n * 1000000000"

definition burstMultiplier :: go_int where
  "burstMultiplier = 2"

definition shutdownTimeout :: int where
  "shutdownTimeout = seconds 30"

text \<open>What the linker sets at build time.\<close>

record build_info =
  bi_appName :: string
  bi_version :: string
  bi_commit :: string
  bi_date :: string

definition dev_build :: build_info where
  "dev_build = \<lparr>bi_appName = ''mcp-searxng'', bi_version = ''dev'', bi_commit = ''none'', bi_date = ''unknown''\<rparr>"

section \<open>Start-up\<close>

text \<open>\<open>main\<close> up to \<open>Run\<close>: what is fatal, or the configuration and the logger.\<close>

datatype ('e, 'v) fatal = LoadFailed "'e + 'v" | InvalidConfig 'v | LoggerFailed logger_error

definition main_startup ::
  "((string \<times> config_error option list) list \<Rightarrow> 'v option) \<Rightarrow> (string \<Rightarrow> config_error option)
     \<Rightarrow> (int \<Rightarrow> int \<Rightarrow> config_error option) \<Rightarrow> (string \<Rightarrow> string option) \<Rightarrow> (environ \<Rightarrow> err + config)
     \<Rightarrow> (string \<Rightarrow> string option) \<Rightarrow> environ \<Rightarrow> string \<Rightarrow> (err, 'v) fatal + config \<times> logger" where
  "main_startup vs req mn hp process opener env modeFlag =
     (case Load vs req mn hp process env of
        Inl e \<Rightarrow> Inl (LoadFailed e)
      | Inr cfg0 \<Rightarrow>
          let cfg = (if modeFlag \<noteq> '''' then cfg0\<lparr>Mode := modeFlag\<rparr> else cfg0) in
          case Validate vs req mn hp cfg of
            Some v \<Rightarrow> Inl (InvalidConfig v)
          | None \<Rightarrow>
              (case New opener \<lparr>opt_Mode = Mode cfg, opt_Level = LogLevel cfg, opt_Format = LogFormat cfg,
                  opt_Filename = LogFilename cfg\<rparr> of
                 Inl e \<Rightarrow> Inl (LoggerFailed e)
               | Inr lg \<Rightarrow> Inr (cfg, lg)))"

section \<open>Shared dependencies\<close>

record resty_settings =
  rt_MaxIdleConns :: int
  rt_IdleConnTimeout :: int
  rt_Timeout :: int
  rt_FollowRedirects :: bool
  rt_UserAgent :: string

definition resty_config :: "build_info \<Rightarrow> resty_settings" where
  "resty_config bi =
     \<lparr>rt_MaxIdleConns = 10, rt_IdleConnTimeout = seconds 90, rt_Timeout = seconds 30, rt_FollowRedirects = False,
      rt_UserAgent = bi_appName bi @ ''/'' @ bi_version bi @ '' (https://github.com/teran/mcp-searxng)''\<rparr>"

text \<open>The MCP server: its name and version, the logger the SDK writes to, what it tells of itself, its tools
  and resources; with the metrics registry. (Closing the upstream client at the end is left out.)\<close>

record 'u serverDeps =
  sd_Name :: string
  sd_Version :: string
  sd_Logger :: logrusHandler
  sd_tools :: "'u mcp_server"
  sd_resources :: "(guidance_resource \<times> guidance_contents) list"
  sd_instructions :: string
  sd_promRegistry :: registry

type_synonym 'u transport = "resty_settings \<Rightarrow> http_get \<Rightarrow> 'u world \<Rightarrow> exchange \<times> 'u world"

definition search_service_of ::
  "(string \<Rightarrow> string option) \<Rightarrow> (string \<Rightarrow> err) \<Rightarrow> (string \<Rightarrow> err) \<Rightarrow> build_info \<Rightarrow> 'u transport \<Rightarrow> config
     \<Rightarrow> 'u search_service" where
  "search_service_of hp ue je bi tr cfg =
     NewSearchService (client_Search hp ue je (SetMetrics (NewClient (SearXNGURL cfg) (tr (resty_config bi)))))"

text \<open>\<open>buildServer\<close>; \<open>Inl\<close> is the panic of a registration.\<close>

definition duplicate_metric :: string where
  "duplicate_metric = ''duplicate metrics collector registration attempted''"

definition buildServer ::
  "(string \<Rightarrow> string option) \<Rightarrow> (string \<Rightarrow> err) \<Rightarrow> (string \<Rightarrow> err) \<Rightarrow> build_info \<Rightarrow> 'u transport \<Rightarrow> config
     \<Rightarrow> logger \<Rightarrow> string \<Rightarrow> 'u world \<Rightarrow> (string + 'u serverDeps) \<times> 'u world" where
  "buildServer hp ue je bi tr cfg lg source w =
     (case NewUpstreamMetrics [] of
        None \<Rightarrow> (Inl duplicate_metric, w)
      | Some (_, reg1) \<Rightarrow>
     (case NewMetrics reg1 of
        None \<Rightarrow> (Inl duplicate_metric, w)
      | Some (_, reg2) \<Rightarrow>
     (case RegisterToolsWithSource hp [] True lg (search_service_of hp ue je bi tr cfg) source w of
        (Inl v, w') \<Rightarrow> (Inl v, w')
      | (Inr s, w') \<Rightarrow>
          (Inr \<lparr>sd_Name = ''mcp-searxng'', sd_Version = bi_version bi, sd_Logger = NewSlogHandler lg, sd_tools = s, sd_resources = AddGuidanceResources [], sd_instructions = ServerInstructions,
             sd_promRegistry = reg2\<rparr>, w'))))"

text \<open>The field \<open>SearXNGURL\<close> of the redacted copy.\<close>

fun first_string :: "go_value \<Rightarrow> string" where
  "first_string (GStruct ((t, GString s) # fs)) = s"
| "first_string _ = ''''"

definition logStartupBanner ::
  "(string \<Rightarrow> string option) \<Rightarrow> build_info \<Rightarrow> logger \<Rightarrow> config \<Rightarrow> 'u world \<Rightarrow> 'u world" where
  "logStartupBanner hp bi lg cfg w =
     (let redacted = first_string (RedactStruct hp (reflect_config cfg));
          w1 = log_with lg InfoLevel (''Starting '' @ bi_appName bi @ ''/'' @ bi_version bi @ '' (commit: '' @ bi_commit bi
                 @ ''; built at '' @ bi_date bi @ '')'') [] w;
          w2 = log_with lg InfoLevel (''SearXNG URL: '' @ SanitizeLog redacted) [] w1
      in log_with lg InfoLevel (''Version: '' @ bi_version bi @ '', commit: '' @ bi_commit bi @ '', built: '' @ bi_date bi) [] w2)"

section \<open>The HTTP handler\<close>

text \<open>\<open>rate.Limit(n)\<close> is the float nearest to \<open>n\<close>, which is \<open>n\<close> itself up to \<open>2 ^ 53\<close>; the bursts wrap.\<close>

definition http_limits :: "config \<Rightarrow> rate_limiter_config" where
  "http_limits cfg =
     \<lparr>GlobalLimit = of_int (sint (RateLimitGlobal cfg)),
      GlobalBurst = RateLimitGlobal cfg * burstMultiplier,
      PerClientLimit = of_int (sint (RateLimitPerClient cfg)),
      PerClientBurst = RateLimitPerClient cfg * burstMultiplier\<rparr>"

definition buildHTTPHandler ::
  "(rat \<Rightarrow> go_int \<Rightarrow> 'l) \<Rightarrow> ('l \<Rightarrow> int \<Rightarrow> bool \<times> 'l) \<Rightarrow> logger \<Rightarrow> config \<Rightarrow> ('l, 'u) http_handler
     \<Rightarrow> ('l, 'u) http_handler \<times> 'l rate_limiter" where
  "buildHTTPHandler new_lim allow_lim lg cfg mcpHandler =
     (http_chain new_lim allow_lim lg mcpHandler, NewRateLimiter new_lim (http_limits cfg))"

text \<open>An \<open>http.Server\<close> as it is configured; \<open>0\<close> is no timeout. The routes of the main server, and the
  internal server of the two modes.\<close>

record 'h server_config =
  sc_Addr :: string
  sc_Handler :: 'h
  sc_ReadHeaderTimeout :: int
  sc_ReadTimeout :: int
  sc_WriteTimeout :: int
  sc_IdleTimeout :: int

datatype main_target = ToProbe | ToChain

definition main_mux :: "(mux_pattern \<times> main_target) list" where
  "main_mux = [((Some ''GET'', ''/healthz''), ToProbe), ((None, ''/''), ToChain)]"

definition newMainServer :: "config \<Rightarrow> 'h \<Rightarrow> 'h server_config" where
  "newMainServer cfg handler =
     \<lparr>sc_Addr = ListenAddr cfg, sc_Handler = handler, sc_ReadHeaderTimeout = seconds 30, sc_ReadTimeout = seconds 60,
      sc_WriteTimeout = WriteTimeout cfg, sc_IdleTimeout = seconds 120\<rparr>"

definition newMetricsServer :: "string \<Rightarrow> 'h \<Rightarrow> (mux_pattern \<times> 'h) list server_config" where
  "newMetricsServer addr handler =
     \<lparr>sc_Addr = addr, sc_Handler = [((Some ''GET'', ''/metrics''), handler)], sc_ReadHeaderTimeout = seconds 10,
      sc_ReadTimeout = 0, sc_WriteTimeout = seconds 30, sc_IdleTimeout = seconds 60\<rparr>"

definition stdio_metricsServer :: "config \<Rightarrow> 'h \<Rightarrow> (mux_pattern \<times> 'h) list server_config" where
  "stdio_metricsServer cfg handler =
     \<lparr>sc_Addr = InternalAddr cfg, sc_Handler = [((None, ''/''), handler)], sc_ReadHeaderTimeout = seconds 10,
      sc_ReadTimeout = 0, sc_WriteTimeout = seconds 30, sc_IdleTimeout = seconds 60\<rparr>"

definition internal_route :: "(mux_pattern \<times> (mux_pattern \<times> endpoint) list) list \<Rightarrow> string \<Rightarrow> string \<Rightarrow> endpoint route" where
  "internal_route outer meth path =
     (case mux_route outer meth path of
        Handler inner \<Rightarrow> mux_route inner meth path
      | RedirectTo p \<Rightarrow> RedirectTo p
      | MethodNotAllowed \<Rightarrow> MethodNotAllowed
      | NotFound \<Rightarrow> NotFound)"

section \<open>Shutdown\<close>

text \<open>
  An \<open>http.Server\<close> as shutdown sees it: whether it accepts connections, and how long each request in
  flight still needs, in nanoseconds. The deadline of a context: it is done, with its error, or will be
  in some time. A signal is the time, from now, at which the program's context is cancelled, if it
  ever is; a time that is not positive has passed.
\<close>

record http_server =
  sv_open :: bool
  sv_inflight :: "int list"

datatype deadline = Expired err | After int err

type_synonym signal = "int option"

definition came :: "signal \<Rightarrow> int \<Rightarrow> bool" where
  "came sig t \<longleftrightarrow> (case sig of None \<Rightarrow> False | Some c \<Rightarrow> c \<le> t)"

definition WithTimeout :: "signal \<Rightarrow> int \<Rightarrow> deadline" where
  "WithTimeout sig t =
     (case sig of
        None \<Rightarrow> After t (ErrText ''context deadline exceeded'')
      | Some c \<Rightarrow>
          if c \<le> 0 then Expired (ErrText ''context canceled'')
          else if c < t then After c (ErrText ''context canceled'')
          else After t (ErrText ''context deadline exceeded''))"

definition run_for :: "int \<Rightarrow> http_server \<Rightarrow> http_server" where
  "run_for t s = s\<lparr>sv_inflight := map (\<lambda>d. d - t) (filter (\<lambda>d. t < d) (sv_inflight s))\<rparr>"

definition deadline_after :: "int \<Rightarrow> deadline \<Rightarrow> deadline" where
  "deadline_after e dl =
     (case dl of
        Expired x \<Rightarrow> Expired x
      | After t x \<Rightarrow> if t \<le> e then Expired x else After (t - e) x)"

text \<open>\<open>Server.Shutdown\<close>: no further connections; it returns when the server is idle, or with the
  context's error when that is done first. With the error it reports the time it took. (It notices
  idleness by polling, at most half a second late.)\<close>

definition longest :: "int list \<Rightarrow> int" where
  "longest ds = foldr max ds 0"

definition Shutdown :: "deadline \<Rightarrow> http_server \<Rightarrow> err option \<times> int \<times> http_server" where
  "Shutdown dl s0 =
     (let s = s0\<lparr>sv_open := False\<rparr>; m = longest (sv_inflight s) in
      if sv_inflight s = [] then (None, 0, s)
      else case dl of
             Expired e \<Rightarrow> (Some e, 0, s)
           | After t e \<Rightarrow> if m \<le> t then (None, m, run_for m s) else (Some e, t, run_for t s))"

definition log_failure :: "logger \<Rightarrow> string \<Rightarrow> err option \<Rightarrow> 'u world \<Rightarrow> 'u world" where
  "log_failure lg what e w = (case e of None \<Rightarrow> w | Some x \<Rightarrow> log_with lg ErrorLevel (what @ err_msg x) [] w)"

record ('l, 'u) shutdown_result =
  sh_error :: "err option"
  sh_time :: int
  sh_main :: http_server
  sh_metrics :: http_server
  sh_limiter :: "'l rate_limiter"
  sh_world :: "'u world"

text \<open>\<open>woken\<close> is the server error that ended the wait, \<open>None\<close> for the signal; then the context is
  cancelled, and otherwise the signal may have come too, or may come while the servers shut down. The
  outer \<open>None\<close> is the panic of stopping the limiter twice.\<close>

definition awaitAndShutdown ::
  "logger \<Rightarrow> err option \<Rightarrow> signal \<Rightarrow> http_server \<Rightarrow> http_server \<Rightarrow> 'l rate_limiter \<Rightarrow> 'u world
     \<Rightarrow> ('l, 'u) shutdown_result option" where
  "awaitAndShutdown lg woken sig mainServer metricsServer rl w =
     (let w0 = (case woken of
                  None \<Rightarrow> log_with lg InfoLevel ''Received shutdown signal, shutting down...'' [] w
                | Some e \<Rightarrow> log_with lg ErrorLevel (''Server error: '' @ err_msg e) [] w);
          dl = WithTimeout (if woken = None then Some 0 else sig) shutdownTimeout
      in case Stop rl of
           None \<Rightarrow> None
         | Some rl' \<Rightarrow>
             let (e1, t1, main1) = Shutdown dl mainServer;
                 w1 = log_failure lg ''Main server shutdown error: '' e1 w0;
                 (e2, t2, metrics2) = Shutdown (deadline_after t1 dl) (run_for t1 metricsServer);
                 w2 = log_failure lg ''Metrics server shutdown error: '' e2 w1
             in Some \<lparr>sh_error = None, sh_time = t1 + t2, sh_main = run_for t2 main1, sh_metrics = metrics2,
                      sh_limiter = rl', sh_world = log_with lg InfoLevel ''Server stopped gracefully'' [] w2\<rparr>)"

section \<open>The two modes\<close>

definition serve_start :: "logger \<Rightarrow> string \<Rightarrow> string \<Rightarrow> 'u world \<Rightarrow> 'u world" where
  "serve_start lg name addr w = log_with lg InfoLevel (''Starting '' @ name @ '' on '' @ SanitizeLog addr) [] w"

text \<open>\<open>serve\<close>: what \<open>Serve\<close> returned, unless it is the sentinel of a shutdown (\<open>None\<close>), goes to the
  channel, which has room for it.\<close>

definition serve_end :: "err option \<Rightarrow> err list \<Rightarrow> err list" where
  "serve_end e errCh = (case e of None \<Rightarrow> errCh | Some x \<Rightarrow> errCh @ [x])"

text \<open>
  The stdio mode. \<open>session\<close> is how the MCP server ran on the transport: its error, the signal as seen from
  its end, the metrics server as it is then, and the world. The context of the shutdown is not
  cancelled by the signal, but a signal that comes before it is over still counts as the reason to
  stop. The goroutine's log line is put at its start.
\<close>

definition runStdio ::
  "(string \<Rightarrow> string option) \<Rightarrow> (string \<Rightarrow> err) \<Rightarrow> (string \<Rightarrow> err) \<Rightarrow> build_info \<Rightarrow> runtime \<Rightarrow> 'u transport
     \<Rightarrow> ('u serverDeps \<Rightarrow> (mux_pattern \<times> (mux_pattern \<times> endpoint) list) list server_config \<Rightarrow> 'u world
           \<Rightarrow> err option \<times> signal \<times> http_server \<times> 'u world)
     \<Rightarrow> config \<Rightarrow> logger \<Rightarrow> string \<Rightarrow> 'u world \<Rightarrow> string + err option \<times> http_server \<times> 'u world" where
  "runStdio hp ue je bi rt tr session cfg lg metricsAddr w =
     (case buildServer hp ue je bi tr cfg lg ''stdio'' w of
        (Inl v, w') \<Rightarrow> Inl v
      | (Inr deps, w1) \<Rightarrow>
          let w2 = logStartupBanner hp bi lg cfg w1 in
          case ObservabilityHandler rt (sd_promRegistry deps) True of
            None \<Rightarrow> Inl duplicate_metric
          | Some (_, metricsHandler) \<Rightarrow>
              let w3 = serve_start lg ''internal observability server'' metricsAddr w2;
                  (runErr, sig, metricsServer, w4) = session deps (stdio_metricsServer cfg metricsHandler) w3;
                  (e, t, metrics') = Shutdown (WithTimeout None shutdownTimeout) metricsServer;
                  w5 = log_failure lg ''Internal server shutdown error: '' e w4
              in if came sig t then Inr (None, metrics', log_with lg InfoLevel ''Server stopped gracefully'' [] w5)
                 else Inr (runErr, metrics', w5))"

text \<open>The HTTP mode. \<open>serving\<close> is how the two servers ran until the wait ended, the main one with its
  routes and the chain behind them.\<close>

definition runHTTP ::
  "(string \<Rightarrow> string option) \<Rightarrow> (string \<Rightarrow> err) \<Rightarrow> (string \<Rightarrow> err) \<Rightarrow> build_info \<Rightarrow> runtime \<Rightarrow> 'u transport
     \<Rightarrow> (rat \<Rightarrow> go_int \<Rightarrow> 'l) \<Rightarrow> ('l \<Rightarrow> int \<Rightarrow> bool \<times> 'l) \<Rightarrow> ('u serverDeps \<Rightarrow> ('l, 'u) http_handler)
     \<Rightarrow> ((mux_pattern \<times> main_target) list server_config
           \<Rightarrow> (mux_pattern \<times> (mux_pattern \<times> endpoint) list) list server_config
           \<Rightarrow> ('l, 'u) http_handler \<Rightarrow> ('l, 'u) http_state
           \<Rightarrow> err option \<times> signal \<times> http_server \<times> http_server \<times> ('l, 'u) http_state)
     \<Rightarrow> config \<Rightarrow> logger \<Rightarrow> string \<Rightarrow> string \<Rightarrow> 'u world \<Rightarrow> string + ('l, 'u) shutdown_result option" where
  "runHTTP hp ue je bi rt tr new_lim allow_lim mcpHandler serving cfg lg mainAddr metricsAddr w =
     (case buildServer hp ue je bi tr cfg lg ''http'' w of
        (Inl v, w') \<Rightarrow> Inl v
      | (Inr deps, w1) \<Rightarrow>
          let (handler, limiter) = buildHTTPHandler new_lim allow_lim lg cfg (mcpHandler deps) in
          case InstrumentServer (sd_promRegistry deps) of
            None \<Rightarrow> Inl duplicate_metric
          | Some reg1 \<Rightarrow>
              let w2 = logStartupBanner hp bi lg cfg w1 in
              case ObservabilityHandler rt reg1 False of
                None \<Rightarrow> Inl duplicate_metric
              | Some (_, metricsHandler) \<Rightarrow>
                  let w3 = serve_start lg ''mcp-searxng server'' mainAddr w2;
                      w4 = serve_start lg ''Prometheus metrics server'' metricsAddr w3;
                      (woken, sig, mainServer, metricsServer, st) =
                        serving (newMainServer cfg main_mux) (newMetricsServer (InternalAddr cfg) metricsHandler) handler
                          \<lparr>st_world = w4, st_limiter = limiter\<rparr>
                  in Inr (awaitAndShutdown lg woken sig mainServer metricsServer (st_limiter st) (st_world st)))"

section \<open>Running\<close>

text \<open>The result of \<open>Run\<close>: its error, and the listeners opened and closed, in order. \<open>listen_internal\<close>
  and \<open>listen_main\<close> are the outcomes of binding: an error or the address bound.\<close>

record 'u run_result =
  rr_error :: "err option"
  rr_opened :: "string list"
  rr_closed :: "string list"
  rr_world :: "'u world"

definition bindObservability :: "(string \<Rightarrow> err + string) \<Rightarrow> config \<Rightarrow> logger \<Rightarrow> 'u world \<Rightarrow> (err + string) \<times> 'u world" where
  "bindObservability listen cfg lg w =
     (case listen (InternalAddr cfg) of
        Inl e \<Rightarrow> (Inl (ErrWrap (''listen on '' @ InternalAddr cfg @ '': '') e), w)
      | Inr a \<Rightarrow> (Inr a, log_with lg InfoLevel (''Internal observability listener bound on '' @ SanitizeLog a) [] w))"

text \<open>\<open>stdio\<close> and \<open>http\<close> are the modes' runs from the bound addresses; \<open>None\<close> is a panic, which the
  deferred closing survives but \<open>Run\<close> does not.\<close>

definition Run ::
  "(string \<Rightarrow> err + string) \<Rightarrow> (string \<Rightarrow> err + string)
     \<Rightarrow> (string \<Rightarrow> 'u world \<Rightarrow> (err option \<times> 'u world) option)
     \<Rightarrow> (string \<Rightarrow> string \<Rightarrow> 'u world \<Rightarrow> (err option \<times> 'u world) option)
     \<Rightarrow> config \<Rightarrow> logger \<Rightarrow> 'u world \<Rightarrow> 'u run_result option" where
  "Run listen_internal listen_main stdio http cfg lg w =
     (case bindObservability listen_internal cfg lg w of
        (Inl e, w') \<Rightarrow> Some \<lparr>rr_error = Some e, rr_opened = [], rr_closed = [], rr_world = w'\<rparr>
      | (Inr internal, w1) \<Rightarrow>
          if Mode cfg = ''stdio'' then
            map_option (\<lambda>(e, w2). \<lparr>rr_error = e, rr_opened = [internal], rr_closed = [internal], rr_world = w2\<rparr>)
              (stdio internal w1)
          else
            (case listen_main (ListenAddr cfg) of
               Inl e \<Rightarrow>
                 Some \<lparr>rr_error = Some (ErrWrap (''listen on '' @ ListenAddr cfg @ '': '') e),
                   rr_opened = [internal], rr_closed = [internal], rr_world = w1\<rparr>
             | Inr main \<Rightarrow>
                 map_option (\<lambda>(e, w2). \<lparr>rr_error = e, rr_opened = [internal, main], rr_closed = [main, internal],
                     rr_world = w2\<rparr>)
                   (http main internal w1)))"

text \<open>The two runs, as \<open>Run\<close> calls them.\<close>

definition stdio_run where
  "stdio_run hp ue je bi rt tr session cfg lg internal w =
     (case runStdio hp ue je bi rt tr session cfg lg internal w of
        Inl v \<Rightarrow> None
      | Inr (e, s, w') \<Rightarrow> Some (e, w'))"

definition http_run where
  "http_run hp ue je bi rt tr new_lim allow_lim mcpHandler serving cfg lg main internal w =
     (case runHTTP hp ue je bi rt tr new_lim allow_lim mcpHandler serving cfg lg main internal w of
        Inl v \<Rightarrow> None
      | Inr None \<Rightarrow> None
      | Inr (Some sh) \<Rightarrow> Some (sh_error sh, sh_world sh))"

section \<open>Routes\<close>

lemma cleanPath_Cons: "\<exists>s. cleanPath p = CHR ''/'' # s"
proof -
  have c: "\<exists>s. path_Clean q = CHR ''/'' # s" for q
    by (cases "clean_elems [] (split_on (CHR ''/'') q)") (auto simp: path_Clean_def join_slash_def)
  have d: "\<exists>s. (if b then path_Clean q @ z else path_Clean q) = CHR ''/'' # s" for b q z
    using c [of q] by auto
  show ?thesis
  proof (cases "p = []")
    case False
    then show ?thesis unfolding cleanPath_def Let_def using d by (simp only: if_False)
  qed (simp add: cleanPath_def)
qed

lemma cleanPath_slash: "has_prefix (cleanPath p) ''/''"
  using cleanPath_Cons [of p] by (auto simp: has_prefix_def)

lemma not_slash_only: "has_prefix p ''/'' \<Longrightarrow> path_matches ''/'' p"
  by (simp add: path_matches_def ends_slash_def)

lemma main_route:
  "mux_route main_mux meth path =
     (if cleanPath path \<noteq> path then RedirectTo (cleanPath path)
      else if path = ''/healthz'' \<and> (meth = ''GET'' \<or> meth = ''HEAD'') then Handler ToProbe
      else Handler ToChain)"
proof -
  have b: "best_match meth p main_mux =
      (if p = ''/healthz'' \<and> (meth = ''GET'' \<or> meth = ''HEAD'') then Some ((Some ''GET'', ''/healthz''), ToProbe)
       else Some ((None, ''/''), ToChain))" if "has_prefix p ''/''" for p
    using not_slash_only [OF that]
    by (auto simp: main_mux_def pattern_matches_def method_matches_def path_matches_def [of "''/healthz''"] more_specific_def
        ends_slash_def)
  have c: "has_prefix (cleanPath path @ ''/'') ''/''" using cleanPath_Cons [of path] by (auto simp: has_prefix_def)
  have n: "\<not> exact_match (cleanPath path @ ''/'') (best_match meth (cleanPath path @ ''/'') main_mux)
      \<or> cleanPath path = []"
    unfolding b [OF c] by (auto simp: exact_match_def)
  have e: "cleanPath path \<noteq> []" using cleanPath_Cons [of path] by auto
  show ?thesis
    using n e b [OF cleanPath_slash [of path]] by (auto simp: mux_route_def Let_def)
qed

lemma observability_metrics: "meth = ''GET'' \<or> meth = ''HEAD'' \<Longrightarrow> mux_route (observability_mux b) meth ''/metrics'' = Handler Metrics"
  by (elim disjE; cases b; simp; code_simp)

definition metrics_mux_http :: "(mux_pattern \<times> (mux_pattern \<times> endpoint) list) list" where
  "metrics_mux_http = sc_Handler (newMetricsServer [] (observability_mux False))"

lemma metrics_mux_http: "metrics_mux_http = [((Some ''GET'', ''/metrics''), observability_mux False)]"
  by (simp add: metrics_mux_http_def newMetricsServer_def)

lemma metrics_outer:
  "(\<exists>h. mux_route metrics_mux_http meth path = Handler h) \<longleftrightarrow> path = ''/metrics'' \<and> (meth = ''GET'' \<or> meth = ''HEAD'')"
proof -
  have m: "best_match meth p metrics_mux_http =
      (if p = ''/metrics'' \<and> (meth = ''GET'' \<or> meth = ''HEAD'')
       then Some ((Some ''GET'', ''/metrics''), observability_mux False) else None)" for p
    by (auto simp: metrics_mux_http pattern_matches_def method_matches_def path_matches_def ends_slash_def)
  have c: "cleanPath ''/metrics'' = ''/metrics''" by code_simp
  have x: "\<not> exact_match (p @ ''/'') (best_match meth (p @ ''/'') metrics_mux_http)" for p
    unfolding m by (auto simp: exact_match_def)
  show ?thesis using x by (auto simp: mux_route_def Let_def m c)
qed

section \<open>How long shutdown takes\<close>

abbreviation shut :: "http_server \<Rightarrow> http_server" where
  "shut s \<equiv> s\<lparr>sv_open := False\<rparr>"

definition busy :: "http_server \<Rightarrow> bool" where
  "busy s \<longleftrightarrow> list_all (\<lambda>d. 0 < d) (sv_inflight s)"

lemma longest_nonneg [simp]: "0 \<le> longest ds"
  by (induction ds) (auto simp: longest_def)

lemma longest_simps [simp]: "longest [] = 0" "longest (d # ds) = max d (longest ds)"
  by (simp_all add: longest_def)

lemma longest_append: "longest (a @ b) = max (longest a) (longest b)"
  by (induction a) (auto simp: max_def)

lemma longest_run: "0 \<le> t \<Longrightarrow> longest (map (\<lambda>d. d - t) (filter (\<lambda>d. t < d) ds)) = max 0 (longest ds - t)"
  by (induction ds) auto

lemma run_for_add: "0 \<le> a \<Longrightarrow> 0 \<le> b \<Longrightarrow> run_for b (run_for a s) = run_for (a + b) s"
proof -
  assume ab: "0 \<le> a" "0 \<le> b"
  have "map (\<lambda>d. d - b) (filter (\<lambda>d. b < d) (map (\<lambda>d. d - a) (filter (\<lambda>d. a < d) ds)))
      = map (\<lambda>d. d - (a + b)) (filter (\<lambda>d. a + b < d) ds)" for ds
    using ab by (induction ds) auto
  then show ?thesis by (simp add: run_for_def)
qed

lemma run_for_0: "busy s \<Longrightarrow> run_for 0 s = s"
proof -
  have "list_all (\<lambda>d. 0 < d) ds \<Longrightarrow> map (\<lambda>d. d - 0) (filter (\<lambda>d. 0 < d) ds) = (ds :: int list)" for ds
    by (induction ds) auto
  then show "busy s \<Longrightarrow> run_for 0 s = s" by (cases s) (simp add: run_for_def busy_def)
qed

lemma run_for_closed: "run_for t (shut s) = shut (run_for t s)"
  by (simp add: run_for_def)

lemma busy_run_for: "busy (run_for t s)" and busy_closed [simp]: "busy (shut s) = busy s"
  by (auto simp: busy_def run_for_def list_all_iff)

lemma Shutdown_After:
  assumes "0 \<le> t" "busy s"
  shows "\<exists>e. Shutdown (After t x) s = (e, min t (longest (sv_inflight s)), shut (run_for (min t (longest (sv_inflight s))) s))"
proof (cases "sv_inflight s = []")
  case True
  then have "longest (sv_inflight s) = 0" by simp
  then show ?thesis using True assms run_for_0 [OF assms(2)] by (simp add: Shutdown_def)
next
  case False
  then show ?thesis using assms by (auto simp: Shutdown_def Let_def run_for_closed min_def)
qed

lemma Shutdown_Expired: "busy s \<Longrightarrow> \<exists>e. Shutdown (Expired x) s = (e, 0, shut s)"
  by (auto simp: Shutdown_def Let_def)

text \<open>Both servers under one context.\<close>

definition time_left :: "deadline \<Rightarrow> int" where
  "time_left dl = (case dl of Expired e \<Rightarrow> 0 | After t e \<Rightarrow> t)"

lemma Shutdown_both:
  assumes "busy m" "busy s" "0 \<le> time_left dl"
  shows "\<exists>e1 e2 t1 t2 m1 s2. Shutdown dl m = (e1, t1, m1)
    \<and> Shutdown (deadline_after t1 dl) (run_for t1 s) = (e2, t2, s2)
    \<and> t1 + t2 = min (time_left dl) (longest (sv_inflight m @ sv_inflight s))
    \<and> run_for t2 m1 = shut (run_for (t1 + t2) m) \<and> s2 = shut (run_for (t1 + t2) s)"
proof (cases dl)
  case (Expired x)
  obtain e1 where 1: "Shutdown dl m = (e1, 0, shut m)"
    using Shutdown_Expired [OF assms(1)] Expired by auto
  have "deadline_after 0 dl = dl" using Expired by (simp add: deadline_after_def)
  then obtain e2 where 2: "Shutdown (deadline_after 0 dl) (run_for 0 s) = (e2, 0, shut s)"
    using Shutdown_Expired [OF assms(2)] run_for_0 [OF assms(2)] Expired by auto
  show ?thesis using 1 2 Expired run_for_0 assms by (simp add: run_for_closed time_left_def)
next
  case (After t x)
  let ?a = "longest (sv_inflight m)" and ?b = "longest (sv_inflight s)"
  have t: "0 \<le> t" using assms(3) After by (simp add: time_left_def)
  define t1 where "t1 = min t ?a"
  have t1: "0 \<le> t1" "t1 \<le> t" using t by (auto simp: t1_def)
  obtain e1 where 1: "Shutdown dl m = (e1, t1, shut (run_for t1 m))"
    using Shutdown_After [OF t assms(1)] After by (auto simp: t1_def)
  have l: "longest (sv_inflight (run_for t1 s)) = max 0 (?b - t1)" using longest_run [OF t1(1)] by (simp add: run_for_def)
  obtain e2 t2 where 2: "Shutdown (deadline_after t1 dl) (run_for t1 s) = (e2, t2, shut (run_for t2 (run_for t1 s)))"
      and t2: "t2 = min (t - t1) (max 0 (?b - t1))"
  proof (cases "t \<le> t1")
    case True
    then obtain e2 where "Shutdown (deadline_after t1 dl) (run_for t1 s) = (e2, 0, shut (run_for t1 s))"
      using Shutdown_Expired [OF busy_run_for] After by (fastforce simp: deadline_after_def)
    then show ?thesis using that [of e2 0] True t1 run_for_0 [OF busy_run_for, of t1 s] by simp
  next
    case False
    then show ?thesis using that Shutdown_After [OF _ busy_run_for, of "t - t1" x t1 s] l After
      by (auto simp: deadline_after_def)
  qed
  have "t1 + t2 = min t (max ?a ?b)" using t1 t2 by (auto simp: t1_def min_def max_def)
  moreover have "0 \<le> t2" using t1 t2 by (auto simp: min_def max_def)
  ultimately show ?thesis using 1 2 After t1
    by (simp add: run_for_closed run_for_add longest_append time_left_def)
qed

section \<open>Properties\<close>

text \<open>How long a shutdown may take: until the signal, at most 30 seconds.\<close>

definition patience :: "err option \<Rightarrow> signal \<Rightarrow> int" where
  "patience woken sig =
     (if woken = None then 0 else case sig of None \<Rightarrow> seconds 30 | Some c \<Rightarrow> max 0 (min c (seconds 30)))"

lemma patience_left: "time_left (WithTimeout (if woken = None then Some 0 else sig) shutdownTimeout) = patience woken sig"
  by (cases sig) (simp_all add: time_left_def WithTimeout_def patience_def shutdownTimeout_def seconds_def)

lemma patience_bounds: "0 \<le> patience woken sig" "patience woken sig \<le> seconds 30"
  by (simp_all add: patience_def seconds_def split: option.split)

text \<open>C12. Shutdown always ends, within 30 seconds, with the limiter stopped, both servers closed and no
  error, unless the limiter was stopped before (a panic). When a server error triggered it, it lasts as
  long as the longest request in flight on either server needs, but at most 30 seconds and at most until
  the signal comes. When the signal triggered it, its context is already cancelled and it lasts no time
  at all: every request in flight is left unfinished.\<close>

theorem awaitAndShutdown_ends:
  assumes "busy m" "busy s"
  shows "case awaitAndShutdown lg woken sig m s rl w of
      None \<Rightarrow> rl_stopped rl
    | Some r \<Rightarrow> sh_error r = None \<and> rl_stopped (sh_limiter r) \<and> 0 \<le> sh_time r \<and> sh_time r \<le> seconds 30
        \<and> sh_time r = min (patience woken sig) (longest (sv_inflight m @ sv_inflight s))
        \<and> sh_main r = shut (run_for (sh_time r) m) \<and> sh_metrics r = shut (run_for (sh_time r) s)"
proof -
  let ?dl = "WithTimeout (if woken = None then Some 0 else sig) shutdownTimeout"
  note p = patience_bounds [of woken sig]
  obtain e1 e2 t1 t2 m1 s2 where b:
    "Shutdown ?dl m = (e1, t1, m1)" "Shutdown (deadline_after t1 ?dl) (run_for t1 s) = (e2, t2, s2)"
    "t1 + t2 = min (patience woken sig) (longest (sv_inflight m @ sv_inflight s))"
    "run_for t2 m1 = shut (run_for (t1 + t2) m)" "s2 = shut (run_for (t1 + t2) s)"
    using Shutdown_both [OF assms, of ?dl] p(1) unfolding patience_left by blast
  have r: "0 \<le> t1 + t2" "t1 + t2 \<le> seconds 30" unfolding b(3) using p by simp_all
  show ?thesis
  proof (cases "rl_stopped rl")
    case True
    then show ?thesis by (simp add: awaitAndShutdown_def Stop_def Let_def)
  next
    case False
    then obtain w' where "awaitAndShutdown lg woken sig m s rl w =
        Some \<lparr>sh_error = None, sh_time = t1 + t2, sh_main = run_for t2 m1, sh_metrics = s2,
          sh_limiter = rl\<lparr>rl_stopped := True\<rparr>, sh_world = w'\<rparr>"
      by (simp add: awaitAndShutdown_def Stop_def Let_def b(1,2))
    then show ?thesis
      using r b(3) unfolding b(4,5) by simp
  qed
qed

lemma awaitAndShutdown_ends_witness:
  "\<exists>r. awaitAndShutdown demo_logger (Some (ErrText ''accept'')) (Some (seconds 1)) \<lparr>sv_open = True, sv_inflight = [seconds 3]\<rparr>
      \<lparr>sv_open = True, sv_inflight = []\<rparr> (st_limiter demo_state) (st_world demo_state) = Some r
    \<and> sh_time r = seconds 1 \<and> sv_inflight (sh_main r) = [seconds 2]"
proof -
  let ?m = "\<lparr>sv_open = True, sv_inflight = [seconds 3]\<rparr>" and ?s = "\<lparr>sv_open = True, sv_inflight = []\<rparr>"
  have "busy ?m" "busy ?s" by (simp_all add: busy_def seconds_def)
  from awaitAndShutdown_ends [OF this, where lg = demo_logger and woken = "Some (ErrText ''accept'')"
      and sig = "Some (seconds 1)" and rl = "st_limiter demo_state" and w = "st_world demo_state"]
  show ?thesis
    by (auto simp: demo_state_def NewRateLimiter_def run_for_def seconds_def patience_def split: option.splits)
qed


text \<open>C20. Start-up. What gets past it is a well-formed configuration, with the mode of the flag when one
  is given, and outside HTTP mode a logger that cannot write to standard output, which carries the
  protocol. And it stops only for a reason: loading failed, the flag names no mode, or the log file
  cannot be opened; levels and formats have been validated.\<close>

theorem startup_result:
  assumes "ozzo vs req mn"
  shows "case main_startup vs req mn hp process opener env flag of
      Inr (cfg, lg) \<Rightarrow> valid_config hp cfg \<and> (flag = '''' \<or> Mode cfg = flag)
        \<and> (Mode cfg = ''http'' \<or> lg_output lg = Discard \<or> lg_output lg = LogFile (LogFilename cfg))
    | Inl (LoadFailed e) \<Rightarrow> Load vs req mn hp process env = Inl e
    | Inl (InvalidConfig v) \<Rightarrow> flag \<notin> set ['''', ''http'', ''stdio'']
    | Inl (LoggerFailed e) \<Rightarrow> \<exists>m. e = OpenLogFile m"
proof (cases "Load vs req mn hp process env")
  case (Inl e)
  then show ?thesis by (simp add: main_startup_def)
next
  case (Inr cfg0)
  then have v0: "valid_config hp cfg0" using ozzo.Load_ok [OF assms] by blast
  define cfg where "cfg = (if flag \<noteq> [] then cfg0\<lparr>Mode := flag\<rparr> else cfg0)"
  have ok: "Validate vs req mn hp cfg = None \<longleftrightarrow> valid_config hp cfg"
    using ozzo.validate_ok [OF assms] by (simp add: Validate_def)
  let ?opts = "\<lparr>opt_Mode = Mode cfg, opt_Level = LogLevel cfg, opt_Format = LogFormat cfg, opt_Filename = LogFilename cfg\<rparr>"
  have m: "main_startup vs req mn hp process opener env flag =
      (case Validate vs req mn hp cfg of
         Some v \<Rightarrow> Inl (InvalidConfig v)
       | None \<Rightarrow> (case New opener ?opts of Inl e \<Rightarrow> Inl (LoggerFailed e) | Inr lg \<Rightarrow> Inr (cfg, lg)))"
    unfolding main_startup_def Inr sum.case Let_def cfg_def ..
  show ?thesis
  proof (cases "valid_config hp cfg")
    case False
    then have "flag \<notin> set ['''', ''http'', ''stdio'']" using v0 by (auto simp: cfg_def valid_config_def split: if_splits)
    moreover obtain v where "Validate vs req mn hp cfg = Some v" using ok False by auto
    ultimately show ?thesis using m by simp
  next
    case True
    then obtain f where f: "ParseFormat (LogFormat cfg) = Inr f"
      using ParseFormat_known [of "LogFormat cfg"] by (auto simp: valid_config_def)
    have l: "LogLevel cfg = None \<or> (\<exists>s l. LogLevel cfg = Some s \<and> ParseLevel s = Inr l)"
      using True ParseLevel_known by (auto simp: valid_config_def split: option.splits)
    have "case New opener ?opts of Inl e \<Rightarrow> \<exists>m. e = OpenLogFile m
        | Inr lg \<Rightarrow> Mode cfg = ''http'' \<or> lg_output lg = Discard \<or> lg_output lg = LogFile (LogFilename cfg)"
      using f l by (auto simp: New_def log_destination_def split: if_splits option.splits sum.splits)
    then show ?thesis using m ok True by (auto simp: cfg_def split: sum.splits)
  qed
qed

lemma startup_result_witness:
  "case main_startup errors_of non_empty at_least simple_host (\<lambda>_. Inr demo_cfg) (\<lambda>_. None) (\<lambda>_. None) ''http'' of
      Inr (cfg, lg) \<Rightarrow> valid_config simple_host cfg \<and> Mode cfg = ''http'' | Inl _ \<Rightarrow> False"
proof -
  let ?cfg = "demo_cfg\<lparr>Mode := ''http''\<rparr>"
  have shim: "legacy_shim (\<lambda>_. None) demo_cfg = demo_cfg"
    by (simp add: legacy_shim_def legacyMetricsAddr_def Getenv_def)
  have "Load errors_of non_empty at_least simple_host (\<lambda>_. Inr demo_cfg) (\<lambda>_. None) = Inr demo_cfg"
    using rules.validate_ok [of simple_host demo_cfg] demo_cfg_valid(1) by (simp add: Load_def shim)
  moreover have "Validate errors_of non_empty at_least simple_host ?cfg = None"
    using rules.validate_ok [of simple_host ?cfg] demo_cfg_valid(2) by (simp add: Validate_def)
  moreover have "New (\<lambda>_. None) \<lparr>opt_Mode = ''http'', opt_Level = LogLevel demo_cfg, opt_Format = LogFormat demo_cfg,
      opt_Filename = LogFilename demo_cfg\<rparr> = Inr \<lparr>lg_output = Stdout, lg_formatter = TextFormatter, lg_level = WarnLevel\<rparr>"
    by code_simp
  ultimately have "main_startup errors_of non_empty at_least simple_host (\<lambda>_. Inr demo_cfg) (\<lambda>_. None) (\<lambda>_. None) ''http''
      = Inr (?cfg, \<lparr>lg_output = Stdout, lg_formatter = TextFormatter, lg_level = WarnLevel\<rparr>)"
    by (simp add: main_startup_def)
  then show ?thesis
    using startup_result [OF rules.ozzo_axioms, where hp = simple_host and process = "\<lambda>_. Inr demo_cfg" and opener = "\<lambda>_. None"
      and env = "\<lambda>_. None" and flag = "''http''"]
    by simp
qed

end
