(* ===== verification/Wiring.thy ===== *)
theory Wiring
  imports Server
begin

text \<open>
  The composed program: what holds of the parts of \<open>Server\<close> once they are wired together.
\<close>

section \<open>Wiring\<close>

text \<open>What \<open>buildServer\<close> builds.\<close>

definition built ::
  "(string \<Rightarrow> string option) \<Rightarrow> (string \<Rightarrow> err) \<Rightarrow> (string \<Rightarrow> err) \<Rightarrow> build_info \<Rightarrow> 'u transport \<Rightarrow> config
     \<Rightarrow> logger \<Rightarrow> string \<Rightarrow> 'u serverDeps" where
  "built hp ue je bi tr cfg lg source =
     \<lparr>sd_Name = ''mcp-searxng'', sd_Version = bi_version bi, sd_Logger = NewSlogHandler lg,
      sd_tools = zip ToolDefinitions (wired hp True lg (search_service_of hp ue je bi tr cfg) source),
      sd_resources = AddGuidanceResources [], sd_instructions = ServerInstructions, sd_promRegistry = program_registry\<rparr>"

lemma buildServer_built:
  "buildServer hp ue je bi tr cfg lg source w =
     (Inr (built hp ue je bi tr cfg lg source), logToolSurface (Some lg) ToolDefinitions w)"
  using program_registry
  by (auto simp: buildServer_def built_def RegisterToolsWithSource_def registerAll_wired)

lemma built_registry [simp]: "sd_promRegistry (built hp ue je bi tr cfg lg source) = program_registry"
  by (simp add: built_def)

lemma built_calls:
  "call_tool (sd_tools (built hp ue je bi tr cfg lg source)) c call w =
     Some (observed_call hp True lg (search_service_of hp ue je bi tr cfg) source c call w)"
  by (simp add: built_def call_tool_wired)

text \<open>The world when the servers start.\<close>

definition announced :: "(string \<Rightarrow> string option) \<Rightarrow> build_info \<Rightarrow> logger \<Rightarrow> config \<Rightarrow> (string \<times> string) list \<Rightarrow> 'u world \<Rightarrow> 'u world" where
  "announced hp bi lg cfg servers w =
     foldl (\<lambda>v (name, addr). serve_start lg name addr v)
       (logStartupBanner hp bi lg cfg (logToolSurface (Some lg) ToolDefinitions w)) servers"

lemma program_names_own: "list_all (\<lambda>n. \<not> foreign n) (registered program_registry)"
  unfolding program_registry_names by (simp add: foreign_def has_prefix_def)

lemma ObservabilityHandler_stdio:
  "runtime_named rt \<Longrightarrow> \<exists>reg. ObservabilityHandler rt program_registry b = Some (reg, observability_mux b)"
  using RegisterMetricsOnRegistry_ok [OF _ program_names_own] by (simp add: ObservabilityHandler_def)

lemma ObservabilityHandler_http:
  "runtime_named rt \<Longrightarrow> \<exists>r reg. InstrumentServer program_registry = Some r
     \<and> ObservabilityHandler rt r b = Some (reg, observability_mux b)"
proof -
  assume rt: "runtime_named rt"
  obtain r where r: "InstrumentServer program_registry = Some r" and
    n: "registered r = registered program_registry
         @ [''http_request_duration_seconds'', ''http_requests_total'', ''http_response_size_bytes'']"
    using InstrumentServer_registry by blast
  have "list_all (\<lambda>n. \<not> foreign n) (registered r)"
    unfolding n using program_names_own by (simp add: foreign_def has_prefix_def)
  then show ?thesis using r RegisterMetricsOnRegistry_ok [OF rt] by (simp add: ObservabilityHandler_def)
qed

text \<open>Both modes get through their wiring.\<close>

lemma runStdio_wired:
  assumes "runtime_named rt"
  shows "runStdio hp ue je bi rt tr session cfg lg a w =
     (let (runErr, sig, ms, w4) = session (built hp ue je bi tr cfg lg ''stdio'')
            (stdio_metricsServer cfg (observability_mux True))
            (announced hp bi lg cfg [(''internal observability server'', a)] w);
          (e, t, ms') = Shutdown (WithTimeout None shutdownTimeout) ms;
          w5 = log_failure lg ''Internal server shutdown error: '' e w4
      in if came sig t then Inr (None, ms', log_with lg InfoLevel ''Server stopped gracefully'' [] w5)
         else Inr (runErr, ms', w5))"
  using ObservabilityHandler_stdio [OF assms, of True]
  by (auto simp: runStdio_def buildServer_built announced_def)

lemma runHTTP_wired:
  assumes "runtime_named rt"
  shows "runHTTP hp ue je bi rt tr nl al mh serving cfg lg a b w =
     (case serving (newMainServer cfg main_mux) (newMetricsServer (InternalAddr cfg) (observability_mux False))
             (http_chain nl al lg (mh (built hp ue je bi tr cfg lg ''http'')))
             \<lparr>st_world = announced hp bi lg cfg [(''mcp-searxng server'', a), (''Prometheus metrics server'', b)] w,
              st_limiter = NewRateLimiter nl (http_limits cfg)\<rparr> of
        (woken, sig, mainServer, metricsServer, st) \<Rightarrow>
          Inr (awaitAndShutdown lg woken sig mainServer metricsServer (st_limiter st) (st_world st)))"
  using ObservabilityHandler_http [OF assms, of False]
  by (auto simp: runHTTP_def buildServer_built buildHTTPHandler_def announced_def)

lemma awaitAndShutdown_running:
  "\<not> rl_stopped rl \<Longrightarrow> \<exists>sh. awaitAndShutdown lg woken sig m s rl w = Some sh \<and> sh_error sh = None"
  by (auto simp: awaitAndShutdown_def Stop_def Let_def split: prod.splits)

text \<open>While the servers run nothing stops the limiter; only shutdown does.\<close>

definition leaves_limiter ::
  "('a \<Rightarrow> 'b \<Rightarrow> 'c \<Rightarrow> ('l, 'u) http_state \<Rightarrow> err option \<times> signal \<times> http_server \<times> http_server \<times> ('l, 'u) http_state) \<Rightarrow> bool" where
  "leaves_limiter serving \<longleftrightarrow> (\<forall>ms ns h st. \<not> rl_stopped (st_limiter st) \<longrightarrow>
     \<not> rl_stopped (st_limiter (snd (snd (snd (snd (serving ms ns h st)))))))"

text \<open>How long the metrics server of the stdio mode takes to shut down.\<close>

definition shutdown_time :: "http_server \<Rightarrow> int" where
  "shutdown_time ms = fst (snd (Shutdown (WithTimeout None shutdownTimeout) ms))"

lemma stdio_run_error:
  assumes "runtime_named rt"
  shows "\<exists>w'. stdio_run hp ue je bi rt tr session cfg lg a w =
     Some (case session (built hp ue je bi tr cfg lg ''stdio'') (stdio_metricsServer cfg (observability_mux True))
         (announced hp bi lg cfg [(''internal observability server'', a)] w) of
       (e, sig, ms, rest) \<Rightarrow> if came sig (shutdown_time ms) then None else e, w')"
  by (auto simp: stdio_run_def runStdio_wired [OF assms] shutdown_time_def Let_def split: prod.split)

lemma http_run_no_error:
  assumes "runtime_named rt"
    and "leaves_limiter serving"
  shows "\<exists>w'. http_run hp ue je bi rt tr nl al mh serving cfg lg a b w = Some (None, w')"
proof -
  let ?run = "serving (newMainServer cfg main_mux) (newMetricsServer (InternalAddr cfg) (observability_mux False))
    (http_chain nl al lg (mh (built hp ue je bi tr cfg lg ''http'')))
    \<lparr>st_world = announced hp bi lg cfg [(''mcp-searxng server'', a), (''Prometheus metrics server'', b)] w,
     st_limiter = NewRateLimiter nl (http_limits cfg)\<rparr>"
  obtain woken sig m s st where run: "?run = (woken, sig, m, s, st)" by (cases ?run)
  have "\<not> rl_stopped (NewRateLimiter nl (http_limits cfg))" by (simp add: NewRateLimiter_def)
  then have "\<not> rl_stopped (st_limiter (snd (snd (snd (snd ?run)))))"
    using assms(2) unfolding leaves_limiter_def by (metis http_state.select_convs(2))
  then have "\<not> rl_stopped (st_limiter st)" using run by simp
  then obtain sh where "awaitAndShutdown lg woken sig m s (st_limiter st) (st_world st) = Some sh" "sh_error sh = None"
    using awaitAndShutdown_running by blast
  then show ?thesis by (simp add: http_run_def runHTTP_wired [OF assms(1)] run)
qed

section \<open>The limits of a configuration\<close>

lemma sint_twice: "1 \<le> sint n \<Longrightarrow> sint n \<le> 2 ^ 53 \<Longrightarrow> sint (n * 2 :: go_int) = 2 * sint n"
  by (simp add: sint_word_ariths signed_take_bit_int_eq_self)

lemma http_limits_bursts:
  assumes "valid_config hp cfg" "sint (RateLimitGlobal cfg) \<le> 2 ^ 53" "sint (RateLimitPerClient cfg) \<le> 2 ^ 53"
  shows "global_burst (http_limits cfg) = 2 * of_int (sint (RateLimitGlobal cfg))"
    "client_burst (http_limits cfg) = 2 * of_int (sint (RateLimitPerClient cfg))"
  using assms sint_twice
  by (auto simp: global_burst_def client_burst_def effective_burst_def http_limits_def burstMultiplier_def valid_config_def)

lemma http_limits_rates:
  "GlobalLimit (http_limits cfg) = of_int (sint (RateLimitGlobal cfg))"
  "PerClientLimit (http_limits cfg) = of_int (sint (RateLimitPerClient cfg))"
  by (simp_all add: http_limits_def)

lemma http_limits_sane:
  assumes "valid_config hp cfg" "sint (RateLimitGlobal cfg) \<le> 2 ^ 53" "sint (RateLimitPerClient cfg) \<le> 2 ^ 53"
    and "slack \<le> clientTTL - seconds 2"
  shows "sane_config (http_limits cfg) slack"
proof -
  note b = http_limits_bursts [OF assms(1-3)]
  have pos: "1 \<le> sint (RateLimitGlobal cfg)" "1 \<le> sint (RateLimitPerClient cfg)"
    using assms(1) by (simp_all add: valid_config_def)
  have r: "(0 :: rat) \<le> of_int (sint (RateLimitGlobal cfg))" "(0 :: rat) \<le> of_int (sint (RateLimitPerClient cfg))"
    using pos of_int_nonneg [of "sint (RateLimitGlobal cfg)"] of_int_nonneg [of "sint (RateLimitPerClient cfg)"]
    by linarith+
  have "(2 :: rat) \<le> of_int (clientTTL - slack) / second"
    using assms(4) by (simp add: second_def seconds_def)
  note c = mult_left_mono [OF this r(2)]
  have "0 \<le> sint (effective_burst (GlobalLimit (http_limits cfg)) (GlobalBurst (http_limits cfg)))"
      "0 \<le> sint (effective_burst (PerClientLimit (http_limits cfg)) (PerClientBurst (http_limits cfg)))"
    using pos sint_twice assms(2,3) by (simp_all add: effective_burst_def http_limits_def burstMultiplier_def)
  then show ?thesis using r c by (simp add: sane_config_def b http_limits_rates)
qed

section \<open>The banner\<close>

lemma redacted_url:
  "first_string (RedactStruct hp (reflect_config cfg)) = RedactValue hp (GString (SearXNGURL cfg))"
  by (simp add: reflect_config_def config_field_def)

lemma banner_redacted:
  "RedactValue hp (GString (SearXNGURL c)) = RedactValue hp (GString (SearXNGURL d))
    \<Longrightarrow> logStartupBanner hp bi lg c w = logStartupBanner hp bi lg d w"
  by (simp add: logStartupBanner_def redacted_url)

lemma banner_logs:
  "map le_msg (logs (logStartupBanner hp bi lg cfg w)) = map le_msg (logs w) @
     (if IsLevelEnabled lg InfoLevel then
        [''Starting '' @ bi_appName bi @ ''/'' @ bi_version bi @ '' (commit: '' @ bi_commit bi @ ''; built at '' @ bi_date bi @ '')'',
         ''SearXNG URL: '' @ SanitizeLog (RedactValue hp (GString (SearXNGURL cfg))),
         ''Version: '' @ bi_version bi @ '', commit: '' @ bi_commit bi @ '', built: '' @ bi_date bi]
      else [])"
  by (simp add: logStartupBanner_def redacted_url logs_log_with Let_def)

text \<open>The first messages of a run, in order: the listener, the five tools, and only then the banner.\<close>

lemma serve_start_logs:
  "map le_msg (logs (serve_start lg name addr w)) = map le_msg (logs w) @
     (if IsLevelEnabled lg InfoLevel then [''Starting '' @ name @ '' on '' @ SanitizeLog addr] else [])"
  by (simp add: serve_start_def logs_log_with)

lemma announced_logs:
  "map le_msg (logs (announced hp bi lg cfg servers w)) = map le_msg (logs w) @
     (if IsLevelEnabled lg InfoLevel then
        replicate 5 ''mcp_tool_surface'' @
        [''Starting '' @ bi_appName bi @ ''/'' @ bi_version bi @ '' (commit: '' @ bi_commit bi @ ''; built at '' @ bi_date bi @ '')'',
         ''SearXNG URL: '' @ SanitizeLog (RedactValue hp (GString (SearXNGURL cfg))),
         ''Version: '' @ bi_version bi @ '', commit: '' @ bi_commit bi @ '', built: '' @ bi_date bi] @
        map (\<lambda>(name, addr). ''Starting '' @ name @ '' on '' @ SanitizeLog addr) servers
      else [])"
proof (induction servers rule: rev_induct)
  case Nil
  have "map le_msg (logs (logToolSurface (Some lg) ts w)) = map le_msg (logs w) @
      (if IsLevelEnabled lg InfoLevel then replicate (length ts) ''mcp_tool_surface'' else [])" for ts
    by (simp add: logToolSurface_logs comp_def map_replicate_const)
  moreover have "length ToolDefinitions = 5" by (simp add: ToolDefinitions_def)
  ultimately have "map le_msg (logs (logToolSurface (Some lg) ToolDefinitions w)) = map le_msg (logs w) @
      (if IsLevelEnabled lg InfoLevel then replicate 5 ''mcp_tool_surface'' else [])"
    by metis
  then show ?case by (simp add: announced_def banner_logs)
next
  case (snoc s servers)
  then show ?case by (cases s) (simp add: announced_def serve_start_logs)
qed

lemma banner_after_tools:
  assumes "listen (InternalAddr cfg) = Inr a" "IsLevelEnabled lg InfoLevel"
  shows "\<exists>msgs. map le_msg (logs (announced hp bi lg cfg servers (snd (bindObservability listen cfg lg w)))) = map le_msg (logs w)
    @ [''Internal observability listener bound on '' @ SanitizeLog a] @ replicate 5 ''mcp_tool_surface''
    @ [''Starting '' @ bi_appName bi @ ''/'' @ bi_version bi @ '' (commit: '' @ bi_commit bi @ ''; built at '' @ bi_date bi @ '')''] @ msgs"
  using assms by (simp add: announced_logs bindObservability_def logs_log_with)

section \<open>The request id\<close>

text \<open>A transport that keeps the requests it is asked, with the settings it was made with.\<close>

definition records :: "(resty_settings \<times> http_get) list transport \<Rightarrow> bool" where
  "records tr \<longleftrightarrow> (\<forall>s g v. upstream (snd (tr s g v)) = upstream v @ [(s, g)])"

lemma client_Search_sends:
  "upstream (snd (client_Search hp ue je c cx params w)) =
     (case JoinPath hp (cli_baseURL c) ''/search'' of
        None \<Rightarrow> upstream w
      | Some u \<Rightarrow> upstream (snd (cli_client c
          \<lparr>hg_URL = u, hg_Headers = request_headers cx, hg_Query = buildSearchQuery params\<rparr> (snd (time_Now w)))))"
  by (auto simp: client_Search_def doRequest_def record_upstream_def time_Now_def Let_def
      split: prod.split sum.split option.split exchange.split)

lemma handle_call_sends:
  assumes "records tr"
  shows "\<exists>sent. upstream (snd (handle_call hp lg (search_service_of hp ue je bi tr cfg) cx call w)) = upstream w @ sent
    \<and> length sent \<le> 1
    \<and> list_all (\<lambda>(s, g). s = resty_config bi \<and> JoinPath hp (SearXNGURL cfg) ''/search'' = Some (hg_URL g)
         \<and> hg_Headers g = request_headers cx \<and> hg_Query g = buildSearchQuery (clamped_params call)) sent"
proof -
  let ?repo = "client_Search hp ue je (SetMetrics (NewClient (SearXNGURL cfg) (tr (resty_config bi))))"
  have "upstream (snd (handle_call hp lg (search_service_of hp ue je bi tr cfg) cx call w))
      \<in> {upstream w, upstream (snd (?repo cx (clamped_params call) w))}"
    by (auto simp: handle_call_spec tool_spec_def search_service_of_def NewSearchService_def Let_def
        split: prod.split sum.split)
  moreover have "upstream (snd (?repo cx (clamped_params call) w)) =
      (case JoinPath hp (SearXNGURL cfg) ''/search'' of
         None \<Rightarrow> upstream w
       | Some u \<Rightarrow> upstream w @ [(resty_config bi,
           \<lparr>hg_URL = u, hg_Headers = request_headers cx, hg_Query = buildSearchQuery (clamped_params call)\<rparr>)])"
    using assms by (simp add: client_Search_sends records_def SetMetrics_def NewClient_def time_Now_def split: option.split)
  ultimately show ?thesis by (cases "JoinPath hp (SearXNGURL cfg) ''/search''") auto
qed

lemma New_id_length: "length (fst (New_id w)) = 32"
  by (simp add: New_id_def requestIDBytes_def length_hex_encode)

text \<open>What the access log says of a call, next to what its handler does.\<close>

definition access_entry :: "string \<Rightarrow> log_entry \<Rightarrow> bool" where
  "access_entry rid e \<longleftrightarrow> le_msg e = ''mcp_tool'' \<and> map_of (le_fields e) ''request_id'' = Some (LStr rid)"

lemma observed_call_logs:
  "\<exists>w1. upstream w1 = upstream w
     \<and> upstream (snd (observed_call hp True lg svc source c call w))
       = upstream (snd (handle_call hp lg svc (With c (fst (New_id (snd (time_Now w))))) call w1))
     \<and> (if IsLevelEnabled lg InfoLevel
        then access_entry (fst (New_id (snd (time_Now w)))) (last (logs (snd (observed_call hp True lg svc source c call w))))
        else True)"
proof -
  obtain i w0 where i: "New_id (snd (time_Now w)) = (i, w0)" by force
  then have w0: "upstream w0 = upstream w" by (auto simp: New_id_def time_Now_def)
  obtain res w1 where h: "handle_call hp lg svc (With c i) call (snd (time_Now w0)) = (res, w1)" by force
  show ?thesis using i w0 h
    by (intro exI [of _ "snd (time_Now w0)"])
      (auto simp: access_entry_def observed_call_def WrapAccessLog_def WrapToolHandler_def split_beta Let_def logs_log_with time_Now_def)
qed

section \<open>Properties\<close>

text \<open>C34. Metrics are registered once. In both modes every registration of start-up succeeds, given that the
  Go runtime's metrics have their own prefixes; the program's eight metrics have distinct names; and
  building the metrics handler a second time on the same registry panics, for the runtime's collectors
  are then registered already.\<close>

theorem metrics_registered_once:
  assumes "runtime_named rt" "go_collector rt \<noteq> []"
  shows "\<exists>u r1 m r2 r3 r4 r5.
     NewUpstreamMetrics [] = Some (u, r1) \<and> NewMetrics r1 = Some (m, r2)
     \<and> InstrumentServer r2 = Some r3 \<and> distinct (registered r3) \<and> length (registered r3) = 8
     \<and> ObservabilityHandler rt r2 True = Some (r4, observability_mux True)
     \<and> ObservabilityHandler rt r3 False = Some (r5, observability_mux False)
     \<and> set (registered r5) = set (registered r3) \<union> set (go_collector rt) \<union> set (process_collector rt)
     \<and> ObservabilityHandler rt r4 b = None \<and> ObservabilityHandler rt r5 b = None"
proof -
  obtain u r1 m where 1: "NewUpstreamMetrics [] = Some (u, r1)" "NewMetrics r1 = Some (m, program_registry)"
    using program_registry by blast
  obtain r3 where 3: "InstrumentServer program_registry = Some r3" and
    n: "registered r3 = registered program_registry
         @ [''http_request_duration_seconds'', ''http_requests_total'', ''http_response_size_bytes'']"
    using InstrumentServer_registry by blast
  have own: "list_all (\<lambda>n. \<not> foreign n) (registered r3)"
    unfolding n using program_names_own by (simp add: foreign_def has_prefix_def)
  have d: "distinct (registered r3)" "length (registered r3) = 8" unfolding n program_registry_names by simp_all
  note ok = RegisterMetricsOnRegistry_ok [OF assms(1) program_names_own] RegisterMetricsOnRegistry_ok [OF assms(1) own]
  note twice = RegisterMetricsOnRegistry_twice [OF ok(1) assms(2)] RegisterMetricsOnRegistry_twice [OF ok(2) assms(2)]
  show ?thesis
    by (rule exI [of _ u], rule exI [of _ r1], rule exI [of _ m], rule exI [of _ program_registry], rule exI [of _ r3])
      (use 1 3 d ok twice in \<open>auto simp: ObservabilityHandler_def\<close>)
qed

lemma metrics_registered_once_witness:
  "\<exists>reg. ObservabilityHandler \<lparr>go_collector = [''go_goroutines''], process_collector = [''process_open_fds'']\<rparr> reg True = None"
proof -
  have "runtime_named \<lparr>go_collector = [''go_goroutines''], process_collector = [''process_open_fds'']\<rparr>"
    by (simp add: runtime_named_def has_prefix_def)
  from metrics_registered_once [OF this, of True] show ?thesis by fastforce
qed

text \<open>C11. The outcome of a run. It fails exactly when a listener cannot be bound, with the address in the
  error, or when the session of the stdio mode ended with an error and no signal had come by the end of
  the shutdown; a server that fails in HTTP mode is only logged. And every listener that was opened is
  closed, the last one first.\<close>

theorem Run_outcome:
  assumes "runtime_named rt"
    and "leaves_limiter serving"
  shows "\<exists>r. Run listen_internal listen_main (stdio_run hp ue je bi rt tr session cfg lg)
      (http_run hp ue je bi rt tr nl al mh serving cfg lg) cfg lg w = Some r
    \<and> rr_closed r = rev (rr_opened r)
    \<and> (case listen_internal (InternalAddr cfg) of
         Inl e \<Rightarrow> rr_opened r = [] \<and> rr_error r = Some (ErrWrap (''listen on '' @ InternalAddr cfg @ '': '') e)
       | Inr a \<Rightarrow>
           if Mode cfg = ''stdio'' then
             rr_opened r = [a]
             \<and> rr_error r = (case session (built hp ue je bi tr cfg lg ''stdio'') (stdio_metricsServer cfg (observability_mux True))
                   (announced hp bi lg cfg [(''internal observability server'', a)]
                      (snd (bindObservability listen_internal cfg lg w))) of
                 (e, sig, ms, rest) \<Rightarrow> if came sig (shutdown_time ms) then None else e)
           else
             (case listen_main (ListenAddr cfg) of
                Inl e \<Rightarrow> rr_opened r = [a] \<and> rr_error r = Some (ErrWrap (''listen on '' @ ListenAddr cfg @ '': '') e)
              | Inr m \<Rightarrow> rr_opened r = [a, m] \<and> rr_error r = None))"
proof (cases "listen_internal (InternalAddr cfg)")
  case (Inl e)
  then show ?thesis by (simp add: Run_def bindObservability_def)
next
  case (Inr a)
  obtain w1 where b: "bindObservability listen_internal cfg lg w = (Inr a, w1)" using Inr by (simp add: bindObservability_def)
  show ?thesis
  proof (cases "Mode cfg = ''stdio''")
    case True
    show ?thesis using True Inr stdio_run_error [OF assms(1), of hp ue je bi tr session cfg lg a w1]
      by (auto simp: Run_def b)
  next
    case False
    show ?thesis
    proof (cases "listen_main (ListenAddr cfg)")
      case (Inl e)
      then show ?thesis using False Inr by (simp add: Run_def b)
    next
      case m: (Inr m)
      show ?thesis using False Inr m http_run_no_error [OF assms, of hp ue je bi tr nl al mh cfg lg m a w1]
        by (auto simp: Run_def b)
    qed
  qed
qed

lemma Run_outcome_witness:
  "\<forall>mh (w :: unit world). \<exists>r.
     Run (\<lambda>_. Inr ''127.0.0.1:8081'') (\<lambda>_. Inr ''127.0.0.1:8080'')
       (stdio_run simple_host ErrText ErrText dev_build \<lparr>go_collector = [], process_collector = []\<rparr>
          (\<lambda>_ _ w. (Failed None (ErrText ''down''), w)) (\<lambda>_ _ w. (None, Some 0, \<lparr>sv_open = True, sv_inflight = []\<rparr>, w))
          (demo_cfg\<lparr>Mode := ''http''\<rparr>) demo_logger)
       (http_run simple_host ErrText ErrText dev_build \<lparr>go_collector = [], process_collector = []\<rparr>
          (\<lambda>_ _ w. (Failed None (ErrText ''down''), w)) new_bucket allow_bucket mh
          (\<lambda>_ _ _ st. (Some (ErrText ''accept''), None, \<lparr>sv_open = True, sv_inflight = []\<rparr>, \<lparr>sv_open = True, sv_inflight = []\<rparr>, st))
          (demo_cfg\<lparr>Mode := ''http''\<rparr>) demo_logger)
       (demo_cfg\<lparr>Mode := ''http''\<rparr>) demo_logger w = Some r
     \<and> rr_closed r = [''127.0.0.1:8080'', ''127.0.0.1:8081''] \<and> rr_error r = None"
proof (intro allI, goal_cases)
  case (1 mh w)
  let ?rt = "\<lparr>go_collector = [], process_collector = []\<rparr>"
  let ?serving = "\<lambda>_ _ _ st. (Some (ErrText ''accept''), None, \<lparr>sv_open = True, sv_inflight = []\<rparr>,
    \<lparr>sv_open = True, sv_inflight = []\<rparr>, st)"
  have rt: "runtime_named ?rt" by (simp add: runtime_named_def)
  have l: "leaves_limiter ?serving" by (simp add: leaves_limiter_def)
  have m: "Mode (demo_cfg\<lparr>Mode := ''http''\<rparr>) \<noteq> ''stdio''" by simp
  show ?case
    using Run_outcome [OF rt l, of "\<lambda>_. Inr ''127.0.0.1:8081''" "\<lambda>_. Inr ''127.0.0.1:8080''" simple_host ErrText ErrText dev_build
        "\<lambda>_ _ w. (Failed None (ErrText ''down''), w)" "\<lambda>_ _ w. (None, Some 0, \<lparr>sv_open = True, sv_inflight = []\<rparr>, w)"
        "demo_cfg\<lparr>Mode := ''http''\<rparr>" demo_logger new_bucket allow_bucket mh w]
    by auto
qed

text \<open>The configured limits hold. For a valid configuration with limits of up to 2 ^ 53 requests per
  second, at any time after the start a client has been granted at most its limit times the elapsed
  seconds plus two, and all clients together at most the global limit times that, whatever was
  evicted in between.\<close>

theorem configured_limits:
  assumes "valid_config hp cfg" "sint (RateLimitGlobal cfg) \<le> 2 ^ 53" "sint (RateLimitPerClient cfg) \<le> 2 ^ 53"
    and "token_limiter new_lim allow_lim holds" "slack \<le> clientTTL - seconds 2"
    and "rl_trace new_lim allow_lim slack (initial_system new_lim (http_limits cfg) t0) es s"
  shows "rat_of_nat (length (filter (granted_to ip) es))
      \<le> of_int (sint (RateLimitPerClient cfg)) * (2 + of_int (sys_now s - t0) / 1000000000)
    \<and> rat_of_nat (length (filter granted es))
      \<le> of_int (sint (RateLimitGlobal cfg)) * (2 + of_int (sys_now s - t0) / 1000000000)"
proof -
  note b = http_limits_bursts [OF assms(1-3)]
  have "sane_config (http_limits cfg) slack" by (rule http_limits_sane [OF assms(1-3,5)])
  from token_limiter.trace_pays [OF assms(4,6) token_limiter.system_rel_initial [OF assms(4) this] this, of ip]
  show ?thesis
    by (simp add: full_buckets_def initial_system_def b http_limits_rates second_def algebra_simps)
qed

lemma configured_limits_witness:
  "\<exists>s. rl_trace new_bucket allow_bucket 0 (initial_system new_bucket (http_limits demo_cfg) 0) [Request ''a'' 0 0 0 True] s
     \<and> rat_of_nat (length (filter (granted_to ''a'') [Request ''a'' 0 0 0 True])) \<le> 10 * (2 + 0)"
proof -
  obtain rl' where "Allow new_bucket allow_bucket (NewRateLimiter new_bucket (http_limits demo_cfg)) ''a'' 0 0 0 = (True, rl')"
    by (simp add: demo_defs NewRateLimiter_def http_limits_def demo_cfg_def burstMultiplier_def)
  then have t: "rl_trace new_bucket allow_bucket 0 (initial_system new_bucket (http_limits demo_cfg) 0) [Request ''a'' 0 0 0 True]
      \<lparr>sys_rl = rl', sys_now = 0, sys_loop = True\<rparr>" (is "rl_trace _ _ _ _ _ ?s")
    unfolding initial_system_def
    by (intro rl_trace_request [where rl' = rl']) (simp_all add: rl_trace.nil)
  have "rat_of_nat (length (filter (granted_to ''a'') [Request ''a'' 0 0 0 True]))
      \<le> of_int (sint (RateLimitPerClient demo_cfg)) * (2 + of_int (sys_now ?s - 0) / 1000000000)"
    using configured_limits [OF demo_cfg_valid(1) _ _ bucket.token_limiter_axioms _ t, of "''a''"]
    by (simp add: demo_cfg_def clientTTL_def minute_def seconds_def)
  then show ?thesis using t by (intro exI [of _ ?s]) (simp add: demo_cfg_def)
qed

text \<open>C7. The banner shows the host and hides the credentials. Two configurations that differ only in the
  credentials of the SearXNG address start with the same banner; what it prints is the address
  without them, on one line.\<close>

theorem banner_hides_credentials:
  assumes "http_scheme sch" "authority_chars ui" "authority_chars h" "CHR ''@'' \<notin> set h" "path_or_query t"
    and "CHR ''#'' \<notin> set t" "rest = t @ (if frag = None then [] else CHR ''#'' # the frag)"
    and "valid_config hp (cfg\<lparr>SearXNGURL := sch @ ''://'' @ ui @ ''@'' @ h @ rest\<rparr>)"
  shows "logStartupBanner hp bi lg (cfg\<lparr>SearXNGURL := sch @ ''://'' @ ui @ ''@'' @ h @ rest\<rparr>) w
       = logStartupBanner hp bi lg (cfg\<lparr>SearXNGURL := sch @ ''://'' @ h @ rest\<rparr>) w
    \<and> (\<exists>u. url_Parse hp (sch @ ''://'' @ h @ rest) = Some u
        \<and> map le_msg (logs (logStartupBanner hp bi lg (cfg\<lparr>SearXNGURL := sch @ ''://'' @ ui @ ''@'' @ h @ rest\<rparr>) w))
          = map le_msg (logs w) @ (if IsLevelEnabled lg InfoLevel then
              [''Starting '' @ bi_appName bi @ ''/'' @ bi_version bi @ '' (commit: '' @ bi_commit bi @ ''; built at '' @ bi_date bi @ '')'',
               ''SearXNG URL: '' @ SanitizeLog (url_String (u\<lparr>User := None\<rparr>)),
               ''Version: '' @ bi_version bi @ '', commit: '' @ bi_commit bi @ '', built: '' @ bi_date bi]
              else []))"
proof -
  let ?a = "sch @ ''://'' @ ui @ ''@'' @ h @ rest" and ?b = "sch @ ''://'' @ h @ rest"
  have web: "web_url hp ?a" using assms(8) by (simp add: valid_config_def)
  then obtain v where v: "url_Parse hp ?a = Some v" "(Scheme v = ''http'' \<or> Scheme v = ''https'') \<and> Host v \<noteq> []"
    by (auto simp: web_url_def split: option.splits)
  have eq: "map_option (\<lambda>v. v\<lparr>User := None\<rparr>) (url_Parse hp ?a) = map_option (\<lambda>v. v\<lparr>User := None\<rparr>) (url_Parse hp ?b)"
    using url_Parse_userinfo [OF assms(1-7), of hp] v(1) by simp
  then obtain u where u: "url_Parse hp ?b = Some u" "v\<lparr>User := None\<rparr> = u\<lparr>User := None\<rparr>"
    using v(1) by (cases "url_Parse hp ?b") auto
  have same: "RedactValue hp (GString ?a) = RedactValue hp (GString ?b)" unfolding RedactValue_parsed eq ..
  have "RedactValue hp (GString ?a) = url_String (u\<lparr>User := None\<rparr>)"
    using v u(2) by (simp add: RedactValue_def)
  moreover have "logStartupBanner hp bi lg (cfg\<lparr>SearXNGURL := ?a\<rparr>) w = logStartupBanner hp bi lg (cfg\<lparr>SearXNGURL := ?b\<rparr>) w"
    by (rule banner_redacted) (use same in simp)
  ultimately show ?thesis using u(1) same by (auto simp: banner_logs)
qed

lemma banner_hides_credentials_witness:
  "\<forall>w :: unit world. logStartupBanner simple_host dev_build demo_logger demo_cfg w
     = logStartupBanner simple_host dev_build demo_logger (demo_cfg\<lparr>SearXNGURL := ''http://searx:8888''\<rparr>) w"
proof
  fix w :: "unit world"
  have e: "demo_cfg\<lparr>SearXNGURL := ''http'' @ ''://'' @ ''u:pw'' @ ''@'' @ ''searx:8888'' @ []\<rparr> = demo_cfg"
    by (simp add: demo_cfg_def)
  show "logStartupBanner simple_host dev_build demo_logger demo_cfg w
     = logStartupBanner simple_host dev_build demo_logger (demo_cfg\<lparr>SearXNGURL := ''http://searx:8888''\<rparr>) w"
    using banner_hides_credentials [of "''http''" "''u:pw''" "''searx:8888''" "[]" "[]" None simple_host demo_cfg dev_build demo_logger w]
      demo_cfg_valid(1) unfolding e
    by (simp add: http_scheme_def authority_chars_def path_or_query_def)
qed

text \<open>C4. One request id from the client to SearXNG. A tool call on the built server sends at most one
  request upstream, to the search path of the configured address, over a client that follows no
  redirect, with the parameters of the call; the X-Request-ID it carries is the non-empty id under
  which the call is written to the access log.\<close>

theorem request_id_correlates:
  assumes "records tr"
  shows "case fst (buildServer hp ue je bi tr cfg lg source w0) of
      Inl v \<Rightarrow> False
    | Inr deps \<Rightarrow> \<exists>res w' rid sent.
        call_tool (sd_tools deps) c call w = Some (res, w')
        \<and> length rid = 32 \<and> upstream w' = upstream w @ sent \<and> length sent \<le> 1
        \<and> list_all (\<lambda>(s, g). \<not> rt_FollowRedirects s \<and> JoinPath hp (SearXNGURL cfg) ''/search'' = Some (hg_URL g)
             \<and> hg_Query g = buildSearchQuery (clamped_params call)
             \<and> hg_Headers g = [(''Accept'', ''application/json''), (''X-Request-ID'', rid)]) sent
        \<and> (if IsLevelEnabled lg InfoLevel then access_entry rid (last (logs w')) else True)"
proof -
  let ?svc = "search_service_of hp ue je bi tr cfg" and ?id = "fst (New_id (snd (time_Now w)))"
  have h: "request_headers (With c ?id) = [(''Accept'', ''application/json''), (''X-Request-ID'', ?id)]"
    using New_id_length [of "snd (time_Now w)"] by (auto simp: request_headers_def From_def With_def)
  obtain w1 where w1: "upstream w1 = upstream w"
      "upstream (snd (observed_call hp True lg ?svc source c call w)) = upstream (snd (handle_call hp lg ?svc (With c ?id) call w1))"
      "if IsLevelEnabled lg InfoLevel then access_entry ?id (last (logs (snd (observed_call hp True lg ?svc source c call w)))) else True"
    using observed_call_logs [of w hp lg ?svc source c call] by blast
  obtain sent where sent: "upstream (snd (handle_call hp lg ?svc (With c ?id) call w1)) = upstream w1 @ sent" "length sent \<le> 1"
      "list_all (\<lambda>(s, g). s = resty_config bi \<and> JoinPath hp (SearXNGURL cfg) ''/search'' = Some (hg_URL g)
         \<and> hg_Headers g = request_headers (With c ?id) \<and> hg_Query g = buildSearchQuery (clamped_params call)) sent"
    using handle_call_sends [OF assms] by blast
  have "list_all (\<lambda>(s, g). \<not> rt_FollowRedirects s \<and> JoinPath hp (SearXNGURL cfg) ''/search'' = Some (hg_URL g)
      \<and> hg_Query g = buildSearchQuery (clamped_params call)
      \<and> hg_Headers g = [(''Accept'', ''application/json''), (''X-Request-ID'', ?id)]) sent"
    using sent(3) unfolding h by (auto simp: list_all_iff resty_config_def)
  then show ?thesis using w1 sent(1,2) New_id_length [of "snd (time_Now w)"]
    unfolding buildServer_built fst_conv sum.case built_calls
    by (intro exI [of _ "fst (observed_call hp True lg ?svc source c call w)"]
        exI [of _ "snd (observed_call hp True lg ?svc source c call w)"] exI [of _ ?id] exI [of _ sent]) simp
qed

lemma request_id_correlates_witness:
  "\<forall>w. case fst (buildServer simple_host ErrText ErrText dev_build
        (\<lambda>s g v. (Failed None (ErrText ''down''), v\<lparr>upstream := upstream v @ [(s, g)]\<rparr>)) demo_cfg demo_logger ''http'' w) of
      Inl v \<Rightarrow> False
    | Inr deps \<Rightarrow> \<exists>res w' rid. call_tool (sd_tools deps) background demo_call w = Some (res, w')
        \<and> length rid = 32 \<and> access_entry rid (last (logs w'))"
proof
  fix w :: "(resty_settings \<times> http_get) list world"
  let ?tr = "\<lambda>s g v. (Failed None (ErrText ''down''), v\<lparr>upstream := upstream v @ [(s, g)]\<rparr>)"
  have "records ?tr" by (simp add: records_def)
  from request_id_correlates [OF this, where hp = simple_host and ue = ErrText and je = ErrText and bi = dev_build and cfg = demo_cfg
      and lg = demo_logger and source = "''http''" and ?w0.0 = w and c = background and call = demo_call and w = w]
  show "case fst (buildServer simple_host ErrText ErrText dev_build ?tr demo_cfg demo_logger ''http'' w) of
      Inl v \<Rightarrow> False
    | Inr deps \<Rightarrow> \<exists>res w' rid. call_tool (sd_tools deps) background demo_call w = Some (res, w')
        \<and> length rid = 32 \<and> access_entry rid (last (logs w'))"
    by (force simp: demo_logger_def IsLevelEnabled_def split: sum.splits)
qed

end
