(* ===== verification/Gateway.thy ===== *)
theory Gateway
  imports Wiring
begin

text \<open>
  The middleware chain of \<open>buildHTTPHandler\<close> under concurrent requests. \<open>Middleware\<close> runs one request
  through the chain at a time; here every request is a goroutine of its own, and what it shares with the
  others, the gauge of \<open>MetricsMiddleware\<close> and the limiter behind its mutex, it touches in atomic
  steps that interleave with those of the other requests, with evictions and with \<open>Stop\<close>.
\<close>

section \<open>Requests in flight\<close>

text \<open>How far a request has come: past \<open>activeRequests.Inc\<close>; past \<open>limiter.Allow\<close>, with its answer;
  inside the MCP handler.\<close>

datatype stage = Entered http_request | Decided http_request bool | Serving http_request

datatype gw_event =
    Enter nat http_request
  | Limit nat rl_event
  | Serve nat http_request
  | Answer nat "wcall list"
  | Background rl_event

record 'l gateway =
  gw_sys :: "'l rl_system"
  gw_gauge :: int
  gw_flight :: "nat \<rightharpoonup> stage"

text \<open>What the chain adds to the handler's calls: the recovered panic.\<close>

definition recovered :: "outcome \<Rightarrow> wcall list \<Rightarrow> wcall list" where
  "recovered out calls =
     (case out of Done \<Rightarrow> calls | Panicked v \<Rightarrow> calls @ http_Error ''Internal Server Error'' 500)"

text \<open>
  The steps. Numbers name the goroutines. Reading the body, checking the batch and finding the
  client's address touch nothing shared: between the limiter and the handler a request does what
  \<open>admit\<close> says. The handler \<open>mcp\<close> is run on whatever state the other requests have left, and takes any
  number of steps of the others. \<open>activeRequests.Dec\<close> is deferred, so it is in the last step on every
  path.
\<close>

inductive gw_step ::
  "(rat \<Rightarrow> go_int \<Rightarrow> 'l) \<Rightarrow> ('l \<Rightarrow> int \<Rightarrow> bool \<times> 'l) \<Rightarrow> int \<Rightarrow> ('l, 'u) http_handler
     \<Rightarrow> 'l gateway \<Rightarrow> gw_event \<Rightarrow> 'l gateway \<Rightarrow> bool"
  for new_lim allow_lim slack mcp where
  enter: "gw_flight g i = None
    \<Longrightarrow> gw_step new_lim allow_lim slack mcp g (Enter i r)
          (g\<lparr>gw_gauge := gw_gauge g + 1, gw_flight := (gw_flight g)(i \<mapsto> Entered r)\<rparr>)"
| limit: "\<lbrakk>gw_flight g i = Some (Entered r);
      rl_step new_lim allow_lim slack (gw_sys g) (Request (extractClientIP r) tg ts tc ok) s\<rbrakk>
    \<Longrightarrow> gw_step new_lim allow_lim slack mcp g (Limit i (Request (extractClientIP r) tg ts tc ok))
          (g\<lparr>gw_sys := s, gw_flight := (gw_flight g)(i \<mapsto> Decided r ok)\<rparr>)"
| refuse: "\<lbrakk>gw_flight g i = Some (Decided r ok); admit ok r = Refused code msg\<rbrakk>
    \<Longrightarrow> gw_step new_lim allow_lim slack mcp g (Answer i (http_Error msg code))
          (g\<lparr>gw_gauge := gw_gauge g - 1, gw_flight := (gw_flight g)(i := None)\<rparr>)"
| serve: "\<lbrakk>gw_flight g i = Some (Decided r ok); admit ok r = Admitted r'\<rbrakk>
    \<Longrightarrow> gw_step new_lim allow_lim slack mcp g (Serve i r')
          (g\<lparr>gw_flight := (gw_flight g)(i \<mapsto> Serving r')\<rparr>)"
| answer: "\<lbrakk>gw_flight g i = Some (Serving r'); mcp r' st = (out, calls, st')\<rbrakk>
    \<Longrightarrow> gw_step new_lim allow_lim slack mcp g (Answer i (recovered out calls))
          (g\<lparr>gw_gauge := gw_gauge g - 1, gw_flight := (gw_flight g)(i := None)\<rparr>)"
| background: "\<lbrakk>rl_step new_lim allow_lim slack (gw_sys g) e s; event_answer e = []\<rbrakk>
    \<Longrightarrow> gw_step new_lim allow_lim slack mcp g (Background e) (g\<lparr>gw_sys := s\<rparr>)"

inductive gw_run ::
  "(rat \<Rightarrow> go_int \<Rightarrow> 'l) \<Rightarrow> ('l \<Rightarrow> int \<Rightarrow> bool \<times> 'l) \<Rightarrow> int \<Rightarrow> ('l, 'u) http_handler
     \<Rightarrow> 'l gateway \<Rightarrow> gw_event list \<Rightarrow> 'l gateway \<Rightarrow> bool"
  for new_lim allow_lim slack mcp where
  start: "gw_run new_lim allow_lim slack mcp g [] g"
| snoc: "gw_run new_lim allow_lim slack mcp g es g' \<Longrightarrow> gw_step new_lim allow_lim slack mcp g' e g''
    \<Longrightarrow> gw_run new_lim allow_lim slack mcp g (es @ [e]) g''"

inductive_cases gw_run_snocE: "gw_run new_lim allow_lim slack mcp g (es @ [e]) g''"

text \<open>The gateway at the start: the limiter \<open>buildHTTPHandler\<close> makes, nothing in flight.\<close>

definition initial_gateway :: "(rat \<Rightarrow> go_int \<Rightarrow> 'l) \<Rightarrow> rate_limiter_config \<Rightarrow> int \<Rightarrow> 'l gateway" where
  "initial_gateway new_lim limits t0 =
     \<lparr>gw_sys = initial_system new_lim limits t0, gw_gauge = 0, gw_flight = Map.empty\<rparr>"

section \<open>What happened\<close>

definition limiter_event :: "gw_event \<Rightarrow> rl_event list" where
  "limiter_event e = (case e of Limit i ev \<Rightarrow> [ev] | Background ev \<Rightarrow> [ev] | _ \<Rightarrow> [])"

definition limiter_events :: "gw_event list \<Rightarrow> rl_event list" where
  "limiter_events es = concat (map limiter_event es)"

text \<open>The MCP handler is given a request; of one client.\<close>

definition served :: "gw_event \<Rightarrow> bool" where
  "served e = (case e of Serve i r \<Rightarrow> True | _ \<Rightarrow> False)"

definition served_to :: "string \<Rightarrow> gw_event \<Rightarrow> bool" where
  "served_to ip e = (case e of Serve i r \<Rightarrow> extractClientIP r = ip | _ \<Rightarrow> False)"

definition entered :: "gw_event \<Rightarrow> bool" where
  "entered e = (case e of Enter i r \<Rightarrow> True | _ \<Rightarrow> False)"

definition answered :: "gw_event \<Rightarrow> bool" where
  "answered e = (case e of Answer i calls \<Rightarrow> True | _ \<Rightarrow> False)"

text \<open>The same for the clients of a set, and the requests the limiter has granted them that the handler has
  not been given yet.\<close>

definition served_in :: "string set \<Rightarrow> gw_event \<Rightarrow> bool" where
  "served_in C e = (case e of Serve i r \<Rightarrow> extractClientIP r \<in> C | _ \<Rightarrow> False)"

definition granted_in :: "string set \<Rightarrow> rl_event \<Rightarrow> bool" where
  "granted_in C e = (case e of Request ip tg ts tc ok \<Rightarrow> ok \<and> ip \<in> C | _ \<Rightarrow> False)"

definition pending :: "string set \<Rightarrow> 'l gateway \<Rightarrow> nat set" where
  "pending C g = {i. \<exists>r. gw_flight g i = Some (Decided r True) \<and> extractClientIP r \<in> C}"

lemma granted_in_eqs: "granted_to ip = granted_in {ip}" "granted = granted_in UNIV"
  by (auto simp: fun_eq_iff granted_to_def granted_def granted_in_def split: rl_event.split)

lemma served_in_eqs: "served_to ip = served_in {ip}" "served = served_in UNIV"
  by (auto simp: fun_eq_iff served_to_def served_def served_in_def split: gw_event.split)

lemma rl_trace_snoc:
  assumes "rl_trace nl al slack s es s'" "rl_step nl al slack s' e s''"
  shows "rl_trace nl al slack s (es @ [e]) s''"
  using assms by (induction rule: rl_trace.induct) (auto intro: rl_trace.intros)

lemma gw_step_limiter:
  assumes "gw_step nl al slack mcp g e g'"
  shows "(limiter_event e = [] \<and> gw_sys g' = gw_sys g)
    \<or> (\<exists>ev. limiter_event e = [ev] \<and> rl_step nl al slack (gw_sys g) ev (gw_sys g'))"
  using assms by (cases rule: gw_step.cases) (auto simp: limiter_event_def)

text \<open>The limiter sees a run of its own.\<close>

lemma gw_run_limiter:
  assumes "gw_run nl al slack mcp g es g'"
  shows "rl_trace nl al slack (gw_sys g) (limiter_events es) (gw_sys g')"
  using assms
proof (induction rule: gw_run.induct)
  case (start g)
  then show ?case by (simp add: limiter_events_def rl_trace.nil)
next
  case (snoc g es g' e g'')
  then show ?case using gw_step_limiter [OF snoc.hyps(2)] rl_trace_snoc
    by (auto simp: limiter_events_def)
qed

text \<open>A request is in flight, and counted, from its first step to its last.\<close>

lemma gw_step_flight:
  assumes "gw_step nl al slack mcp g e g'"
  shows "case e of
      Enter i r \<Rightarrow> i \<notin> dom (gw_flight g) \<and> dom (gw_flight g') = insert i (dom (gw_flight g)) \<and> gw_gauge g' = gw_gauge g + 1
    | Answer i calls \<Rightarrow> i \<in> dom (gw_flight g) \<and> dom (gw_flight g') = dom (gw_flight g) - {i} \<and> gw_gauge g' = gw_gauge g - 1
    | _ \<Rightarrow> dom (gw_flight g') = dom (gw_flight g) \<and> gw_gauge g' = gw_gauge g"
  using assms by (cases rule: gw_step.cases) auto

lemma gw_run_finite:
  assumes "gw_run nl al slack mcp g es g'" "finite (dom (gw_flight g))"
  shows "finite (dom (gw_flight g'))"
  using assms
proof (induction rule: gw_run.induct)
  case (snoc g es g' e g'')
  then show ?case using gw_step_flight [OF snoc.hyps(2)] by (cases e) simp_all
qed

lemma extractClientIP_context [simp]: "extractClientIP (r\<lparr>rq_Context := c\<rparr>) = extractClientIP r"
  by (simp add: extractClientIP_def Let_def)

lemma admitted_client: "admit ok r = Admitted r' \<Longrightarrow> ok \<and> extractClientIP r' = extractClientIP r"
  by (auto simp: admit_def split: if_splits option.splits)

text \<open>The handler is given no more requests than the limiter has granted.\<close>

lemma finite_pending: "finite (dom (gw_flight g)) \<Longrightarrow> finite (pending C g)"
  by (erule rev_finite_subset) (auto simp: pending_def)

lemma gw_step_serves:
  assumes "gw_step nl al slack mcp g e g'" "finite (dom (gw_flight g))"
  shows "of_bool (served_in C e) + card (pending C g')
    \<le> length (filter (granted_in C) (limiter_event e)) + card (pending C g)"
  using assms(1)
proof (cases rule: gw_step.cases)
  case (enter i r)
  then have "pending C g' = pending C g" by (auto simp: pending_def)
  then show ?thesis using enter by (simp add: served_in_def)
next
  case (limit i r tg ts tc ok s)
  then have "pending C g' = (if ok \<and> extractClientIP r \<in> C then insert i (pending C g) else pending C g)"
    by (auto simp: pending_def)
  moreover have "i \<notin> pending C g" using limit by (simp add: pending_def)
  ultimately show ?thesis using limit finite_pending [OF assms(2)]
    by (simp add: served_in_def granted_in_def limiter_event_def)
next
  case (refuse i r ok code msg)
  then have "pending C g' \<subseteq> pending C g" by (auto simp: pending_def split: if_splits)
  then show ?thesis using refuse card_mono [OF finite_pending [OF assms(2)]] by (simp add: served_in_def trans_le_add2)
next
  case (serve i r ok r')
  note a = admitted_client [OF serve(4)]
  have p: "pending C g' = pending C g - {i}" using serve by (auto simp: pending_def split: if_splits)
  have "i \<in> pending C g \<longleftrightarrow> extractClientIP r' \<in> C" using serve(3) a by (simp add: pending_def)
  then show ?thesis using serve(1) p card_Suc_Diff1 [OF finite_pending [OF assms(2)], of i C]
    by (cases "i \<in> pending C g") (simp_all add: served_in_def)
next
  case (answer i r' st out calls st')
  then have "pending C g' = pending C g" by (auto simp: pending_def split: if_splits)
  then show ?thesis using answer by (simp add: served_in_def)
next
  case (background ev s)
  then have "pending C g' = pending C g" by (simp add: pending_def)
  then show ?thesis using background by (simp add: served_in_def)
qed

lemma gw_run_serves:
  assumes "gw_run nl al slack mcp g es g'" "finite (dom (gw_flight g))"
  shows "length (filter (served_in C) es) + card (pending C g')
    \<le> length (filter (granted_in C) (limiter_events es)) + card (pending C g)"
  using assms
proof (induction rule: gw_run.induct)
  case (start g)
  then show ?case by (simp add: limiter_events_def)
next
  case (snoc g es g' e g'')
  have "of_bool (served_in C e) + card (pending C g'')
      \<le> length (filter (granted_in C) (limiter_event e)) + card (pending C g')"
    using snoc.hyps(2) gw_run_finite [OF snoc.hyps(1) snoc.prems] by (rule gw_step_serves)
  then show ?case using snoc.IH [OF snoc.prems]
    by (cases "served_in C e") (simp_all add: limiter_events_def)
qed

text \<open>The gauge counts the requests in flight.\<close>

lemma gw_step_gauge:
  assumes "gw_step nl al slack mcp g e g'" "finite (dom (gw_flight g))" "gw_gauge g = int (card (dom (gw_flight g)))"
  shows "gw_gauge g' = int (card (dom (gw_flight g')))
    \<and> of_bool (entered e) + card (dom (gw_flight g)) = of_bool (answered e) + card (dom (gw_flight g'))"
proof -
  obtain D D' where D: "dom (gw_flight g) = D" "dom (gw_flight g') = D'" by blast
  note st = gw_step_flight [OF assms(1), unfolded D] and fin = assms(2,3) [unfolded D]
  show ?thesis unfolding D
  proof (cases e)
    case (Enter i r)
    then show "gw_gauge g' = int (card D') \<and> of_bool (entered e) + card D = of_bool (answered e) + card D'"
      using st fin by (simp add: entered_def answered_def)
  next
    case (Answer i calls)
    then have a: "i \<in> D" "D' = D - {i}" "gw_gauge g' = gw_gauge g - 1" using st by simp_all
    have "card D = Suc (card D')" unfolding a(2) by (rule card_Suc_Diff1 [OF fin(1) a(1), symmetric])
    then show "gw_gauge g' = int (card D') \<and> of_bool (entered e) + card D = of_bool (answered e) + card D'"
      using Answer a(3) fin(2) by (simp add: entered_def answered_def)
  qed (use st fin in \<open>simp_all add: entered_def answered_def\<close>)
qed

lemma gw_run_gauge:
  assumes "gw_run nl al slack mcp g es g'" "finite (dom (gw_flight g))" "gw_gauge g = int (card (dom (gw_flight g)))"
  shows "gw_gauge g' = int (card (dom (gw_flight g')))
    \<and> length (filter entered es) + card (dom (gw_flight g)) = length (filter answered es) + card (dom (gw_flight g'))"
  using assms
proof (induction rule: gw_run.induct)
  case (snoc g es g' e g'')
  from snoc.IH [OF snoc.prems]
  have ih: "gw_gauge g' = int (card (dom (gw_flight g')))"
    "length (filter entered es) + card (dom (gw_flight g)) = length (filter answered es) + card (dom (gw_flight g'))"
    by simp_all
  from gw_step_gauge [OF snoc.hyps(2) gw_run_finite [OF snoc.hyps(1) snoc.prems(1)] ih(1)] ih(2)
  show ?case by (cases "entered e"; cases "answered e") simp_all
qed simp

section \<open>One request among the others\<close>

text \<open>The steps of one goroutine.\<close>

definition concerns :: "nat \<Rightarrow> gw_event \<Rightarrow> bool" where
  "concerns i e =
     (case e of Enter j r \<Rightarrow> j = i | Limit j ev \<Rightarrow> j = i | Serve j r \<Rightarrow> j = i | Answer j calls \<Rightarrow> j = i
      | Background ev \<Rightarrow> False)"

lemma concerns_simps [simp]:
  "concerns i (Enter j r) = (j = i)" "concerns i (Limit j ev) = (j = i)" "concerns i (Serve j r) = (j = i)"
  "concerns i (Answer j calls) = (j = i)" "\<not> concerns i (Background ev)"
  by (simp_all add: concerns_def)

text \<open>In the run \<open>es\<close> the limiter has answered \<open>ok\<close> to \<open>r\<close>, which came in as \<open>i\<close>, and the steps of \<open>i\<close>
  since then are \<open>later\<close>.\<close>

definition decided_in ::
  "(rat \<Rightarrow> go_int \<Rightarrow> 'l) \<Rightarrow> ('l \<Rightarrow> int \<Rightarrow> bool \<times> 'l) \<Rightarrow> int \<Rightarrow> ('l, 'u) http_handler \<Rightarrow> 'l gateway
     \<Rightarrow> gw_event list \<Rightarrow> nat \<Rightarrow> http_request \<Rightarrow> bool \<Rightarrow> gw_event list \<Rightarrow> bool" where
  "decided_in nl al slack mcp g es i r ok later \<longleftrightarrow>
     (\<exists>es0 es1 g0 old tg ts tc. es = es0 @ Limit i (Request (extractClientIP r) tg ts tc ok) # es1
        \<and> filter (concerns i) es0 = old @ [Enter i r] \<and> filter (concerns i) es1 = later
        \<and> gw_run nl al slack mcp g es0 g0
        \<and> fst (Allow nl al (sys_rl (gw_sys g0)) (extractClientIP r) tg ts tc) = ok)"

lemma decided_in_snoc:
  assumes "decided_in nl al slack mcp g es i r ok later"
  shows "decided_in nl al slack mcp g (es @ [e]) i r ok (later @ filter (concerns i) [e])"
proof -
  obtain es0 es1 g0 old tg ts tc where "es = es0 @ Limit i (Request (extractClientIP r) tg ts tc ok) # es1"
    "filter (concerns i) es0 = old @ [Enter i r]" "filter (concerns i) es1 = later" "gw_run nl al slack mcp g es0 g0"
    "fst (Allow nl al (sys_rl (gw_sys g0)) (extractClientIP r) tg ts tc) = ok"
    using assms unfolding decided_in_def by blast
  then show ?thesis unfolding decided_in_def
    by (intro exI [of _ es0] exI [of _ "es1 @ [e]"] exI [of _ g0] exI [of _ old] exI [of _ tg] exI [of _ ts] exI [of _ tc])
      simp
qed

definition history ::
  "(rat \<Rightarrow> go_int \<Rightarrow> 'l) \<Rightarrow> ('l \<Rightarrow> int \<Rightarrow> bool \<times> 'l) \<Rightarrow> int \<Rightarrow> ('l, 'u) http_handler \<Rightarrow> 'l gateway
     \<Rightarrow> gw_event list \<Rightarrow> nat \<Rightarrow> stage option \<Rightarrow> bool" where
  "history nl al slack mcp g es i x =
     (case x of
        None \<Rightarrow> True
      | Some (Entered r) \<Rightarrow> (\<exists>old. filter (concerns i) es = old @ [Enter i r])
      | Some (Decided r ok) \<Rightarrow> decided_in nl al slack mcp g es i r ok []
      | Some (Serving r') \<Rightarrow> (\<exists>r ok. admit ok r = Admitted r' \<and> decided_in nl al slack mcp g es i r ok [Serve i r']))"

lemma history_snoc:
  "history nl al slack mcp g es i x \<Longrightarrow> \<not> concerns i e \<Longrightarrow> history nl al slack mcp g (es @ [e]) i x"
  using decided_in_snoc [of nl al slack mcp g es i _ _ _ e]
  by (fastforce simp: history_def split: option.splits stage.splits)

lemma rl_step_Allow:
  "rl_step nl al slack s (Request ip tg ts tc ok) s' \<Longrightarrow> fst (Allow nl al (sys_rl s) ip tg ts tc) = ok"
  by (erule rl_step.cases) simp_all

lemma gw_step_other:
  "gw_step nl al slack mcp g e g' \<Longrightarrow> \<not> concerns i e \<Longrightarrow> gw_flight g' i = gw_flight g i"
  by (erule gw_step.cases) auto

lemma gw_run_history:
  assumes "gw_run nl al slack mcp g es g'" "gw_flight g = Map.empty"
  shows "history nl al slack mcp g es i (gw_flight g' i)"
  using assms
proof (induction rule: gw_run.induct)
  case (start g)
  then show ?case by (simp add: history_def)
next
  case (snoc g es g' e g'')
  note ih = snoc.IH [OF snoc.prems]
  show ?case
  proof (cases "concerns i e")
    case False
    then show ?thesis using gw_step_other [OF snoc.hyps(2) False] history_snoc [OF ih False] by simp
  next
    case True
    from snoc.hyps(2) show ?thesis
    proof (cases rule: gw_step.cases)
      case (limit j r tg ts tc ok s)
      have i: "j = i" using True limit(1) by simp
      obtain old where old: "filter (concerns i) es = old @ [Enter i r]"
        using ih limit(3) unfolding i history_def by auto
      have "decided_in nl al slack mcp g (es @ [e]) i r ok []" unfolding decided_in_def limit(1) i
        using old snoc.hyps(1) rl_step_Allow [OF limit(4)]
        by (intro exI [of _ es] exI [of _ "[]"] exI [of _ g'] exI [of _ old] exI [of _ tg] exI [of _ ts] exI [of _ tc]) simp
      then show ?thesis using limit(2) i by (simp add: history_def)
    next
      case (serve j r ok r')
      have i: "j = i" using True serve(1) by simp
      have "decided_in nl al slack mcp g es i r ok []" using ih serve(3) unfolding i history_def by simp
      from decided_in_snoc [OF this, of e] have "decided_in nl al slack mcp g (es @ [e]) i r ok [Serve i r']"
        using serve(1) i by simp
      then show ?thesis using serve(2,4) i by (auto simp: history_def)
    next
      case (enter j r)
      then have "gw_flight g'' i = Some (Entered r)" "e = Enter i r" using True by simp_all
      then show ?thesis by (simp add: history_def)
    qed (use True in \<open>simp_all add: history_def\<close>)
  qed
qed

text \<open>What the clock will show next, and the chain on a state where the limiter's answer is known.\<close>

abbreviation reading :: "('l, 'u) http_state \<Rightarrow> nat \<Rightarrow> int" where
  "reading st k \<equiv> clock (st_world st) (clock_pos (st_world st) + k)"

lemma Allow_now_Allow:
  "fst (Allow_now nl al ip (gauge n st))
    = fst (Allow nl al (st_limiter st) ip (reading st 0) (reading st 1) (reading st 2))"
  by (simp add: Allow_now_def Let_def gauge_def split: prod.split)

lemma state_with:
  "\<exists>st :: ('l, 'u) http_state. st_limiter st = rl \<and> reading st 0 = tg \<and> reading st 1 = ts \<and> reading st 2 = tc"
proof -
  let ?w = "(undefined :: 'u world)\<lparr>clock := (\<lambda>n. if n = 0 then tg else if n = 1 then ts else tc), clock_pos := 0\<rparr>"
  show ?thesis by (intro exI [of _ "\<lparr>st_world = ?w, st_limiter = rl\<rparr>"]) simp
qed

text \<open>Where an answer comes from.\<close>

lemma answer_decided:
  assumes "gw_run nl al slack mcp g es g'" "gw_flight g = Map.empty" "gw_step nl al slack mcp g' (Answer i calls) g''"
  shows "\<exists>r ok stm. decided_in nl al slack mcp g es i r ok
        (case admit ok r of Refused code msg \<Rightarrow> [] | Admitted r' \<Rightarrow> [Serve i r'])
      \<and> (case admit ok r of Refused code msg \<Rightarrow> calls = http_Error msg code
          | Admitted r' \<Rightarrow> calls = recovered (fst (mcp r' stm)) (fst (snd (mcp r' stm))))"
proof -
  note h = gw_run_history [OF assms(1,2), of i]
  show ?thesis using assms(3)
  proof (cases rule: gw_step.cases)
    case (refuse r ok code msg)
    then show ?thesis using h by (intro exI [of _ r] exI [of _ ok]) (simp add: history_def)
  next
    case (answer r' st out cs st')
    then obtain r ok where "admit ok r = Admitted r'" "decided_in nl al slack mcp g es i r ok [Serve i r']"
      using h by (auto simp: history_def)
    then show ?thesis using answer by (intro exI [of _ r] exI [of _ ok] exI [of _ st]) simp
  qed
qed

text \<open>How a request goes on.\<close>

lemma serving_ends:
  assumes "gw_run nl al slack mcp g0 es g" "gw_flight g i = Some (Serving r)"
  shows "\<exists>calls g'. gw_run nl al slack mcp g0 (es @ [Answer i calls]) g' \<and> i \<notin> dom (gw_flight g')"
proof -
  obtain out calls st' where "mcp r undefined = (out, calls, st')" by (cases "mcp r undefined")
  with gw_run.snoc [OF assms(1) gw_step.answer [OF assms(2)]] show ?thesis by fastforce
qed

lemma decided_ends:
  assumes "gw_run nl al slack mcp g0 es g" "gw_flight g i = Some (Decided r ok)"
  shows "\<exists>es' calls g'. length es' \<le> 1 \<and> list_all (concerns i) es'
    \<and> gw_run nl al slack mcp g0 (es @ es' @ [Answer i calls]) g' \<and> i \<notin> dom (gw_flight g')"
proof (cases "admit ok r")
  case (Refused code msg)
  from gw_run.snoc [OF assms(1) gw_step.refuse [OF assms(2) this]] show ?thesis
    by (intro exI [of _ "[]"] exI [of _ "http_Error msg code"] exI conjI) auto
next
  case (Admitted r')
  from serving_ends [OF gw_run.snoc [OF assms(1) gw_step.serve [OF assms(2) this]], of i r'] show ?thesis
    by (intro exI [of _ "[Serve i r']"]) simp
qed

lemma chain_answer:
  assumes "fst (Allow nl al (st_limiter st) (extractClientIP r) (reading st 0) (reading st 1) (reading st 2)) = ok"
  shows "admit ok r = Refused code msg \<Longrightarrow> \<exists>st'. http_chain nl al lg mcp r st = (Done, http_Error msg code, st')"
    and "admit ok r = Admitted r' \<Longrightarrow> mcp = (\<lambda>r _. h r stm) \<Longrightarrow> h r' stm = (out, calls, st2)
      \<Longrightarrow> \<exists>st'. http_chain nl al lg mcp r st = (Done, recovered out calls, st')"
proof -
  obtain st0 where "Allow_now nl al (extractClientIP r) (gauge 1 st) = (ok, st0)"
    using Allow_now_Allow [of nl al "extractClientIP r" 1 st] assms
    by (cases "Allow_now nl al (extractClientIP r) (gauge 1 st)") simp
  note c = http_chain_cases [OF this, of lg mcp]
  show "admit ok r = Refused code msg \<Longrightarrow> \<exists>st'. http_chain nl al lg mcp r st = (Done, http_Error msg code, st')"
    using c by auto
  show "admit ok r = Admitted r' \<Longrightarrow> mcp = (\<lambda>r _. h r stm) \<Longrightarrow> h r' stm = (out, calls, st2)
      \<Longrightarrow> \<exists>st'. http_chain nl al lg mcp r st = (Done, recovered out calls, st')"
    using c by (cases out) (auto simp: recovered_def)
qed

text \<open>A run of one request.\<close>

definition demo_run :: "gw_event list" where
  "demo_run =
     [Enter 0 demo_request, Limit 0 (Request (extractClientIP demo_request) 0 0 0 True), Serve 0 demo_request,
      Answer 0 (recovered (Panicked ''boom'') [])]"

abbreviation demo_mcp :: "(bucket, unit) http_handler" where
  "demo_mcp \<equiv> (\<lambda>r st. (Panicked ''boom'', [], st))"

lemma demo_admit: "admit True demo_request = Admitted demo_request"
proof -
  have "TrimSpace [] = []" "checkBatchSize [] = None" by code_simp+
  then show ?thesis by (simp add: admit_def demo_request_def proxyClientIP_def header_get_def)
qed

lemma gw_run_snoc2: "gw_run nl al slack mcp g es g' \<Longrightarrow> gw_step nl al slack mcp g' e g'' \<Longrightarrow> es' = es @ [e]
    \<Longrightarrow> gw_run nl al slack mcp g es' g''"
  by (auto intro: gw_run.snoc)

lemma demo_first_request:
  "\<exists>s. rl_step new_bucket allow_bucket 0 (initial_system new_bucket (http_limits demo_cfg) 0) (Request ip 0 0 0 True) s
    \<and> sys_now s = 0"
proof -
  let ?s = "initial_system new_bucket (http_limits demo_cfg) 0"
  obtain rl' where "Allow new_bucket allow_bucket (sys_rl ?s) ip 0 0 0 = (True, rl')"
    by (simp add: demo_defs initial_system_def NewRateLimiter_def http_limits_def demo_cfg_def burstMultiplier_def)
  then show ?thesis
    by (intro exI [of _ "?s\<lparr>sys_rl := rl', sys_now := 0\<rparr>"] conjI rl_step.request) (simp_all add: initial_system_def)
qed

lemma demo_gateway:
  "\<exists>g. gw_run new_bucket allow_bucket 0 demo_mcp (initial_gateway new_bucket (http_limits demo_cfg) 0) demo_run g
    \<and> sys_now (gw_sys g) = 0 \<and> gw_flight g = Map.empty"
  "\<exists>g. gw_run new_bucket allow_bucket 0 demo_mcp (initial_gateway new_bucket (http_limits demo_cfg) 0) (take 1 demo_run) g
    \<and> gw_flight g 0 = Some (Entered demo_request)"
proof -
  let ?run = "gw_run new_bucket allow_bucket 0 demo_mcp (initial_gateway new_bucket (http_limits demo_cfg) 0)"
  obtain s where s: "rl_step new_bucket allow_bucket 0 (initial_system new_bucket (http_limits demo_cfg) 0)
      (Request (extractClientIP demo_request) 0 0 0 True) s" "sys_now s = 0"
    using demo_first_request by blast
  let ?g = "\<lambda>s n x. \<lparr>gw_sys = s, gw_gauge = n, gw_flight = (\<lambda>_. None)(0 := x)\<rparr>"
  let ?i = "initial_system new_bucket (http_limits demo_cfg) 0"
  note step = gw_run_snoc2 [of new_bucket allow_bucket 0 demo_mcp]
  have 1: "?run (take 1 demo_run) (?g ?i 1 (Some (Entered demo_request)))"
    by (rule step [OF gw_run.start])
      (use gw_step.enter [of "initial_gateway new_bucket (http_limits demo_cfg) 0" 0] in
        \<open>auto simp: demo_run_def initial_gateway_def\<close>)
  have "?run (take 2 demo_run) (?g s 1 (Some (Decided demo_request True)))"
    by (rule step [OF 1]) (use gw_step.limit [of "?g ?i 1 (Some (Entered demo_request))" 0 demo_request] s(1) in
      \<open>auto simp: demo_run_def\<close>)
  then have "?run (take 3 demo_run) (?g s 1 (Some (Serving demo_request)))"
    by (rule step) (use gw_step.serve [of "?g s 1 (Some (Decided demo_request True))" 0, OF _ demo_admit] in
      \<open>auto simp: demo_run_def\<close>)
  then have "?run (take 4 demo_run) (?g s 0 None)"
    by (rule step) (use gw_step.answer [of "?g s 1 (Some (Serving demo_request))" 0 demo_request demo_mcp] in \<open>auto simp: demo_run_def\<close>)
  then show "\<exists>g. ?run demo_run g \<and> sys_now (gw_sys g) = 0 \<and> gw_flight g = Map.empty"
    using s(2) by (intro exI [of _ "?g s 0 None"]) (simp add: demo_run_def)
  show "\<exists>g. ?run (take 1 demo_run) g \<and> gw_flight g 0 = Some (Entered demo_request)"
    using 1 by (intro exI [of _ "?g ?i 1 (Some (Entered demo_request))"]) simp
qed

section \<open>Properties\<close>

text \<open>C5. The configured limits hold of the running gateway. For a valid configuration with limits of up to
  2 ^ 53 requests per second, however requests, evictions and the shutdown interleave, at any time after
  the start the MCP handler has been given at most a client's limit times the elapsed seconds plus two
  of its requests, and of all clients at most the global limit times that, whatever was evicted in
  between.\<close>

theorem gateway_limits:
  assumes "valid_config hp cfg" "sint (RateLimitGlobal cfg) \<le> 2 ^ 53" "sint (RateLimitPerClient cfg) \<le> 2 ^ 53"
    and "token_limiter new_lim allow_lim holds" "slack \<le> clientTTL - seconds 2"
    and "gw_run new_lim allow_lim slack mcp (initial_gateway new_lim (http_limits cfg) t0) es g"
  shows "rat_of_nat (length (filter (served_to ip) es))
      \<le> of_int (sint (RateLimitPerClient cfg)) * (2 + of_int (sys_now (gw_sys g) - t0) / 1000000000)
    \<and> rat_of_nat (length (filter served es))
      \<le> of_int (sint (RateLimitGlobal cfg)) * (2 + of_int (sys_now (gw_sys g) - t0) / 1000000000)"
proof -
  have t: "rl_trace new_lim allow_lim slack (initial_system new_lim (http_limits cfg) t0) (limiter_events es) (gw_sys g)"
    using gw_run_limiter [OF assms(6)] by (simp add: initial_gateway_def)
  have "length (filter (served_in C) es) \<le> length (filter (granted_in C) (limiter_events es))" for C
    using gw_run_serves [OF assms(6), of C] by (simp add: initial_gateway_def pending_def)
  then have le: "rat_of_nat (length (filter (served_in C) es)) \<le> of_nat (length (filter (granted_in C) (limiter_events es)))"
    for C by simp
  from configured_limits [OF assms(1-5) t, of ip] show ?thesis
    unfolding granted_in_eqs served_in_eqs using order_trans [OF le] by blast
qed

lemma gateway_limits_witness:
  "\<exists>g. gw_run new_bucket allow_bucket 0 demo_mcp (initial_gateway new_bucket (http_limits demo_cfg) 0) demo_run g
     \<and> rat_of_nat (length (filter (served_to (extractClientIP demo_request)) demo_run)) \<le> 10 * (2 + 0)"
proof -
  obtain g where g: "gw_run new_bucket allow_bucket 0 demo_mcp (initial_gateway new_bucket (http_limits demo_cfg) 0) demo_run g"
    "sys_now (gw_sys g) = 0" using demo_gateway(1) by blast
  have "rat_of_nat (length (filter (served_to (extractClientIP demo_request)) demo_run))
      \<le> of_int (sint (RateLimitPerClient demo_cfg)) * (2 + of_int (sys_now (gw_sys g) - 0) / 1000000000)"
    using gateway_limits [OF demo_cfg_valid(1) _ _ bucket.token_limiter_axioms _ g(1), of "extractClientIP demo_request"]
    by (simp add: demo_cfg_def clientTTL_def minute_def seconds_def)
  then show ?thesis using g by (intro exI [of _ g]) (simp add: demo_cfg_def)
qed



text \<open>C14. Concurrent requests are answered like lone ones. Whatever a request is answered among the others
  is what the chain, run on it alone, answers from the limiter as it was when the request reached it,
  with the clock as the limiter read it, around the handler on the state the handler found; the
  goroutine has asked the limiter once, and has called the handler once or, when the request is refused,
  not at all.\<close>

theorem gateway_answers:
  assumes "gw_run new_lim allow_lim slack mcp (initial_gateway new_lim limits t0) (es @ [Answer i calls]) g"
  shows "\<exists>es0 es1 g0 old r ok st stm.
      es = es0 @ Limit i (Request (extractClientIP r) (reading st 0) (reading st 1) (reading st 2) ok) # es1
    \<and> filter (concerns i) es0 = old @ [Enter i r]
    \<and> filter (concerns i) es1 = (case admit ok r of Refused code msg \<Rightarrow> [] | Admitted r' \<Rightarrow> [Serve i r'])
    \<and> gw_run new_lim allow_lim slack mcp (initial_gateway new_lim limits t0) es0 g0
    \<and> st_limiter st = sys_rl (gw_sys g0)
    \<and> (\<exists>st'. http_chain new_lim allow_lim lg (\<lambda>r' _. mcp r' stm) r st = (Done, calls, st'))"
proof -
  let ?i = "initial_gateway new_lim limits t0"
  obtain g1 where g1: "gw_run new_lim allow_lim slack mcp ?i es g1" "gw_step new_lim allow_lim slack mcp g1 (Answer i calls) g"
    using assms by (blast elim: gw_run_snocE)
  have "gw_flight ?i = Map.empty" by (simp add: initial_gateway_def)
  from answer_decided [OF g1(1) this g1(2)] obtain r ok stm es0 es1 g0 old tg ts tc where
    d: "es = es0 @ Limit i (Request (extractClientIP r) tg ts tc ok) # es1" "filter (concerns i) es0 = old @ [Enter i r]"
      "filter (concerns i) es1 = (case admit ok r of Refused code msg \<Rightarrow> [] | Admitted r' \<Rightarrow> [Serve i r'])"
      "gw_run new_lim allow_lim slack mcp ?i es0 g0"
    and ok: "fst (Allow new_lim allow_lim (sys_rl (gw_sys g0)) (extractClientIP r) tg ts tc) = ok"
    and calls: "case admit ok r of Refused code msg \<Rightarrow> calls = http_Error msg code
          | Admitted r' \<Rightarrow> calls = recovered (fst (mcp r' stm)) (fst (snd (mcp r' stm)))"
    unfolding decided_in_def by blast
  obtain st :: "('a, 'b) http_state" where
    st: "st_limiter st = sys_rl (gw_sys g0)" "reading st 0 = tg" "reading st 1 = ts" "reading st 2 = tc"
    using state_with by blast
  have "fst (Allow new_lim allow_lim (st_limiter st) (extractClientIP r) (reading st 0) (reading st 1) (reading st 2)) = ok"
    unfolding st by (rule ok)
  note chain = chain_answer [OF this, where lg = lg and mcp = "\<lambda>r' _. mcp r' stm"]
  have "\<exists>st'. http_chain new_lim allow_lim lg (\<lambda>r' _. mcp r' stm) r st = (Done, calls, st')"
  proof (cases "admit ok r")
    case (Refused code msg)
    then show ?thesis using chain(1) calls by simp
  next
    case (Admitted r')
    then have "calls = recovered (fst (mcp r' stm)) (fst (snd (mcp r' stm)))" using calls by simp
    then show ?thesis using chain(2) [where h = mcp and stm = stm, OF Admitted refl] by (metis prod.collapse)
  qed
  then show ?thesis using d unfolding st(1) [symmetric] st(2-4) [symmetric]
    by (intro exI [of _ es0] exI [of _ es1] exI [of _ g0] exI [of _ old] exI [of _ r] exI [of _ ok] exI [of _ st] exI [of _ stm])
      (use st(1) in simp)
qed

lemma gateway_answers_witness:
  "\<exists>(g0 :: bucket gateway) r ok st stm.
     Limit 0 (Request (extractClientIP r) (reading st 0) (reading st 1) (reading st 2) ok) \<in> set (take 3 demo_run)
     \<and> st_limiter st = sys_rl (gw_sys g0)
     \<and> (\<exists>st'. http_chain new_bucket allow_bucket demo_logger (\<lambda>r' _. demo_mcp r' stm) r st
           = (Done, recovered (Panicked ''boom'') [], st'))"
proof -
  have "demo_run = take 3 demo_run @ [Answer 0 (recovered (Panicked ''boom'') [])]" by (simp add: demo_run_def)
  then obtain g where "gw_run new_bucket allow_bucket 0 demo_mcp (initial_gateway new_bucket (http_limits demo_cfg) 0)
      (take 3 demo_run @ [Answer 0 (recovered (Panicked ''boom'') [])]) g" using demo_gateway(1) by metis
  from gateway_answers [OF this, of demo_logger] obtain es0 es1 r ok st stm and g0 :: "bucket gateway" where
    "take 3 demo_run = es0 @ Limit 0 (Request (extractClientIP r) (reading st 0) (reading st 1) (reading st 2) ok) # es1"
    "st_limiter st = sys_rl (gw_sys g0)"
    "\<exists>st'. http_chain new_bucket allow_bucket demo_logger (\<lambda>r' _. demo_mcp r' stm) r st
       = (Done, recovered (Panicked ''boom'') [], st')" by blast
  then show ?thesis by (intro exI [of _ g0] exI [of _ r] exI [of _ ok] exI [of _ st] exI [of _ stm]) simp
qed



end
