(* ===== verification/Spec2Isabelle.thy ===== *)
theory Spec2Isabelle
  imports Gateway
begin

text \<open>
  Verification development for mcp-searxng, an MCP server in Go that answers web searches through a
  SearXNG instance.

  \<^bold>\<open>The program.\<close> A tool call arrives over stdio or HTTP. In HTTP mode it first passes a chain of
  middleware (\<open>handlers/middleware.go\<close>, \<open>metrics.go\<close>, \<open>ratelimit.go\<close>, \<open>clientip.go\<close>). The MCP SDK then
  calls the handler registered under the tool's name (\<open>handlers/registration.go\<close>), which is wrapped for
  the access log (\<open>accesslog.go\<close>) and the metrics; it validates the input, asks the search service
  (\<open>application/service.go\<close>), whose repository is the SearXNG client (\<open>infrastructure/searxng\<close>), and
  sanitizes the answer (\<open>handlers/tools.go\<close>). \<open>cmd/server/main.go\<close> loads the configuration
  (\<open>config/config.go\<close>), makes the logger (\<open>logging\<close>) and wires all of this together.

  \<^bold>\<open>The layers of the development.\<close> Each theory names the files it models in its own introduction.

  \<^item> The Go standard library as far as the program uses it: \<open>Utf8\<close> (runes), \<open>GoStrings\<close>, \<open>GoUrl\<close>
    (\<open>net/url\<close>), \<open>GoTime\<close> (\<open>time.Parse\<close>), \<open>GoJson\<close> and \<open>JsonText\<close> (\<open>encoding/json\<close>: the parser, decoding
    into structs, and the text of values), \<open>GoValue\<close> (reflection and \<open>json.Marshal\<close>). \<open>Prelude\<close> has the
    words (\<open>int\<close> is \<open>64 word\<close>), the errors and the results.
  \<^item> State: \<open>Effects\<close> has the world that operations thread through (the upstream service, the clock, the
    random source, log entries, metrics) and the request context (\<open>requestid/requestid.go\<close>);
    \<open>Logging\<close> is \<open>logging/logging.go\<close>; \<open>Domain\<close> is \<open>domain\<close> and \<open>application\<close>.
  \<^item> The tools: \<open>Sanitize\<close> and \<open>Tools\<close> (\<open>handlers/tools.go\<close>).
  \<^item> The client: \<open>Models\<close> (\<open>models.go\<close>) and \<open>Client\<close> (\<open>client.go\<close>).
  \<^item> The HTTP side: \<open>RateLimit\<close>, \<open>ClientIP\<close>, \<open>Middleware\<close>, with \<open>LogSafety\<close> for what may be logged.
  \<^item> Observation: \<open>Redact\<close>, \<open>AccessLog\<close>, \<open>Registration\<close>, \<open>Telemetry\<close> (the Prometheus collectors),
    \<open>Observability\<close> (routes, probe, guidance), \<open>Slog\<close> (\<open>logging/slog.go\<close>).
  \<^item> The whole: \<open>Config\<close>, \<open>Server\<close> (\<open>main.go\<close>), \<open>Wiring\<close>, which has the properties of the composed
    program, and \<open>Gateway\<close>, the HTTP chain under concurrent requests.

  \<^bold>\<open>How code is modelled.\<close> A struct is a record, an operation a function that takes and returns the world;
  an error is the left side of a sum and keeps the constructors of the code's sentinels; a panic is an
  outcome of its own (\<open>Panicked\<close>, or \<open>None\<close> and \<open>Inl\<close> where no error is possible). What an HTTP handler does
  to its \<open>ResponseWriter\<close> is the list of its calls. The rate limiter and its eviction goroutine are a
  step relation over interleavings of requests, evictions and \<open>Stop\<close>; the gateway extends it by the steps
  of concurrent requests between coming in and being answered. Strings are the bytes of Go's strings.

  \<^bold>\<open>What is a parameter.\<close> The host part of \<open>url.Parse\<close> (\<open>hp\<close>), the texts of library errors, one upstream
  exchange (resty), the token bucket of \<open>golang.org/x/time/rate\<close> with its documented laws (locale
  \<open>token_limiter\<close>, interpreted on a bucket), envconfig and the rules of ozzo-validation (locale \<open>ozzo\<close>,
  interpreted on a validator), the MCP handler, session and listeners, and the metrics names of the Go
  runtime. The witnesses instantiate each of them.

  \<^bold>\<open>What is shown.\<close>

  \<^item> Tools: the five handlers meet one specification, which is proved for all of them in the locale
    \<open>search_tool\<close>; what they return is sanitized, bounded and hides upstream errors; the sanitizers
    meet their specifications and are idempotent.
  \<^item> Client: only a 2xx answer succeeds, every exchange is counted once, the query determines the
    parameters, documents are read completely.
  \<^item> HTTP: the chain refines an admission specification (429, 413, 400, the handler's answer, or 500
    on a panic), keeps the gauge of requests in flight balanced on every path, and logs only single
    lines; the limiter refines token buckets that never forget a client.
  \<^item> Concurrency: in every interleaving of requests with evictions and the shutdown each request is
    answered what the chain, run on it alone, answers from the limiter at its decision, and none gets
    stuck; the gauge is the number of requests in flight; the handler is given no more requests than the
    configured limits allow.
  \<^item> Secrets: credentials in addresses do not reach the access log, the redacted structs or the banner.
  \<^item> Life cycle: start-up yields a valid configuration or a reason; metrics are registered once; every
    route of the servers; every listener opened is closed; shutdown ends within 30 seconds, whenever the
    signal comes.
  \<^item> Logging: levels and outputs, and the slog handler agrees with a reference on groups and attributes.

  \<^bold>\<open>Recursion and bounds.\<close> Recursion is structural or has a measure, but for trimming and unquoting, which
  run on as much fuel as the text has bytes; each step consumes one, and more fuel changes nothing
  (\<open>trim_left_fuel\<close>, \<open>trim_right_fuel\<close>, \<open>unquote_fuel\<close>). The nesting limit of JSON (10000) and the limit
  on \<open>LogValue\<close> (100) are part of the code. Times are nanoseconds as unbounded integers; bursts and
  \<open>max_results\<close> are 64-bit words. \<open>rate.Limit\<close> is a rational, which agrees with the float up to \<open>2 ^ 53\<close>.

  \<^bold>\<open>Not modelled.\<close> The third-party libraries and the runtime: the MCP SDK's protocol, what promhttp and
  pprof serve and what the instrumented handler observes, the text of log lines (an entry is its
  fields), TCP and TLS, and the memory behaviour of the Go runtime. Concurrency is modelled where the
  program's own code decides on shared state (the limiter, the gauge, the signal during a shutdown);
  counters, histograms and the log, which are only added to, are written by one operation at a time.
  \<open>CONNECT\<close> requests are left out in routing. \<open>cmd/server/main.go\<close>'s parsing of the command line is the
  value of its one flag.
\<close>

end
